(* ===== verification/Panda_Prelude.thy ===== *)
theory Panda_Prelude
  imports Main "HOL-Library.Word" "HOL-Library.Sublist"
begin

unbundle bit_operations_syntax

text \<open>
  The vocabulary shared by the components of the PandaOS development:
  machine integers, the Rust \<open>Result\<close> type, the outcome of code that can
  panic, array accesses and slices of byte buffers.

  Conventions used throughout.
  \<^item> The kernel is built with the dev profile (\<open>make build\<close>), so an arithmetic
    overflow, a failed \<open>assert!\<close> or \<open>debug_assert!\<close> and an index out of range
    are panics. A definition that can panic returns an \<open>outcome\<close>.
  \<^item> \<open>usize\<close> values that index or count a container are \<open>nat\<close>; where the source
    saturates or checks an overflow the bound \<open>2 ^ 64\<close> is written out. Values whose
    width or bits matter are words.
  \<^item> \<open>&mut\<close> parameters are state passing: the operation takes the state and
    returns it updated, also when it returns an error.
\<close>

section \<open>Machine integers\<close>

type_synonym u8 = "8 word"
type_synonym u16 = "16 word"
type_synonym u32 = "32 word"
type_synonym u64 = "64 word"
type_synonym bytes = "u8 list"

abbreviation usize_max :: nat where
  "usize_max \<equiv> 2 ^ 64 - 1"

lemma word_inc_nonzero: "x < y \<Longrightarrow> x + 1 \<noteq> (0 :: 'a::len word)"
  by unat_arith

lemma word_less_inc: "x \<noteq> - 1 \<Longrightarrow> x < x + (1 :: 'a::len word)"
proof -
  assume "x \<noteq> - 1"
  then have "1 + x \<noteq> 0" by (metis add_eq_0_iff)
  then show ?thesis using unatSuc [of x] by (simp add: word_less_nat_alt add.commute)
qed

lemma and_bit_nonzero: "(x AND push_bit k 1 \<noteq> 0) = bit (x :: 'a::len word) k"
  by (simp add: and_exp_eq_0_iff_not_bit)

section \<open>Results and panics\<close>

datatype ('a, 'e) result = Ok 'a | Err 'e

datatype 'a outcome = Ret 'a | Panic

definition bindO :: "'a outcome \<Rightarrow> ('a \<Rightarrow> 'b outcome) \<Rightarrow> 'b outcome" where
  "bindO m f = (case m of Ret x \<Rightarrow> f x | Panic \<Rightarrow> Panic)"

definition bindR :: "('a, 'e) result \<Rightarrow> ('a \<Rightarrow> ('b, 'e) result) \<Rightarrow> ('b, 'e) result" where
  "bindR m f = (case m of Ok x \<Rightarrow> f x | Err e \<Rightarrow> Err e)"

definition map_err :: "('e \<Rightarrow> 'f) \<Rightarrow> ('a, 'e) result \<Rightarrow> ('a, 'f) result" where
  "map_err g r = (case r of Ok x \<Rightarrow> Ok x | Err e \<Rightarrow> Err (g e))"

definition ok_or :: "'a option \<Rightarrow> 'e \<Rightarrow> ('a, 'e) result" where
  "ok_or x e = (case x of Some v \<Rightarrow> Ok v | None \<Rightarrow> Err e)"

lemma bindO_simps [simp]:
  "bindO (Ret x) f = f x"
  "bindO Panic f = Panic"
  by (simp_all add: bindO_def)

lemma bindO_eq_Ret [simp]: "bindO m f = Ret y \<longleftrightarrow> (\<exists>x. m = Ret x \<and> f x = Ret y)"
  by (cases m) auto

lemma bindR_simps [simp]:
  "bindR (Ok x) f = f x"
  "bindR (Err e) f = Err e"
  by (simp_all add: bindR_def)

lemma bindR_eq_Ok [simp]: "bindR m f = Ok y \<longleftrightarrow> (\<exists>x. m = Ok x \<and> f x = Ok y)"
  by (cases m) auto

lemma bindR_eq_Ok2 [simp]: "Ok y = bindR m f \<longleftrightarrow> (\<exists>x. m = Ok x \<and> f x = Ok y)"
  by (cases m) auto

lemma bindR_eq_Err [simp]:
  "bindR m f = Err e \<longleftrightarrow> m = Err e \<or> (\<exists>x. m = Ok x \<and> f x = Err e)"
  "Err e = bindR m f \<longleftrightarrow> m = Err e \<or> (\<exists>x. m = Ok x \<and> f x = Err e)"
  by (cases m; auto)+

lemma map_err_simps [simp]:
  "map_err g (Ok x) = Ok x"
  "map_err g (Err e) = Err (g e)"
  by (simp_all add: map_err_def)

lemma map_err_eq_Ok [simp]: "map_err g r = Ok x \<longleftrightarrow> r = Ok x"
  by (cases r) auto

lemma ok_or_simps [simp]:
  "ok_or (Some v) e = Ok v"
  "ok_or None e = Err e"
  by (simp_all add: ok_or_def)

lemma ok_or_eq_Ok [simp]: "ok_or x e = Ok v \<longleftrightarrow> x = Some v"
  by (cases x) auto

text \<open>Subtraction of \<open>usize\<close> values: below zero it panics.\<close>

definition usub :: "nat \<Rightarrow> nat \<Rightarrow> nat outcome" where
  "usub a b = (if b \<le> a then Ret (a - b) else Panic)"

lemma usub_Ret [simp]: "usub a b = Ret c \<longleftrightarrow> b \<le> a \<and> c = a - b"
  by (auto simp: usub_def)

lemma usub_le [simp]: "b \<le> a \<Longrightarrow> usub a b = Ret (a - b)"
  by simp

section \<open>Slices\<close>

text \<open>\<open>xs[a..b]\<close> and the in-place copy \<open>xs[off..off + ys.len()].copy_from_slice(ys)\<close>.\<close>

definition subslice :: "'a list \<Rightarrow> nat \<Rightarrow> nat \<Rightarrow> 'a list" where
  "subslice xs a b = take (b - a) (drop a xs)"

definition overwrite :: "'a list \<Rightarrow> nat \<Rightarrow> 'a list \<Rightarrow> 'a list" where
  "overwrite xs off ys = take off xs @ ys @ drop (off + length ys) xs"

lemma length_subslice [simp]: "length (subslice xs a b) = min (b - a) (length xs - a)"
  by (simp add: subslice_def)

lemma nth_subslice: "i < b - a \<Longrightarrow> a + i < length xs \<Longrightarrow> subslice xs a b ! i = xs ! (a + i)"
  by (simp add: subslice_def)

lemma subslice_full [simp]: "subslice xs 0 (length xs) = xs"
  by (simp add: subslice_def)

lemma length_overwrite [simp]:
  "off + length ys \<le> length xs \<Longrightarrow> length (overwrite xs off ys) = length xs"
  by (simp add: overwrite_def)

lemma nth_overwrite:
  "off + length ys \<le> length xs \<Longrightarrow> i < length xs \<Longrightarrow>
   overwrite xs off ys ! i = (if off \<le> i \<and> i < off + length ys then ys ! (i - off) else xs ! i)"
  by (auto simp: overwrite_def nth_append min_def)

lemma subslice_overwrite_same [simp]:
  "off + length ys \<le> length xs \<Longrightarrow> subslice (overwrite xs off ys) off (off + length ys) = ys"
  by (simp add: subslice_def overwrite_def)

lemma subslice_overwrite_disjoint:
  "off + length ys \<le> length xs \<Longrightarrow> b \<le> length xs \<Longrightarrow> b \<le> off \<or> off + length ys \<le> a \<Longrightarrow>
   subslice (overwrite xs off ys) a b = subslice xs a b"
  by (rule nth_equalityI) (auto simp: nth_subslice nth_overwrite)

text \<open>Slices of a sequence of blocks of one size.\<close>

lemma length_concat_blocks: "\<forall>x \<in> set xss. length x = n \<Longrightarrow> length (concat xss) = length xss * n"
  by (induction xss) auto

lemma take_drop_concat:
  "\<forall>x \<in> set xss. length x = n \<Longrightarrow> k < length xss \<Longrightarrow> r + t \<le> n \<Longrightarrow>
   take t (drop (k * n + r) (concat xss)) = take t (drop r (xss ! k))"
proof (induction xss arbitrary: k)
  case Nil
  then show ?case by simp
next
  case (Cons x xss)
  then show ?case by (cases k) (simp_all add: add.assoc)
qed

text \<open>One step of a loop that copies a byte range out of such a sequence, block by block.\<close>

lemma copy_block_step:
  assumes "\<forall>x \<in> set xss. length x = n" "k < length xss" "offset + br = k * n + bo" "bo + t \<le> n"
    and "br \<le> length (concat xss) - offset" "buffer = take br (drop offset (concat xss)) @ drop br buf"
  shows "overwrite buffer br (subslice (xss ! k) bo (bo + t)) =
      take (br + t) (drop offset (concat xss)) @ drop (br + t) buf"
    and "br + t \<le> length (concat xss) - offset"
proof -
  have data: "take t (drop (offset + br) (concat xss)) = subslice (xss ! k) bo (bo + t)"
    using take_drop_concat [OF assms(1,2,4)] assms(3) by (simp add: subslice_def)
  have "length (xss ! k) = n" using assms(1,2) by simp
  then have ls: "length (subslice (xss ! k) bo (bo + t)) = t" using assms(4) by simp
  have lb: "length (take br (drop offset (concat xss))) = br" using assms(5) by simp
  show "overwrite buffer br (subslice (xss ! k) bo (bo + t)) =
      take (br + t) (drop offset (concat xss)) @ drop (br + t) buf"
    using ls lb assms(6) by (simp add: overwrite_def data [symmetric] take_add add.commute)
  have "Suc k * n \<le> length (concat xss)"
    using assms(2) length_concat_blocks [OF assms(1)] mult_le_mono1 [of "Suc k" "length xss" n] by simp
  then show "br + t \<le> length (concat xss) - offset" using assms(3,4) by simp
qed

section \<open>Arrays\<close>

text \<open>An array access \<open>xs[i]\<close> or assignment \<open>xs[i] = v\<close> out of range panics.\<close>

definition arr_get :: "'a list \<Rightarrow> nat \<Rightarrow> 'a outcome" where
  "arr_get xs i = (if i < length xs then Ret (xs ! i) else Panic)"

definition arr_set :: "'a list \<Rightarrow> nat \<Rightarrow> 'a \<Rightarrow> 'a list outcome" where
  "arr_set xs i v = (if i < length xs then Ret (xs[i := v]) else Panic)"

lemma arr_get_Ret [simp]: "arr_get xs i = Ret v \<longleftrightarrow> i < length xs \<and> v = xs ! i"
  by (auto simp: arr_get_def)

lemma arr_get_lt [simp]: "i < length xs \<Longrightarrow> arr_get xs i = Ret (xs ! i)"
  by simp

lemma arr_set_Ret [simp]: "arr_set xs i v = Ret ys \<longleftrightarrow> i < length xs \<and> ys = xs[i := v]"
  by (auto simp: arr_set_def)

lemma arr_set_lt [simp]: "i < length xs \<Longrightarrow> arr_set xs i v = Ret (xs[i := v])"
  by simp

text \<open>The slice \<open>xs[a..b]\<close> with its bounds check.\<close>

definition slice_at :: "'a list \<Rightarrow> nat \<Rightarrow> nat \<Rightarrow> 'a list outcome" where
  "slice_at xs a b = (if a \<le> b \<and> b \<le> length xs then Ret (subslice xs a b) else Panic)"

lemma slice_at_Ret [simp]: "slice_at xs a b = Ret ys \<longleftrightarrow> a \<le> b \<and> b \<le> length xs \<and> ys = subslice xs a b"
  by (auto simp: slice_at_def)

end
