(* ===== verification/Byte_Codec.thy ===== *)
theory Byte_Codec
  imports Panda_Prelude
begin

unbundle bit_operations_syntax

text \<open>
  Fixed-width integers as byte sequences: Rust's \<open>to_le_bytes\<close>, \<open>from_le_bytes\<close>,
  \<open>to_be_bytes\<close> and \<open>from_be_bytes\<close>, for every width that is a multiple of eight,
  with the two round trips. The file systems, the ELF loader and the network stack
  read and write their headers through these functions.
\<close>

definition le_bytes :: "nat \<Rightarrow> 'a::len word \<Rightarrow> bytes" where
  "le_bytes n w = map (\<lambda>i. ucast (drop_bit (8 * i) w)) [0..<n]"

primrec from_le :: "bytes \<Rightarrow> 'a::len word" where
  "from_le [] = 0"
| "from_le (b # bs) = (ucast b) OR push_bit 8 (from_le bs)"

definition be_bytes :: "nat \<Rightarrow> 'a::len word \<Rightarrow> bytes" where
  "be_bytes n w = rev (le_bytes n w)"

definition from_be :: "bytes \<Rightarrow> 'a::len word" where
  "from_be bs = from_le (rev bs)"

lemma from_le_zero [simp]: "from_le (replicate n 0) = 0"
  by (induction n) simp_all

lemma length_le_bytes [simp]: "length (le_bytes n w) = n"
  by (simp add: le_bytes_def)

lemma length_be_bytes [simp]: "length (be_bytes n w) = n"
  by (simp add: be_bytes_def)

lemma bit_from_le:
  "bit (from_le bs :: 'a::len word) i \<longleftrightarrow>
     i < LENGTH('a) \<and> i div 8 < length bs \<and> bit (bs ! (i div 8)) (i mod 8)"
proof (induction bs arbitrary: i)
  case Nil
  then show ?case by simp
next
  case (Cons b bs)
  show ?case
  proof (cases "i < 8")
    case True
    then show ?thesis by (auto simp: bit_simps)
  next
    case False
    then have d: "i div 8 = Suc ((i - 8) div 8)" and m: "i mod 8 = (i - 8) mod 8"
      by (simp_all add: le_div_geq le_mod_geq)
    have "\<not> bit b i" using False by (auto dest: bit_imp_le_length)
    with False show ?thesis
      by (auto simp: bit_simps Cons.IH d m)
  qed
qed

lemma bit_le_bytes:
  "j < n \<Longrightarrow> bit (le_bytes n w ! j) k \<longleftrightarrow> k < 8 \<and> bit w (8 * j + k)"
  by (auto simp: le_bytes_def bit_simps)

lemma from_le_le_bytes [simp]:
  assumes "LENGTH('a::len) \<le> 8 * n"
  shows "from_le (le_bytes n w) = (w :: 'a word)"
proof (rule bit_word_eqI)
  fix i assume i: "i < LENGTH('a)"
  with assms have "i div 8 < n" by (simp add: less_mult_imp_div_less mult.commute)
  with i show "bit (from_le (le_bytes n w) :: 'a word) i = bit w i"
    by (simp add: bit_from_le bit_le_bytes)
qed

lemma le_bytes_from_le [simp]:
  assumes "8 * length bs \<le> LENGTH('a::len)"
  shows "le_bytes (length bs) (from_le bs :: 'a word) = bs"
proof (rule nth_equalityI)
  fix j assume j: "j < length (le_bytes (length bs) (from_le bs :: 'a word))"
  show "le_bytes (length bs) (from_le bs :: 'a word) ! j = bs ! j"
  proof (rule bit_word_eqI)
    fix k assume "k < LENGTH(8)"
    then have k: "k < 8" by simp
    moreover from k j assms have "8 * j + k < LENGTH('a)" by simp
    moreover from k have "(8 * j + k) div 8 = j" and "(8 * j + k) mod 8 = k" by simp_all
    ultimately show "bit (le_bytes (length bs) (from_le bs :: 'a word) ! j) k = bit (bs ! j) k"
      using j by (simp add: bit_le_bytes bit_from_le)
  qed
qed simp

lemma from_be_be_bytes [simp]:
  "LENGTH('a::len) \<le> 8 * n \<Longrightarrow> from_be (be_bytes n w) = (w :: 'a word)"
  by (simp add: from_be_def be_bytes_def)

lemma be_bytes_from_be [simp]:
  "8 * length bs \<le> LENGTH('a::len) \<Longrightarrow> be_bytes (length bs) (from_be bs :: 'a word) = bs"
  using le_bytes_from_le [of "rev bs", where 'a = 'a]
  by (simp add: from_be_def be_bytes_def)

lemma be_bytes_2: "be_bytes 2 (w :: u16) = [ucast (drop_bit 8 w), ucast w]"
  by (simp add: be_bytes_def le_bytes_def numeral_2_eq_2 upt_rec)

lemma from_be_2: "from_be [a, b] = (push_bit 8 (ucast a) OR ucast b :: 'a::len word)"
  by (simp add: from_be_def or.commute)

text \<open>An integer read from a buffer byte by byte, each access checked.\<close>

definition le_at :: "nat \<Rightarrow> bytes \<Rightarrow> nat \<Rightarrow> 'a::len word outcome" where
  "le_at n xs off = (if off + n \<le> length xs then Ret (from_le (subslice xs off (off + n))) else Panic)"

definition be_at :: "nat \<Rightarrow> bytes \<Rightarrow> nat \<Rightarrow> 'a::len word outcome" where
  "be_at n xs off = (if off + n \<le> length xs then Ret (from_be (subslice xs off (off + n))) else Panic)"

lemma le_at_Ret [simp]:
  "le_at n xs off = Ret w \<longleftrightarrow> off + n \<le> length xs \<and> w = from_le (subslice xs off (off + n))"
  by (auto simp: le_at_def)

lemma be_at_Ret [simp]:
  "be_at n xs off = Ret w \<longleftrightarrow> off + n \<le> length xs \<and> w = from_be (subslice xs off (off + n))"
  by (auto simp: be_at_def)

end
