(* ===== verification/Bitmap.thy ===== *)
theory Bitmap
  imports Panda_Prelude
begin

unbundle bit_operations_syntax

text \<open>
  The allocation bitmap of \<open>hal/src/bitmap.rs\<close>: a byte buffer of which the first
  \<open>size\<close> bits are in use. The abstraction of a bitmap is the set of the indices of its
  set bits. The locale \<open>index_set\<close> states what the frame allocator relies on; the
  bitmap of the source is its interpretation.
\<close>

section \<open>The bitmap of the source\<close>

record bitmap =
  bm_data :: bytes
  bm_size :: nat

definition bitmap_new :: "bytes \<Rightarrow> nat \<Rightarrow> bitmap outcome" where
  "bitmap_new data sz =
     (let required_bytes = (sz + 7) div 8 in
      if required_bytes \<le> length data
      then Ret \<lparr>bm_data = replicate required_bytes 0 @ drop required_bytes data, bm_size = sz\<rparr>
      else Panic)"

definition bitmap_set :: "bitmap \<Rightarrow> nat \<Rightarrow> bitmap outcome" where
  "bitmap_set b index =
     (if index < bm_size b \<and> index div 8 < length (bm_data b)
      then Ret (b\<lparr>bm_data := (bm_data b)[index div 8 :=
                 bm_data b ! (index div 8) OR push_bit (index mod 8) 1]\<rparr>)
      else Panic)"

definition bitmap_clear :: "bitmap \<Rightarrow> nat \<Rightarrow> bitmap outcome" where
  "bitmap_clear b index =
     (if index < bm_size b \<and> index div 8 < length (bm_data b)
      then Ret (b\<lparr>bm_data := (bm_data b)[index div 8 :=
                 bm_data b ! (index div 8) AND NOT (push_bit (index mod 8) 1)]\<rparr>)
      else Panic)"

definition bitmap_is_set :: "bitmap \<Rightarrow> nat \<Rightarrow> bool outcome" where
  "bitmap_is_set b index =
     (if index < bm_size b \<and> index div 8 < length (bm_data b)
      then Ret (bm_data b ! (index div 8) AND push_bit (index mod 8) 1 \<noteq> 0)
      else Panic)"

text \<open>The loop \<open>for i in 0..self.size\<close> of \<open>find_and_set\<close>, over the indices still to visit.\<close>

fun bitmap_scan :: "bitmap \<Rightarrow> nat list \<Rightarrow> (bitmap \<times> nat option) outcome" where
  "bitmap_scan b [] = Ret (b, None)"
| "bitmap_scan b (i # is) =
     bindO (bitmap_is_set b i) (\<lambda>s.
       if \<not> s then bindO (bitmap_set b i) (\<lambda>b'. Ret (b', Some i))
       else bitmap_scan b is)"

definition bitmap_find_and_set :: "bitmap \<Rightarrow> (bitmap \<times> nat option) outcome" where
  "bitmap_find_and_set b = bitmap_scan b [0..<bm_size b]"

fun bitmap_count_loop :: "bitmap \<Rightarrow> nat list \<Rightarrow> nat \<Rightarrow> nat outcome" where
  "bitmap_count_loop b [] count = Ret count"
| "bitmap_count_loop b (i # is) count =
     bindO (bitmap_is_set b i) (\<lambda>s. bitmap_count_loop b is (if s then count + 1 else count))"

definition bitmap_count_set :: "bitmap \<Rightarrow> nat outcome" where
  "bitmap_count_set b = bitmap_count_loop b [0..<bm_size b] 0"

definition bitmap_count_clear :: "bitmap \<Rightarrow> nat outcome" where
  "bitmap_count_clear b = bindO (bitmap_count_set b) (\<lambda>c. usub (bm_size b) c)"

section \<open>Abstraction\<close>

definition bitmap_ok :: "bitmap \<Rightarrow> bool" where
  "bitmap_ok b \<longleftrightarrow> (bm_size b + 7) div 8 \<le> length (bm_data b)"

definition bitmap_bits :: "bitmap \<Rightarrow> nat set" where
  "bitmap_bits b = {i. i < bm_size b \<and> bit (bm_data b ! (i div 8)) (i mod 8)}"

lemma bitmap_ok_byte [simp]: "bitmap_ok b \<Longrightarrow> i < bm_size b \<Longrightarrow> i div 8 < length (bm_data b)"
  by (simp add: bitmap_ok_def)

lemma and_exp_bit: "(x AND 2 ^ k = 0) = (\<not> bit (x :: 'a::len word) k)"
  by (simp add: and_exp_eq_0_iff_not_bit)

lemma byte_index_cong: "i div 8 = j div 8 \<Longrightarrow> i mod 8 = j mod (8::nat) \<Longrightarrow> i = j"
  by (metis div_mult_mod_eq)

lemma bitmap_new_spec:
  "(sz + 7) div 8 \<le> length data \<Longrightarrow>
   \<exists>b. bitmap_new data sz = Ret b \<and> bitmap_ok b \<and> bm_size b = sz \<and> bitmap_bits b = {}"
  by (auto simp: bitmap_new_def Let_def bitmap_ok_def bitmap_bits_def nth_append)

lemma bitmap_is_set_spec:
  "bitmap_ok b \<Longrightarrow> i < bm_size b \<Longrightarrow> bitmap_is_set b i = Ret (i \<in> bitmap_bits b)"
  by (simp add: bitmap_is_set_def bitmap_bits_def and_exp_bit)

lemma bitmap_set_spec:
  assumes "bitmap_ok b" "i < bm_size b"
  shows "\<exists>b'. bitmap_set b i = Ret b' \<and> bitmap_ok b' \<and> bm_size b' = bm_size b
           \<and> bitmap_bits b' = insert i (bitmap_bits b)"
  using assms
  by (auto simp: bitmap_set_def bitmap_ok_def bitmap_bits_def nth_list_update bit_simps
      split: if_splits intro: byte_index_cong)

lemma bitmap_clear_spec:
  assumes "bitmap_ok b" "i < bm_size b"
  shows "\<exists>b'. bitmap_clear b i = Ret b' \<and> bitmap_ok b' \<and> bm_size b' = bm_size b
           \<and> bitmap_bits b' = bitmap_bits b - {i}"
  using assms
  by (auto simp: bitmap_clear_def bitmap_ok_def bitmap_bits_def nth_list_update bit_simps
      split: if_splits intro: byte_index_cong)

section \<open>The interface the allocators use\<close>

locale index_set =
  fixes inv :: "'b \<Rightarrow> bool"
    and cap :: "'b \<Rightarrow> nat"
    and elems :: "'b \<Rightarrow> nat set"
    and ins :: "'b \<Rightarrow> nat \<Rightarrow> 'b outcome"
    and del :: "'b \<Rightarrow> nat \<Rightarrow> 'b outcome"
    and mem :: "'b \<Rightarrow> nat \<Rightarrow> bool outcome"
  assumes elems_bound: "inv b \<Longrightarrow> elems b \<subseteq> {..<cap b}"
    and mem_spec: "inv b \<Longrightarrow> i < cap b \<Longrightarrow> mem b i = Ret (i \<in> elems b)"
    and ins_spec: "inv b \<Longrightarrow> i < cap b \<Longrightarrow>
          \<exists>b'. ins b i = Ret b' \<and> inv b' \<and> cap b' = cap b \<and> elems b' = insert i (elems b)"
    and del_spec: "inv b \<Longrightarrow> i < cap b \<Longrightarrow>
          \<exists>b'. del b i = Ret b' \<and> inv b' \<and> cap b' = cap b \<and> elems b' = elems b - {i}"
begin

lemma elems_finite: "inv b \<Longrightarrow> finite (elems b)"
  using elems_bound finite_subset by blast

lemma ins_Ret: "inv b \<Longrightarrow> i < cap b \<Longrightarrow> ins b i = Ret b' \<Longrightarrow>
    inv b' \<and> cap b' = cap b \<and> elems b' = insert i (elems b)"
  using ins_spec [of b i] by auto

lemma del_Ret: "inv b \<Longrightarrow> i < cap b \<Longrightarrow> del b i = Ret b' \<Longrightarrow>
    inv b' \<and> cap b' = cap b \<and> elems b' = elems b - {i}"
  using del_spec [of b i] by auto

lemma ins_del_cancel:
  assumes "inv b" "i < cap b" "i \<notin> elems b"
  shows "\<exists>b'. bindO (ins b i) (\<lambda>c. del c i) = Ret b' \<and> elems b' = elems b"
proof -
  from ins_spec [OF assms(1,2)] obtain c
    where c: "ins b i = Ret c" "inv c" "cap c = cap b" "elems c = insert i (elems b)"
    by blast
  with assms(2) del_spec [of c i] obtain d where "del c i = Ret d" "elems d = elems c - {i}"
    by auto
  with c assms(3) show ?thesis by auto
qed

end

interpretation bm: index_set bitmap_ok bm_size bitmap_bits bitmap_set bitmap_clear bitmap_is_set
proof
  show "bitmap_bits b \<subseteq> {..<bm_size b}" for b
    by (auto simp: bitmap_bits_def)
qed (fact bitmap_is_set_spec bitmap_set_spec bitmap_clear_spec)+

section \<open>Searching and counting\<close>

lemma bitmap_scan_spec:
  assumes "bitmap_ok b" "\<forall>i \<in> set is. i < bm_size b" "sorted is"
  shows "(\<exists>i b'. bitmap_scan b is = Ret (b', Some i) \<and> i \<in> set is - bitmap_bits b
             \<and> (\<forall>j \<in> set is - bitmap_bits b. i \<le> j)
             \<and> bitmap_ok b' \<and> bm_size b' = bm_size b \<and> bitmap_bits b' = insert i (bitmap_bits b))
         \<or> (bitmap_scan b is = Ret (b, None) \<and> set is \<subseteq> bitmap_bits b)"
  using assms(2,3)
proof (induction "is")
  case Nil
  then show ?case by simp
next
  case (Cons i "is")
  show ?case
  proof (cases "i \<in> bitmap_bits b")
    case True
    with Cons assms(1) show ?thesis by (auto simp: bitmap_is_set_spec)
  next
    case False
    with Cons.prems bitmap_set_spec [OF assms(1), of i] assms(1) show ?thesis
      by (auto simp: bitmap_is_set_spec)
  qed
qed

lemma bitmap_count_loop_spec:
  "bitmap_ok b \<Longrightarrow> \<forall>i \<in> set is. i < bm_size b \<Longrightarrow> distinct is \<Longrightarrow>
   bitmap_count_loop b is c = Ret (c + card (set is \<inter> bitmap_bits b))"
proof (induction "is" arbitrary: c)
  case Nil
  then show ?case by simp
next
  case (Cons i "is")
  then show ?case
    by (simp add: bitmap_is_set_spec Int_insert_left)
qed

lemma bitmap_count_set_spec: "bitmap_ok b \<Longrightarrow> bitmap_count_set b = Ret (card (bitmap_bits b))"
  using bitmap_count_loop_spec [of b "[0..<bm_size b]" 0] bm.elems_bound [of b]
  by (simp add: bitmap_count_set_def Int_absorb1 atLeast0LessThan)

lemma card_bitmap_bits: "bitmap_ok b \<Longrightarrow> card (bitmap_bits b) \<le> bm_size b"
  using card_mono [OF _ bm.elems_bound, of b] by simp

lemma bitmap_count_clear_spec:
  "bitmap_ok b \<Longrightarrow> bitmap_count_clear b = Ret (bm_size b - card (bitmap_bits b))"
  by (simp add: bitmap_count_clear_def bitmap_count_set_spec card_bitmap_bits)

section \<open>Properties\<close>

text \<open>C12: \<open>Bitmap::find_and_set\<close> never panics on a bitmap whose buffer holds its bits. It
  returns the least index whose bit is clear, sets that bit and no other, and returns
  \<open>None\<close>, leaving the bitmap as it is, exactly when every bit is set.\<close>

theorem bitmap_find_and_set_first:
  assumes "bitmap_ok b"
  shows "if \<exists>j < bm_size b. j \<notin> bitmap_bits b
         then \<exists>b'. bitmap_find_and_set b = Ret (b', Some (LEAST j. j < bm_size b \<and> j \<notin> bitmap_bits b))
                \<and> bitmap_ok b' \<and> bm_size b' = bm_size b
                \<and> bitmap_bits b' = insert (LEAST j. j < bm_size b \<and> j \<notin> bitmap_bits b) (bitmap_bits b)
         else bitmap_find_and_set b = Ret (b, None)"
proof -
  let ?is = "[0..<bm_size b]"
  have dj: "(\<exists>i b'. bitmap_scan b ?is = Ret (b', Some i) \<and> i \<in> set ?is - bitmap_bits b
             \<and> (\<forall>j \<in> set ?is - bitmap_bits b. i \<le> j)
             \<and> bitmap_ok b' \<and> bm_size b' = bm_size b \<and> bitmap_bits b' = insert i (bitmap_bits b))
         \<or> (bitmap_scan b ?is = Ret (b, None) \<and> set ?is \<subseteq> bitmap_bits b)"
    by (rule bitmap_scan_spec [OF assms]) auto
  show ?thesis
  proof (cases "\<exists>j < bm_size b. j \<notin> bitmap_bits b")
    case True
    with dj obtain i b' where i: "bitmap_scan b ?is = Ret (b', Some i)" "i < bm_size b" "i \<notin> bitmap_bits b"
      "\<forall>j \<in> set ?is - bitmap_bits b. i \<le> j" "bitmap_ok b'" "bm_size b' = bm_size b"
      "bitmap_bits b' = insert i (bitmap_bits b)"
      by auto
    from i(2-4) have "(LEAST j. j < bm_size b \<and> j \<notin> bitmap_bits b) = i"
      by (intro Least_equality) auto
    with True i show ?thesis by (simp add: bitmap_find_and_set_def)
  next
    case False
    with dj show ?thesis by (auto simp: bitmap_find_and_set_def)
  qed
qed

theorem bitmap_find_and_set_first_witness:
  "bitmap_ok \<lparr>bm_data = [255, 1], bm_size = 10\<rparr>
   \<and> (\<exists>b' i. bitmap_find_and_set \<lparr>bm_data = [255, 1], bm_size = 10\<rparr> = Ret (b', Some i)
        \<and> bitmap_bits b' = insert i (bitmap_bits \<lparr>bm_data = [255, 1], bm_size = 10\<rparr>))"
proof -
  let ?b = "\<lparr>bm_data = [255, 1], bm_size = 10\<rparr> :: bitmap"
  have ok: "bitmap_ok ?b" by (simp add: bitmap_ok_def)
  have "9 \<notin> bitmap_bits ?b" by (simp add: bitmap_bits_def)
  then have "\<exists>j < bm_size ?b. j \<notin> bitmap_bits ?b" by (intro exI [of _ 9]) simp
  with ok bitmap_find_and_set_first [OF ok] show ?thesis by auto
qed

end
