(* ===== verification/Frame_Allocator.thy ===== *)
theory Frame_Allocator
  imports Bitmap
begin

unbundle bit_operations_syntax

text \<open>
  The physical frame allocator of \<open>hal/src/memory.rs\<close>: a range of frames, a table of
  reserved regions kept merged, an allocation bitmap and optional reference counts for
  copy-on-write. The abstraction is the set of reserved frames and the set of allocated
  indices; the invariant \<open>fa_wf\<close> ties the reference counts to the bitmap.
\<close>

section \<open>Reserved regions\<close>

datatype reservation_reason =
  KernelImage | Bootloader | PageTables | Heap | InitramfsModule | NullFrame

record reserved_region =
  start_frame :: nat
  end_frame :: nat
  reason :: reservation_reason

definition FRAME_SIZE :: nat where
  "FRAME_SIZE = 4096"

definition MAX_RESERVED_REGIONS :: nat where
  "MAX_RESERVED_REGIONS = 32"

definition MAX_REFCOUNT :: u16 where
  "MAX_REFCOUNT = 65535"

definition region_new :: "nat \<Rightarrow> nat \<Rightarrow> reservation_reason \<Rightarrow> reserved_region" where
  "region_new s e r = \<lparr>start_frame = s, end_frame = e, reason = r\<rparr>"

definition region_contains :: "reserved_region \<Rightarrow> nat \<Rightarrow> bool" where
  "region_contains r frame \<longleftrightarrow> frame \<ge> start_frame r \<and> frame < end_frame r"

definition region_overlaps :: "reserved_region \<Rightarrow> reserved_region \<Rightarrow> bool" where
  "region_overlaps r other \<longleftrightarrow>
     start_frame r < end_frame other \<and> start_frame other < end_frame r"

definition region_try_merge :: "reserved_region \<Rightarrow> reserved_region \<Rightarrow> reserved_region option" where
  "region_try_merge r other =
     (let adjacent = end_frame r = start_frame other \<or> end_frame other = start_frame r;
          overlapping = region_overlaps r other
      in if adjacent \<or> overlapping
         then Some \<lparr>start_frame = min (start_frame r) (start_frame other),
                    end_frame = max (end_frame r) (end_frame other),
                    reason = reason r\<rparr>
         else None)"

section \<open>The allocator\<close>

record frame_allocator =
  available_start :: nat
  available_end :: nat
  next_frame :: nat
  reserved_regions :: "reserved_region option list"
  reserved_count :: nat
  allocation_bitmap :: bitmap
  refcounts :: "u16 list option"

definition fa_new :: "nat \<Rightarrow> nat \<Rightarrow> bytes \<Rightarrow> frame_allocator outcome" where
  "fa_new s e storage =
     (let total_frames = e - s in
      bindO (bitmap_new storage total_frames) (\<lambda>bm.
        Ret \<lparr>available_start = s, available_end = e, next_frame = s,
             reserved_regions = replicate MAX_RESERVED_REGIONS None, reserved_count = 0,
             allocation_bitmap = bm, refcounts = None\<rparr>))"

definition total_frames :: "frame_allocator \<Rightarrow> nat outcome" where
  "total_frames a = usub (available_end a) (available_start a)"

definition set_refcount_storage :: "frame_allocator \<Rightarrow> u16 list \<Rightarrow> frame_allocator outcome" where
  "set_refcount_storage a storage =
     bindO (total_frames a) (\<lambda>total.
       if total \<le> length storage
       then Ret (a\<lparr>refcounts := Some (replicate total 0 @ drop total storage)\<rparr>)
       else Panic)"

text \<open>\<open>for k in j..self.reserved_count - 1\<close>: shift the later regions down by one.\<close>

fun shift_down :: "reserved_region option list \<Rightarrow> nat list \<Rightarrow> reserved_region option list outcome" where
  "shift_down arr [] = Ret arr"
| "shift_down arr (k # ks) =
     bindO (arr_get arr (k + 1)) (\<lambda>x. bindO (arr_set arr k x) (\<lambda>arr'. shift_down arr' ks))"

text \<open>Merge region \<open>j\<close> into region \<open>i\<close>: the body of the inner loop of
  \<open>consolidate_reservations\<close> once a mergeable pair is found.\<close>

definition merge_into :: "frame_allocator \<Rightarrow> nat \<Rightarrow> nat \<Rightarrow> reserved_region \<Rightarrow> frame_allocator outcome" where
  "merge_into a i j merged =
     bindO (arr_set (reserved_regions a) i (Some merged)) (\<lambda>arr.
     bindO (usub (reserved_count a) 1) (\<lambda>c'.
     bindO (shift_down arr [j..<c']) (\<lambda>arr'.
     bindO (arr_set arr' c' None) (\<lambda>arr''.
       Ret (a\<lparr>reserved_regions := arr'', reserved_count := c'\<rparr>)))))"

fun consolidate_inner :: "frame_allocator \<Rightarrow> nat \<Rightarrow> nat list \<Rightarrow> frame_allocator option outcome" where
  "consolidate_inner a i [] = Ret None"
| "consolidate_inner a i (j # js) =
     bindO (arr_get (reserved_regions a) i) (\<lambda>ri.
     bindO (arr_get (reserved_regions a) j) (\<lambda>rj.
       case (ri, rj) of
         (Some region_i, Some region_j) \<Rightarrow>
           (case region_try_merge region_i region_j of
              Some merged \<Rightarrow> bindO (merge_into a i j merged) (\<lambda>a'. Ret (Some a'))
            | None \<Rightarrow> consolidate_inner a i js)
       | _ \<Rightarrow> consolidate_inner a i js))"

fun consolidate_outer :: "frame_allocator \<Rightarrow> nat list \<Rightarrow> frame_allocator option outcome" where
  "consolidate_outer a [] = Ret None"
| "consolidate_outer a (i # is) =
     bindO (consolidate_inner a i [i + 1..<reserved_count a]) (\<lambda>r.
       case r of Some a' \<Rightarrow> Ret (Some a') | None \<Rightarrow> consolidate_outer a is)"

lemma consolidate_inner_count:
  "consolidate_inner a i js = Ret (Some a') \<Longrightarrow> reserved_count a' < reserved_count a"
  by (induction js) (auto simp: merge_into_def split: option.splits)

lemma consolidate_outer_count:
  "consolidate_outer a is = Ret (Some a') \<Longrightarrow> reserved_count a' < reserved_count a"
  by (induction "is") (auto dest: consolidate_inner_count split: option.splits)

text \<open>\<open>while changed\<close>: every change lowers \<open>reserved_count\<close>, so the loop ends.\<close>

function consolidate_reservations :: "frame_allocator \<Rightarrow> frame_allocator outcome" where
  "consolidate_reservations a =
     (case consolidate_outer a [0..<reserved_count a] of
        Panic \<Rightarrow> Panic
      | Ret None \<Rightarrow> Ret a
      | Ret (Some a') \<Rightarrow> consolidate_reservations a')"
  by pat_completeness auto
termination
  by (relation "measure reserved_count") (auto dest: consolidate_outer_count)

declare consolidate_reservations.simps [simp del]

fun reserve_merge_loop :: "frame_allocator \<Rightarrow> reserved_region \<Rightarrow> nat list \<Rightarrow> (frame_allocator \<times> bool) outcome" where
  "reserve_merge_loop a new_region [] = Ret (a, False)"
| "reserve_merge_loop a new_region (i # is) =
     bindO (arr_get (reserved_regions a) i) (\<lambda>e.
       case e of
         None \<Rightarrow> reserve_merge_loop a new_region is
       | Some existing \<Rightarrow>
           (case region_try_merge existing new_region of
              None \<Rightarrow> reserve_merge_loop a new_region is
            | Some merged \<Rightarrow>
                bindO (consolidate_reservations
                        (a\<lparr>reserved_regions := (reserved_regions a)[i := Some merged]\<rparr>))
                      (\<lambda>a'. Ret (a', True))))"

definition reserve_range :: "frame_allocator \<Rightarrow> nat \<Rightarrow> nat \<Rightarrow> reservation_reason \<Rightarrow> frame_allocator outcome" where
  "reserve_range a s e why =
     (if s \<ge> e then Ret a
      else let new_region = region_new s e why in
        bindO (reserve_merge_loop a new_region [0..<reserved_count a]) (\<lambda>(a', merged).
          if merged then Ret a'
          else if reserved_count a' < MAX_RESERVED_REGIONS
          then bindO (arr_set (reserved_regions a') (reserved_count a') (Some new_region)) (\<lambda>arr.
                 Ret (a'\<lparr>reserved_regions := arr, reserved_count := reserved_count a' + 1\<rparr>))
          else Panic))"

fun is_reserved_loop :: "frame_allocator \<Rightarrow> nat \<Rightarrow> nat list \<Rightarrow> bool outcome" where
  "is_reserved_loop a frame [] = Ret False"
| "is_reserved_loop a frame (i # is) =
     bindO (arr_get (reserved_regions a) i) (\<lambda>e.
       case e of
         Some region \<Rightarrow> if region_contains region frame then Ret True
                        else is_reserved_loop a frame is
       | None \<Rightarrow> is_reserved_loop a frame is)"

definition is_reserved :: "frame_allocator \<Rightarrow> nat \<Rightarrow> bool outcome" where
  "is_reserved a frame = is_reserved_loop a frame [0..<reserved_count a]"

definition frame_index :: "frame_allocator \<Rightarrow> nat \<Rightarrow> nat option" where
  "frame_index a frame =
     (if frame < available_start a \<or> frame \<ge> available_end a then None
      else Some (frame - available_start a))"

definition is_allocated :: "frame_allocator \<Rightarrow> nat \<Rightarrow> bool outcome" where
  "is_allocated a frame =
     (case frame_index a frame of None \<Rightarrow> Ret False
      | Some index \<Rightarrow> bitmap_is_set (allocation_bitmap a) index)"

definition set_allocated :: "frame_allocator \<Rightarrow> nat \<Rightarrow> frame_allocator outcome" where
  "set_allocated a frame =
     (case frame_index a frame of None \<Rightarrow> Ret a
      | Some index \<Rightarrow> bindO (bitmap_set (allocation_bitmap a) index) (\<lambda>bm.
                        Ret (a\<lparr>allocation_bitmap := bm\<rparr>)))"

definition clear_allocated :: "frame_allocator \<Rightarrow> nat \<Rightarrow> frame_allocator outcome" where
  "clear_allocated a frame =
     (case frame_index a frame of None \<Rightarrow> Ret a
      | Some index \<Rightarrow> bindO (bitmap_clear (allocation_bitmap a) index) (\<lambda>bm.
                        Ret (a\<lparr>allocation_bitmap := bm\<rparr>)))"

text \<open>\<open>self.reserved_regions[..count].iter().filter_map(...)\<close>, and the sum of the lengths.\<close>

definition reserved_regions_list :: "frame_allocator \<Rightarrow> reserved_region list outcome" where
  "reserved_regions_list a =
     (if reserved_count a \<le> length (reserved_regions a)
      then Ret (List.map_filter id (take (reserved_count a) (reserved_regions a)))
      else Panic)"

fun sum_lengths :: "reserved_region list \<Rightarrow> nat outcome" where
  "sum_lengths [] = Ret 0"
| "sum_lengths (r # rs) =
     bindO (usub (end_frame r) (start_frame r)) (\<lambda>n. bindO (sum_lengths rs) (\<lambda>m. Ret (n + m)))"

definition reserved_frames :: "frame_allocator \<Rightarrow> nat outcome" where
  "reserved_frames a = bindO (reserved_regions_list a) sum_lengths"

definition usable_frames :: "frame_allocator \<Rightarrow> nat outcome" where
  "usable_frames a =
     bindO (total_frames a) (\<lambda>t. bindO (reserved_frames a) (\<lambda>r. Ret (t - r)))"

definition allocated_frames :: "frame_allocator \<Rightarrow> nat outcome" where
  "allocated_frames a = bitmap_count_set (allocation_bitmap a)"

definition available_frames :: "frame_allocator \<Rightarrow> nat outcome" where
  "available_frames a =
     bindO (usable_frames a) (\<lambda>u. bindO (allocated_frames a) (\<lambda>n. Ret (u - n)))"

text \<open>Write \<open>refcounts[index]\<close> when reference counting is on.\<close>

definition put_refcount :: "frame_allocator \<Rightarrow> nat \<Rightarrow> u16 \<Rightarrow> frame_allocator outcome" where
  "put_refcount a index v =
     (case refcounts a of
        None \<Rightarrow> Ret a
      | Some rc \<Rightarrow> bindO (arr_set rc index v) (\<lambda>rc'. Ret (a\<lparr>refcounts := Some rc'\<rparr>)))"

text \<open>The loop \<open>while checked < total_frames\<close>; the first argument is
  \<open>total_frames - checked\<close>.\<close>

fun allocate_loop :: "nat \<Rightarrow> frame_allocator \<Rightarrow> nat \<Rightarrow> (frame_allocator \<times> nat option) outcome" where
  "allocate_loop 0 a frame = Ret (a, None)"
| "allocate_loop (Suc n) a frame =
     (let frame = (if frame \<ge> available_end a then available_start a else frame) in
      bindO (is_reserved a frame) (\<lambda>r.
      bindO (if r then Ret True else is_allocated a frame) (\<lambda>busy.
        if \<not> busy then
          bindO (set_allocated a frame) (\<lambda>a1.
          bindO (case frame_index a1 frame of
                   Some index \<Rightarrow> put_refcount a1 index 1 | None \<Rightarrow> Ret a1) (\<lambda>a2.
            Ret (a2\<lparr>next_frame := frame + 1\<rparr>, Some frame)))
        else allocate_loop n a (frame + 1))))"

definition allocate_frame :: "frame_allocator \<Rightarrow> (frame_allocator \<times> nat option) outcome" where
  "allocate_frame a =
     (if next_frame a \<le> available_end a then
        bindO (total_frames a) (\<lambda>total.
          if total = 0 then Ret (a, None)
          else let frame = next_frame a;
                   frame = (if frame < available_start a \<or> frame \<ge> available_end a
                            then available_start a else frame)
               in allocate_loop total a frame)
      else Panic)"

definition deallocate_frame :: "frame_allocator \<Rightarrow> nat \<Rightarrow> frame_allocator outcome" where
  "deallocate_frame a frame =
     bindO (is_reserved a frame) (\<lambda>r.
       if r then Ret a
       else bindO (is_allocated a frame) (\<lambda>al.
         if \<not> al then Panic
         else bindO (case frame_index a frame of
                       Some index \<Rightarrow> put_refcount a index 0 | None \<Rightarrow> Ret a) (\<lambda>a1.
              bindO (clear_allocated a1 frame) (\<lambda>a2.
                Ret (if frame < next_frame a2 then a2\<lparr>next_frame := frame\<rparr> else a2)))))"

definition frame_to_addr :: "nat \<Rightarrow> nat outcome" where
  "frame_to_addr frame = (if frame * FRAME_SIZE \<le> usize_max then Ret (frame * FRAME_SIZE) else Panic)"

definition addr_to_frame :: "nat \<Rightarrow> nat" where
  "addr_to_frame addr = addr div FRAME_SIZE"

definition inc_refcount :: "frame_allocator \<Rightarrow> nat \<Rightarrow> (frame_allocator \<times> u16 option) outcome" where
  "inc_refcount a frame =
     (case frame_index a frame of
        None \<Rightarrow> Ret (a, None)
      | Some index \<Rightarrow>
          (case refcounts a of
             None \<Rightarrow> Ret (a, None)
           | Some rc \<Rightarrow>
               bindO (arr_get rc index) (\<lambda>c.
                 let c' = (if c > 0 \<and> c < MAX_REFCOUNT then c + 1 else c)
                 in Ret (a\<lparr>refcounts := Some (rc[index := c'])\<rparr>, Some c'))))"

definition dec_refcount :: "frame_allocator \<Rightarrow> nat \<Rightarrow> (frame_allocator \<times> u16 option) outcome" where
  "dec_refcount a frame =
     (case frame_index a frame of
        None \<Rightarrow> Ret (a, None)
      | Some index \<Rightarrow>
          (case refcounts a of
             None \<Rightarrow> Ret (a, None)
           | Some rc \<Rightarrow>
               bindO (arr_get rc index) (\<lambda>c.
                 if c > 0 then
                   let c' = c - 1; a1 = a\<lparr>refcounts := Some (rc[index := c'])\<rparr> in
                   if c' = 0 then
                     bindO (clear_allocated a1 frame) (\<lambda>a2.
                       Ret (if frame < next_frame a2 then a2\<lparr>next_frame := frame\<rparr> else a2,
                            Some c'))
                   else Ret (a1, Some c')
                 else Ret (a, None))))"

definition get_refcount :: "frame_allocator \<Rightarrow> nat \<Rightarrow> u16 option outcome" where
  "get_refcount a frame =
     (case frame_index a frame of
        None \<Rightarrow> Ret None
      | Some index \<Rightarrow>
          (case refcounts a of
             None \<Rightarrow> Ret None
           | Some rc \<Rightarrow> bindO (arr_get rc index) (\<lambda>c. Ret (Some c))))"

section \<open>Abstraction and invariant\<close>

definition region_frames :: "reserved_region \<Rightarrow> nat set" where
  "region_frames r = {start_frame r..<end_frame r}"

definition fa_regions :: "frame_allocator \<Rightarrow> reserved_region list" where
  "fa_regions a = map the (take (reserved_count a) (reserved_regions a))"

definition fa_reserved :: "frame_allocator \<Rightarrow> nat set" where
  "fa_reserved a = (\<Union>r \<in> set (fa_regions a). region_frames r)"

abbreviation fa_bits :: "frame_allocator \<Rightarrow> nat set" where
  "fa_bits a \<equiv> bitmap_bits (allocation_bitmap a)"

definition fa_allocated :: "frame_allocator \<Rightarrow> nat set" where
  "fa_allocated a = (\<lambda>i. available_start a + i) ` fa_bits a"

text \<open>The table: 32 entries, the first \<open>reserved_count\<close> of them non-empty regions.\<close>

definition fa_table :: "frame_allocator \<Rightarrow> bool" where
  "fa_table a \<longleftrightarrow> length (reserved_regions a) = MAX_RESERVED_REGIONS
     \<and> reserved_count a \<le> MAX_RESERVED_REGIONS
     \<and> (\<forall>i < reserved_count a. \<exists>r. reserved_regions a ! i = Some r \<and> start_frame r < end_frame r)"

text \<open>No two regions of the table overlap or touch.\<close>

definition fa_merged :: "frame_allocator \<Rightarrow> bool" where
  "fa_merged a \<longleftrightarrow> (\<forall>j < reserved_count a. \<forall>i < j.
     region_try_merge (fa_regions a ! i) (fa_regions a ! j) = None)"

definition fa_counts :: "frame_allocator \<Rightarrow> bool" where
  "fa_counts a \<longleftrightarrow> (\<forall>rc. refcounts a = Some rc \<longrightarrow>
       available_end a - available_start a \<le> length rc
         \<and> (\<forall>i < available_end a - available_start a. rc ! i \<noteq> 0 \<longleftrightarrow> i \<in> fa_bits a))"

definition fa_wf :: "frame_allocator \<Rightarrow> bool" where
  "fa_wf a \<longleftrightarrow> available_start a \<le> available_end a \<and> next_frame a \<le> available_end a
     \<and> fa_table a \<and> fa_merged a
     \<and> bitmap_ok (allocation_bitmap a)
     \<and> bm_size (allocation_bitmap a) = available_end a - available_start a
     \<and> fa_counts a"

section \<open>Regions and their union\<close>

lemma fa_regions_length [simp]:
  "fa_table a \<Longrightarrow> length (fa_regions a) = reserved_count a"
  by (simp add: fa_regions_def fa_table_def)

lemma fa_table_nth:
  assumes "fa_table a" "i < reserved_count a"
  shows "i < length (reserved_regions a)"
    and "reserved_regions a ! i = Some (fa_regions a ! i)"
    and "start_frame (fa_regions a ! i) < end_frame (fa_regions a ! i)"
proof -
  show l: "i < length (reserved_regions a)"
    using assms by (simp add: fa_table_def)
  obtain r where "reserved_regions a ! i = Some r" "start_frame r < end_frame r"
    using assms by (auto simp: fa_table_def)
  then show "reserved_regions a ! i = Some (fa_regions a ! i)"
    and "start_frame (fa_regions a ! i) < end_frame (fa_regions a ! i)"
    using assms l by (simp_all add: fa_regions_def)
qed

lemma fa_reserved_iff:
  "fa_table a \<Longrightarrow> f \<in> fa_reserved a \<longleftrightarrow> (\<exists>i < reserved_count a. f \<in> region_frames (fa_regions a ! i))"
  by (fastforce simp: fa_reserved_def in_set_conv_nth)

lemma region_contains_iff: "region_contains r f \<longleftrightarrow> f \<in> region_frames r"
  by (auto simp: region_contains_def region_frames_def)

lemma try_merge_Some:
  assumes "region_try_merge r s = Some m" "start_frame r < end_frame r" "start_frame s < end_frame s"
  shows "region_frames m = region_frames r \<union> region_frames s" "start_frame m < end_frame m"
  using assms
  by (auto simp: region_try_merge_def region_overlaps_def region_frames_def Let_def
      min_def max_def split: if_splits)

lemma try_merge_None:
  assumes "region_try_merge r s = None" "start_frame r < end_frame r" "start_frame s < end_frame s"
  shows "region_frames r \<inter> region_frames s = {}"
  using assms
  by (auto simp: region_try_merge_def region_overlaps_def region_frames_def Let_def split: if_splits)

lemma is_reserved_loop_spec:
  "fa_table a \<Longrightarrow> \<forall>i \<in> set is. i < reserved_count a \<Longrightarrow>
   is_reserved_loop a f is = Ret (\<exists>i \<in> set is. f \<in> region_frames (fa_regions a ! i))"
  by (induction "is") (auto simp: fa_table_nth region_contains_iff)

lemma is_reserved_spec: "fa_table a \<Longrightarrow> is_reserved a f = Ret (f \<in> fa_reserved a)"
  by (auto simp: is_reserved_def is_reserved_loop_spec fa_reserved_iff)

section \<open>Consolidation\<close>

lemma fa_table_split:
  "fa_table a \<Longrightarrow>
   reserved_regions a = map Some (fa_regions a) @ drop (reserved_count a) (reserved_regions a)"
  by (rule nth_equalityI) (auto simp: nth_append fa_table_nth, auto simp: fa_table_def)

lemma fa_table_nonempty: "fa_table a \<Longrightarrow> r \<in> set (fa_regions a) \<Longrightarrow> start_frame r < end_frame r"
  by (auto simp: in_set_conv_nth fa_table_nth)

lemma fa_tableI:
  assumes "reserved_regions a = map Some rs @ R" "reserved_count a = length rs"
    "length rs + length R = MAX_RESERVED_REGIONS" "\<forall>r \<in> set rs. start_frame r < end_frame r"
  shows "fa_table a" "fa_regions a = rs"
proof -
  have "map the (map Some rs) = rs" by (induction rs) auto
  with assms show "fa_regions a = rs" by (simp add: fa_regions_def)
  from assms show "fa_table a" by (auto simp: fa_table_def nth_append)
qed

lemma split_two:
  assumes "i < j" "j < length xs"
  shows "\<exists>A B C. xs = A @ xs ! i # B @ xs ! j # C \<and> i = length A \<and> j = Suc (length A + length B)"
proof (intro exI conjI)
  have "drop (Suc i) xs = take (j - Suc i) (drop (Suc i) xs) @ drop j xs"
    using append_take_drop_id [of "j - Suc i" "drop (Suc i) xs"] assms by simp
  then show "xs = take i xs @ xs ! i # take (j - Suc i) (drop (Suc i) xs) @ xs ! j # drop (Suc j) xs"
    using assms id_take_nth_drop [of i xs] by (simp add: Cons_nth_drop_Suc)
qed (use assms in auto)

lemma shift_down_append:
  "shift_down (P @ y # Q @ R) [length P..<length P + length Q] = Ret (P @ Q @ last (y # Q) # R)"
proof (induction Q arbitrary: P y)
  case Nil
  then show ?case by simp
next
  case (Cons q Q)
  have "shift_down (P @ y # (q # Q) @ R) [length P..<length P + length (q # Q)]
        = shift_down ((P @ [q]) @ q # Q @ R) [length (P @ [q])..<length (P @ [q]) + length Q]"
    by (simp add: upt_conv_Cons nth_append list_update_append del: upt_Suc)
  then show ?case using Cons.IH [of "P @ [q]" q] by simp
qed

text \<open>\<open>a'\<close> covers the frames of \<open>a\<close> with a table that is no longer, and is \<open>a\<close> otherwise.\<close>

definition same_cover :: "frame_allocator \<Rightarrow> frame_allocator \<Rightarrow> bool" where
  "same_cover a a' \<longleftrightarrow> fa_table a' \<and> fa_reserved a' = fa_reserved a \<and> reserved_count a' \<le> reserved_count a
     \<and> (\<exists>arr c. a' = a\<lparr>reserved_regions := arr, reserved_count := c\<rparr>)"

lemma same_cover_refl: "fa_table a \<Longrightarrow> same_cover a a"
  unfolding same_cover_def by (intro conjI exI [of _ "reserved_regions a"] exI [of _ "reserved_count a"]) auto

lemma same_cover_trans: "same_cover a b \<Longrightarrow> same_cover b c \<Longrightarrow> same_cover a c"
  unfolding same_cover_def by fastforce

lemma merge_into_spec:
  assumes t: "fa_table a" and ij: "i < j" "j < reserved_count a"
    and m: "region_try_merge (fa_regions a ! i) (fa_regions a ! j) = Some m"
  shows "\<exists>a'. merge_into a i j m = Ret a' \<and> same_cover a a'"
proof -
  let ?x = "fa_regions a ! i" and ?y = "fa_regions a ! j"
  from split_two [OF ij(1), of "fa_regions a"] ij(2) t
  obtain A B C where rs: "fa_regions a = A @ ?x # B @ ?y # C" and i: "i = length A"
    and j: "j = Suc (length A + length B)" by auto
  define R where "R = drop (reserved_count a) (reserved_regions a)"
  have arr: "reserved_regions a = map Some (A @ ?x # B @ ?y # C) @ R"
    using fa_table_split [OF t] rs by (simp add: R_def)
  have cnt: "reserved_count a = Suc (Suc (length A + length B + length C))"
    using arg_cong [OF rs, of length] t by simp
  have len: "length (reserved_regions a) = MAX_RESERVED_REGIONS" using t by (simp add: fa_table_def)
  have ne: "start_frame ?x < end_frame ?x" "start_frame ?y < end_frame ?y"
    using t ij by (auto intro!: fa_table_nth)
  define arr' where "arr' = map Some (A @ m # B @ C) @ None # R"
  define a' where "a' = a\<lparr>reserved_regions := arr', reserved_count := reserved_count a - 1\<rparr>"
  have shift: "shift_down (map Some (A @ m # B @ ?y # C) @ R) [j..<reserved_count a - 1]
        = Ret (map Some (A @ m # B @ C) @ last (map Some (?y # C)) # R)"
    using shift_down_append [of "map Some (A @ m # B)" "Some ?y" "map Some C" R] cnt j by simp
  have "merge_into a i j m = Ret a'"
    using shift cnt i unfolding merge_into_def arr a'_def arr'_def
    by (simp add: list_update_append nth_append)
  moreover have "\<forall>r \<in> set A \<union> set B \<union> set C. r \<in> set (fa_regions a)"
    by (subst rs) auto
  then have "\<forall>r \<in> set (A @ m # B @ C). start_frame r < end_frame r"
    using try_merge_Some(2) [OF m ne] fa_table_nonempty [OF t] by auto
  then have tab: "fa_table a'" "fa_regions a' = A @ m # B @ C"
    using fa_tableI [of a' "A @ m # B @ C" "None # R"] len cnt unfolding arr
    by (simp_all add: a'_def arr'_def)
  moreover have "fa_reserved a' = fa_reserved a"
    unfolding fa_reserved_def tab(2) using try_merge_Some(1) [OF m ne] by (subst rs) auto
  ultimately show ?thesis
    using tab(1) by (auto simp: same_cover_def a'_def)
qed

lemma consolidate_inner_spec:
  assumes "fa_table a" "\<forall>j \<in> set js. i < j \<and> j < reserved_count a"
  shows "(\<exists>a'. consolidate_inner a i js = Ret (Some a') \<and> same_cover a a')
       \<or> (consolidate_inner a i js = Ret None
          \<and> (\<forall>j \<in> set js. region_try_merge (fa_regions a ! i) (fa_regions a ! j) = None))"
  using assms(2)
proof (induction js)
  case Nil
  then show ?case by simp
next
  case (Cons j js)
  then have "i < j" "j < reserved_count a" by auto
  then show ?case
    using Cons merge_into_spec [OF assms(1) \<open>i < j\<close>] assms(1)
    by (cases "region_try_merge (fa_regions a ! i) (fa_regions a ! j)") (auto simp: fa_table_nth)
qed

lemma consolidate_outer_spec:
  assumes "fa_table a" "\<forall>i \<in> set is. i < reserved_count a"
  shows "(\<exists>a'. consolidate_outer a is = Ret (Some a') \<and> same_cover a a')
       \<or> (consolidate_outer a is = Ret None
          \<and> (\<forall>i \<in> set is. \<forall>j. i < j \<and> j < reserved_count a \<longrightarrow>
               region_try_merge (fa_regions a ! i) (fa_regions a ! j) = None))"
  using assms(2)
proof (induction "is")
  case Nil
  then show ?case by simp
next
  case (Cons i "is")
  from consolidate_inner_spec [OF assms(1), of "[i + 1..<reserved_count a]" i]
  show ?case using Cons by (fastforce simp: Suc_le_eq)
qed

lemma consolidate_reservations_spec:
  "fa_table a \<Longrightarrow> \<exists>a'. consolidate_reservations a = Ret a' \<and> same_cover a a' \<and> fa_merged a'"
proof (induction a rule: consolidate_reservations.induct)
  case (1 a)
  from consolidate_outer_spec [OF 1(2), of "[0..<reserved_count a]"]
  consider a' where "consolidate_outer a [0..<reserved_count a] = Ret (Some a')" "same_cover a a'"
    | "consolidate_outer a [0..<reserved_count a] = Ret None" "fa_merged a"
    by (auto simp: fa_merged_def)
  then show ?case
  proof cases
    case 1
    then have "fa_table a'" by (simp add: same_cover_def)
    with 1 "1.IH" [OF 1(1) refl] show ?thesis
      by (subst consolidate_reservations.simps) (auto intro: same_cover_trans)
  next
    case 2
    then show ?thesis
      using "1.prems" by (subst consolidate_reservations.simps) (auto intro: same_cover_refl)
  qed
qed

section \<open>Reserving\<close>

text \<open>\<open>a'\<close> is \<open>a\<close> with a merged table that covers \<open>F\<close>.\<close>

definition retabled :: "frame_allocator \<Rightarrow> nat set \<Rightarrow> frame_allocator \<Rightarrow> bool" where
  "retabled a F a' \<longleftrightarrow> fa_table a' \<and> fa_merged a' \<and> fa_reserved a' = F
     \<and> (\<exists>arr c. a' = a\<lparr>reserved_regions := arr, reserved_count := c\<rparr>)"

lemma retabled_wf: "fa_wf a \<Longrightarrow> retabled a F a' \<Longrightarrow> fa_wf a'"
  unfolding retabled_def by (elim conjE exE) (simp add: fa_wf_def fa_counts_def)

lemma set_split_nth:
  "i < length xs \<Longrightarrow> set xs = insert (xs ! i) (set (take i xs) \<union> set (drop (Suc i) xs))"
  using arg_cong [OF id_take_nth_drop [of i xs], of set] by simp

lemma replace_region:
  assumes t: "fa_table a" and i: "i < reserved_count a" and r: "start_frame r < end_frame r"
    and m: "region_try_merge (fa_regions a ! i) r = Some m"
  defines "a1 \<equiv> a\<lparr>reserved_regions := (reserved_regions a)[i := Some m]\<rparr>"
  shows "fa_table a1" "fa_reserved a1 = fa_reserved a \<union> region_frames r"
proof -
  let ?rs = "fa_regions a" and ?R = "drop (reserved_count a) (reserved_regions a)"
  have ne: "start_frame (?rs ! i) < end_frame (?rs ! i)" using t i by (rule fa_table_nth)
  note mm = try_merge_Some [OF m ne r]
  have 1: "reserved_regions a1 = map Some (?rs[i := m]) @ ?R"
    using arg_cong [OF fa_table_split [OF t], of "\<lambda>xs. xs[i := Some m]"] i t
    by (simp add: a1_def list_update_append map_update)
  have 2: "\<forall>x \<in> set (?rs[i := m]). start_frame x < end_frame x"
    using mm(2) fa_table_nonempty [OF t] set_update_subset_insert [of ?rs i m] by auto
  have 3: "reserved_count a1 = length (?rs[i := m])"
    "length (?rs[i := m]) + length ?R = MAX_RESERVED_REGIONS"
    using t by (simp_all add: a1_def) (simp add: fa_table_def)
  show "fa_table a1" by (rule fa_tableI [OF 1 3 2])
  have rs: "fa_regions a1 = ?rs[i := m]" by (rule fa_tableI [OF 1 3 2])
  have "set ?rs = insert (?rs ! i) (set (take i ?rs) \<union> set (drop (Suc i) ?rs))"
    using i t by (intro set_split_nth) simp
  moreover have "set (?rs[i := m]) = insert m (set (take i ?rs) \<union> set (drop (Suc i) ?rs))"
    using i t by (simp add: upd_conv_take_nth_drop)
  ultimately show "fa_reserved a1 = fa_reserved a \<union> region_frames r"
    unfolding fa_reserved_def rs using mm(1) by simp blast
qed

lemma reserve_merge_loop_spec:
  assumes t: "fa_table a" and r: "start_frame r < end_frame r" and b: "\<forall>i \<in> set is. i < reserved_count a"
  shows "(\<exists>a'. reserve_merge_loop a r is = Ret (a', True) \<and> retabled a (fa_reserved a \<union> region_frames r) a')
       \<or> (reserve_merge_loop a r is = Ret (a, False)
          \<and> (\<forall>i \<in> set is. region_try_merge (fa_regions a ! i) r = None))"
  using b
proof (induction "is")
  case Nil
  then show ?case by simp
next
  case (Cons i "is")
  then have i: "i < reserved_count a" by simp
  show ?case
  proof (cases "region_try_merge (fa_regions a ! i) r")
    case None
    with Cons i t show ?thesis by (auto simp: fa_table_nth)
  next
    case (Some m)
    let ?a1 = "a\<lparr>reserved_regions := (reserved_regions a)[i := Some m]\<rparr>"
    note a1 = replace_region [OF t i r Some]
    obtain a' where a': "consolidate_reservations ?a1 = Ret a'" "same_cover ?a1 a'" "fa_merged a'"
      using consolidate_reservations_spec [OF a1(1)] by blast
    then have "retabled a (fa_reserved a \<union> region_frames r) a'"
      using a1(2) by (auto simp: retabled_def same_cover_def)
    with a'(1) Some i t show ?thesis by (auto simp: fa_table_nth)
  qed
qed

lemma append_region:
  assumes t: "fa_table a" and g: "fa_merged a" and r: "start_frame r < end_frame r"
    and c: "reserved_count a < MAX_RESERVED_REGIONS"
    and n: "\<forall>i < reserved_count a. region_try_merge (fa_regions a ! i) r = None"
  shows "retabled a (fa_reserved a \<union> region_frames r)
           (a\<lparr>reserved_regions := (reserved_regions a)[reserved_count a := Some r],
              reserved_count := reserved_count a + 1\<rparr>)" (is "retabled a ?F ?a")
proof -
  let ?rs = "fa_regions a" and ?R = "drop (reserved_count a) (reserved_regions a)"
  have l: "length (reserved_regions a) = MAX_RESERVED_REGIONS" using t by (simp add: fa_table_def)
  have "reserved_regions ?a = map Some (?rs @ [r]) @ tl ?R"
    using t c l by (subst fa_table_split [OF t])
      (simp add: list_update_append, cases ?R, auto)
  moreover have "\<forall>x \<in> set (?rs @ [r]). start_frame x < end_frame x"
    using r fa_table_nonempty [OF t] by auto
  ultimately have ta: "fa_table ?a" and rs: "fa_regions ?a = ?rs @ [r]"
    using fa_tableI [of ?a "?rs @ [r]" "tl ?R"] t l c by simp_all
  have "fa_merged ?a"
    using g n t unfolding fa_merged_def rs by (auto simp: nth_append less_Suc_eq)
  with ta show ?thesis
    unfolding retabled_def fa_reserved_def rs by auto
qed

lemma reserve_range_retabled:
  assumes wf: "fa_wf a"
    and room: "s < e \<longrightarrow> reserved_count a < MAX_RESERVED_REGIONS
                \<or> (\<exists>r \<in> set (fa_regions a). region_try_merge r (region_new s e why) \<noteq> None)"
  shows "\<exists>a'. reserve_range a s e why = Ret a' \<and> retabled a (fa_reserved a \<union> {s..<e}) a'"
proof (cases "s < e")
  case False
  with wf show ?thesis
    by (auto simp: reserve_range_def retabled_def fa_wf_def
        intro!: exI [of _ "reserved_regions a"] exI [of _ "reserved_count a"])
next
  case True
  let ?r = "region_new s e why"
  have t: "fa_table a" "fa_merged a" and r: "start_frame ?r < end_frame ?r" "region_frames ?r = {s..<e}"
    using wf True by (auto simp: fa_wf_def region_new_def region_frames_def)
  have l: "length (reserved_regions a) = MAX_RESERVED_REGIONS" using t by (simp add: fa_table_def)
  from reserve_merge_loop_spec [OF t(1) r(1), of "[0..<reserved_count a]"]
  consider a' where "reserve_merge_loop a ?r [0..<reserved_count a] = Ret (a', True)"
      "retabled a (fa_reserved a \<union> {s..<e}) a'"
    | "reserve_merge_loop a ?r [0..<reserved_count a] = Ret (a, False)"
      "\<forall>i < reserved_count a. region_try_merge (fa_regions a ! i) ?r = None"
    using r(2) by auto
  then show ?thesis
  proof cases
    case 1
    with True show ?thesis by (simp add: reserve_range_def)
  next
    case 2
    then have c: "reserved_count a < MAX_RESERVED_REGIONS"
      using room True t(1) by (auto simp: in_set_conv_nth)
    with 2 True l append_region [OF t r(1) c] r(2) show ?thesis
      by (simp add: reserve_range_def)
  qed
qed

section \<open>Allocating\<close>

text \<open>A frame is free when it is neither reserved nor allocated.\<close>

definition fa_free :: "frame_allocator \<Rightarrow> nat set" where
  "fa_free a = {available_start a..<available_end a} - fa_reserved a - fa_allocated a"

lemma fa_allocated_iff:
  "f \<in> fa_allocated a \<longleftrightarrow> available_start a \<le> f \<and> f - available_start a \<in> fa_bits a"
  by (force simp: fa_allocated_def image_iff)

lemma frame_index_in [simp]:
  "available_start a \<le> f \<Longrightarrow> f < available_end a \<Longrightarrow> frame_index a f = Some (f - available_start a)"
  by (simp add: frame_index_def)

lemma is_allocated_spec:
  "fa_wf a \<Longrightarrow> is_allocated a f = Ret (f \<in> fa_allocated a)"
  using bm.elems_bound [of "allocation_bitmap a"]
  by (auto simp: is_allocated_def frame_index_def fa_wf_def bm.mem_spec fa_allocated_iff)

lemma fa_reserved_update [simp]:
  "fa_reserved (a\<lparr>allocation_bitmap := b\<rparr>) = fa_reserved a"
  "fa_reserved (a\<lparr>refcounts := rc\<rparr>) = fa_reserved a"
  "fa_reserved (a\<lparr>next_frame := n\<rparr>) = fa_reserved a"
  by (simp_all add: fa_reserved_def fa_regions_def)

lemma fa_table_update [simp]:
  "fa_table (a\<lparr>allocation_bitmap := b\<rparr>) = fa_table a"
  "fa_table (a\<lparr>refcounts := rc\<rparr>) = fa_table a"
  "fa_table (a\<lparr>next_frame := n\<rparr>) = fa_table a"
  "fa_merged (a\<lparr>allocation_bitmap := b\<rparr>) = fa_merged a"
  "fa_merged (a\<lparr>refcounts := rc\<rparr>) = fa_merged a"
  "fa_merged (a\<lparr>next_frame := n\<rparr>) = fa_merged a"
  by (simp_all add: fa_table_def fa_merged_def fa_regions_def)

text \<open>\<open>a'\<close> has the allocated indices \<open>B\<close> and the reference count \<open>v\<close> at index \<open>i\<close>,
  and the range, the reservations and the other reference counts of \<open>a\<close>.\<close>

definition recounted :: "frame_allocator \<Rightarrow> nat set \<Rightarrow> nat \<Rightarrow> u16 \<Rightarrow> frame_allocator \<Rightarrow> bool" where
  "recounted a B i v a' \<longleftrightarrow>
     available_start a' = available_start a \<and> available_end a' = available_end a
     \<and> reserved_regions a' = reserved_regions a \<and> reserved_count a' = reserved_count a
     \<and> fa_bits a' = B \<and> bitmap_ok (allocation_bitmap a')
     \<and> bm_size (allocation_bitmap a') = bm_size (allocation_bitmap a)
     \<and> refcounts a' = map_option (\<lambda>rc. rc[i := v]) (refcounts a)"

lemma recounted_wf:
  assumes "fa_wf a" "recounted a B i v a'" "next_frame a' \<le> available_end a" "i < bm_size (allocation_bitmap a)"
    "B - {i} = fa_bits a - {i}" "refcounts a \<noteq> None \<longrightarrow> (v \<noteq> 0) = (i \<in> B)"
  shows "fa_wf a'" "fa_reserved a' = fa_reserved a"
proof -
  have t: "fa_regions a' = fa_regions a" using assms(2) by (simp add: recounted_def fa_regions_def)
  then show "fa_reserved a' = fa_reserved a" by (simp add: fa_reserved_def)
  have tab: "fa_table a'" "fa_merged a'"
    using assms(1,2) t by (auto simp: recounted_def fa_wf_def fa_table_def fa_merged_def)
  have B: "k \<noteq> i \<Longrightarrow> k \<in> B \<longleftrightarrow> k \<in> fa_bits a" for k using assms(5) by blast
  have "fa_counts a'"
    unfolding fa_counts_def
  proof (intro allI impI)
    fix rc' assume "refcounts a' = Some rc'"
    then obtain rc where rc: "refcounts a = Some rc" "rc' = rc[i := v]"
      using assms(2) by (cases "refcounts a") (auto simp: recounted_def)
    then have "available_end a - available_start a \<le> length rc"
      "\<forall>k < available_end a - available_start a. (rc ! k \<noteq> 0) = (k \<in> fa_bits a)"
      "i < available_end a - available_start a"
      using assms(1,4) by (auto simp: fa_wf_def fa_counts_def)
    with rc assms(2,6) B show "available_end a' - available_start a' \<le> length rc'
        \<and> (\<forall>k < available_end a' - available_start a'. (rc' ! k \<noteq> 0) = (k \<in> fa_bits a'))"
      by (simp add: recounted_def nth_list_update)
  qed
  with tab show "fa_wf a'"
    using assms(1-3) by (simp add: fa_wf_def recounted_def)
qed

lemma take_frame_spec:
  assumes wf: "fa_wf a" and f: "available_start a \<le> f" "f < available_end a"
  shows "\<exists>a'. bindO (set_allocated a f) (\<lambda>a1.
          bindO (case frame_index a1 f of Some index \<Rightarrow> put_refcount a1 index 1 | None \<Rightarrow> Ret a1) (\<lambda>a2.
            Ret (a2\<lparr>next_frame := f + 1\<rparr>, Some f))) = Ret (a', Some f)
        \<and> next_frame a' = f + 1
        \<and> recounted a (insert (f - available_start a) (fa_bits a)) (f - available_start a) 1 a'"
proof -
  let ?i = "f - available_start a"
  have i: "?i < bm_size (allocation_bitmap a)" using wf f by (simp add: fa_wf_def)
  obtain b' where b': "bitmap_set (allocation_bitmap a) ?i = Ret b'" "bitmap_ok b'"
      "bm_size b' = bm_size (allocation_bitmap a)" "bitmap_bits b' = insert ?i (fa_bits a)"
    using bm.ins_spec [OF _ i] wf by (auto simp: fa_wf_def)
  have rc: "\<forall>rc. refcounts a = Some rc \<longrightarrow> ?i < length rc"
    using wf f by (auto simp: fa_wf_def fa_counts_def)
  with b' f show ?thesis
    by (cases "refcounts a") (auto simp: set_allocated_def frame_index_def put_refcount_def recounted_def)
qed

text \<open>The frame visited at step \<open>k\<close> of the search that starts at \<open>frame\<close>.\<close>

definition visit :: "frame_allocator \<Rightarrow> nat \<Rightarrow> nat \<Rightarrow> nat" where
  "visit a frame k =
     available_start a + (frame - available_start a + k) mod (available_end a - available_start a)"

lemma visit_in: "available_start a < available_end a \<Longrightarrow>
    available_start a \<le> visit a frame k \<and> visit a frame k < available_end a"
  using mod_less_divisor [of "available_end a - available_start a" "frame - available_start a + k"]
  unfolding visit_def by linarith

lemma visit_0:
  "available_start a < available_end a \<Longrightarrow> available_start a \<le> frame \<Longrightarrow> frame \<le> available_end a \<Longrightarrow>
   visit a frame 0 = (if frame \<ge> available_end a then available_start a else frame)"
  by (auto simp: visit_def)

lemma visit_Suc:
  assumes "available_start a < available_end a" "available_start a \<le> frame" "frame \<le> available_end a"
  shows "visit a (visit a frame 0 + 1) k = visit a frame (Suc k)"
proof (cases "frame = available_end a")
  case True
  let ?n = "available_end a - available_start a"
  have "Suc (?n + k) mod ?n = Suc k mod ?n"
    using mod_add_self1 [of ?n "Suc k"] by (simp only: add_Suc_right)
  with True assms show ?thesis by (simp add: visit_def)
next
  case False
  with assms show ?thesis by (simp add: visit_def Suc_diff_le)
qed

lemma visit_covers:
  assumes "available_start a \<le> f" "f < available_end a"
  shows "\<exists>k < available_end a - available_start a. visit a frame k = f"
proof -
  define n where "n = available_end a - available_start a"
  define p where "p = (frame - available_start a) mod n"
  define i where "i = f - available_start a"
  have i: "i < n" "p < n" using assms by (auto simp: i_def n_def p_def)
  define k where "k = (if p \<le> i then i - p else i + n - p)"
  have "k < n" using i by (auto simp: k_def)
  moreover have "(frame - available_start a + k) mod n = (p + k) mod n"
    by (simp add: p_def mod_add_left_eq)
  then have "(frame - available_start a + k) mod n = i"
    using i by (auto simp: k_def)
  ultimately show ?thesis
    using assms by (intro exI [of _ k]) (auto simp: visit_def n_def i_def)
qed

lemma allocate_loop_spec:
  assumes wf: "fa_wf a" and ne: "available_start a < available_end a"
  shows "available_start a \<le> frame \<Longrightarrow> frame \<le> available_end a \<Longrightarrow>
    (\<exists>k < n. \<exists>a'. allocate_loop n a frame = Ret (a', Some (visit a frame k))
        \<and> visit a frame k \<in> fa_free a \<and> next_frame a' = visit a frame k + 1
        \<and> recounted a (insert (visit a frame k - available_start a) (fa_bits a))
             (visit a frame k - available_start a) 1 a')
    \<or> (allocate_loop n a frame = Ret (a, None) \<and> (\<forall>k < n. visit a frame k \<notin> fa_free a))"
proof (induction n arbitrary: frame)
  case 0
  then show ?case by simp
next
  case (Suc n)
  let ?f = "visit a frame 0"
  note v0 = visit_0 [OF ne Suc.prems] and vs = visit_Suc [OF ne Suc.prems]
  have f: "available_start a \<le> ?f" "?f < available_end a" using visit_in [OF ne] by auto
  have t: "fa_table a" using wf by (simp add: fa_wf_def)
  show ?case
  proof (cases "?f \<in> fa_free a")
    case True
    then have busy: "?f \<notin> fa_reserved a" "?f \<notin> fa_allocated a" by (auto simp: fa_free_def)
    from take_frame_spec [OF wf f] busy have
      "\<exists>a'. allocate_loop (Suc n) a frame = Ret (a', Some ?f) \<and> next_frame a' = ?f + 1
         \<and> recounted a (insert (?f - available_start a) (fa_bits a)) (?f - available_start a) 1 a'"
      by (simp add: v0 [symmetric] Let_def is_reserved_spec [OF t] is_allocated_spec [OF wf])
    with True show ?thesis by (intro disjI1 exI [of _ 0]) auto
  next
    case False
    then have busy: "?f \<in> fa_reserved a \<or> ?f \<in> fa_allocated a" using f by (auto simp: fa_free_def)
    then have step: "allocate_loop (Suc n) a frame = allocate_loop n a (?f + 1)"
      by (auto simp: v0 [symmetric] Let_def is_reserved_spec [OF t] is_allocated_spec [OF wf])
    have all: "(\<forall>k < Suc n. visit a frame k \<notin> fa_free a) \<longleftrightarrow> (\<forall>k < n. visit a frame (Suc k) \<notin> fa_free a)"
      using False by (auto simp: All_less_Suc2)
    show ?thesis
      using Suc.IH [of "?f + 1"] f unfolding step all vs by fastforce
  qed
qed

lemma allocate_frame_spec:
  assumes wf: "fa_wf a"
  shows "(\<exists>f a'. allocate_frame a = Ret (a', Some f) \<and> f \<in> fa_free a \<and> next_frame a' = f + 1
            \<and> recounted a (insert (f - available_start a) (fa_bits a)) (f - available_start a) 1 a')
         \<or> (allocate_frame a = Ret (a, None) \<and> fa_free a = {})"
proof (cases "available_start a < available_end a")
  case False
  with wf show ?thesis by (auto simp: allocate_frame_def fa_wf_def total_frames_def fa_free_def)
next
  case True
  define fr where "fr = (if next_frame a < available_start a \<or> next_frame a \<ge> available_end a
                         then available_start a else next_frame a)"
  have fr: "available_start a \<le> fr" "fr \<le> available_end a" using True by (auto simp: fr_def)
  have eq: "allocate_frame a = allocate_loop (available_end a - available_start a) a fr"
    using wf True by (simp add: allocate_frame_def fa_wf_def total_frames_def fr_def Let_def)
  have "(\<forall>k < available_end a - available_start a. visit a fr k \<notin> fa_free a) \<Longrightarrow> fa_free a = {}"
    using visit_covers [of a _ fr] by (fastforce simp: fa_free_def)
  with allocate_loop_spec [OF wf True fr, of "available_end a - available_start a"]
  show ?thesis unfolding eq by blast
qed

section \<open>Freeing and reference counts\<close>

lemma recounted_allocated:
  "recounted a B i v a' \<Longrightarrow> fa_allocated a' = (\<lambda>i. available_start a + i) ` B"
  by (simp add: recounted_def fa_allocated_def)

lemma allocated_range: "fa_wf a \<Longrightarrow> f \<in> fa_allocated a \<Longrightarrow> available_start a \<le> f \<and> f < available_end a"
  using bm.elems_bound [of "allocation_bitmap a"] by (auto simp: fa_wf_def fa_allocated_def)

lemma allocated_remove:
  "f \<in> fa_allocated a \<Longrightarrow>
   (\<lambda>i. available_start a + i) ` (fa_bits a - {f - available_start a}) = fa_allocated a - {f}"
  by (auto simp: fa_allocated_def)

lemma clear_allocated_spec:
  assumes wf: "fa_wf a" and f: "available_start a \<le> f" "f < available_end a"
    and a1: "a1 = a\<lparr>refcounts := rc\<rparr>" and rc: "rc = map_option (\<lambda>r. r[f - available_start a := 0]) (refcounts a)"
  shows "\<exists>b'. clear_allocated a1 f = Ret (a1\<lparr>allocation_bitmap := b'\<rparr>)
     \<and> recounted a (fa_bits a - {f - available_start a}) (f - available_start a) 0
         (a1\<lparr>allocation_bitmap := b'\<rparr>)"
proof -
  let ?i = "f - available_start a"
  have i: "?i < bm_size (allocation_bitmap a)" using wf f by (simp add: fa_wf_def)
  obtain b' where "bitmap_clear (allocation_bitmap a) ?i = Ret b'" "bitmap_ok b'"
      "bm_size b' = bm_size (allocation_bitmap a)" "bitmap_bits b' = fa_bits a - {?i}"
    using bm.del_spec [OF _ i] wf by (auto simp: fa_wf_def)
  with f a1 rc show ?thesis
    by (intro exI [of _ b']) (simp add: clear_allocated_def frame_index_def recounted_def)
qed

text \<open>The state after the last reference to \<open>f\<close> is gone.\<close>

definition fa_freed :: "frame_allocator \<Rightarrow> nat \<Rightarrow> frame_allocator \<Rightarrow> bool" where
  "fa_freed a f a' \<longleftrightarrow> fa_wf a' \<and> fa_reserved a' = fa_reserved a
     \<and> available_start a' = available_start a \<and> available_end a' = available_end a
     \<and> fa_allocated a' = fa_allocated a - {f} \<and> next_frame a' = min f (next_frame a)
     \<and> refcounts a' = map_option (\<lambda>rc. rc[f - available_start a := 0]) (refcounts a)"

lemma freedI:
  assumes wf: "fa_wf a" and f: "f \<in> fa_allocated a"
    and r: "recounted a (fa_bits a - {f - available_start a}) (f - available_start a) 0 a'"
    and n: "next_frame a' = next_frame a"
  shows "fa_freed a f (if f < next_frame a' then a'\<lparr>next_frame := f\<rparr> else a')"
proof -
  let ?i = "f - available_start a"
  let ?a = "if f < next_frame a' then a'\<lparr>next_frame := f\<rparr> else a'"
  have r': "recounted a (fa_bits a - {?i}) ?i 0 ?a" using r by (simp add: recounted_def)
  have nx: "next_frame ?a = min f (next_frame a)" using n by auto
  have "?i < bm_size (allocation_bitmap a)" "next_frame ?a \<le> available_end a"
    using allocated_range [OF wf f] wf nx by (auto simp: fa_wf_def)
  then have "fa_wf ?a" "fa_reserved ?a = fa_reserved a"
    using recounted_wf [OF wf r'] by auto
  with nx r' show ?thesis
    using recounted_allocated [OF r'] allocated_remove [OF f] unfolding fa_freed_def
    by (simp add: recounted_def split del: if_split)
qed

lemma deallocate_frame_freed:
  assumes wf: "fa_wf a" and f: "f \<in> fa_allocated a" "f \<notin> fa_reserved a"
  shows "\<exists>a'. deallocate_frame a f = Ret a' \<and> fa_freed a f a'"
proof -
  let ?i = "f - available_start a"
  note fr = allocated_range [OF wf f(1)]
  define a1 where "a1 = a\<lparr>refcounts := map_option (\<lambda>rc. rc[?i := 0]) (refcounts a)\<rparr>"
  have "\<forall>rc. refcounts a = Some rc \<longrightarrow> ?i < length rc"
    using wf fr by (auto simp: fa_wf_def fa_counts_def)
  then have p: "put_refcount a ?i 0 = Ret a1"
    by (cases "refcounts a") (auto simp: put_refcount_def a1_def)
  obtain b' where b': "clear_allocated a1 f = Ret (a1\<lparr>allocation_bitmap := b'\<rparr>)"
      "recounted a (fa_bits a - {?i}) ?i 0 (a1\<lparr>allocation_bitmap := b'\<rparr>)"
    using clear_allocated_spec [OF wf conjunct1 [OF fr] conjunct2 [OF fr] a1_def refl] by blast
  have "deallocate_frame a f = Ret (if f < next_frame (a1\<lparr>allocation_bitmap := b'\<rparr>)
      then (a1\<lparr>allocation_bitmap := b'\<rparr>)\<lparr>next_frame := f\<rparr> else a1\<lparr>allocation_bitmap := b'\<rparr>)"
    using wf f fr p b'(1)
    by (simp add: deallocate_frame_def is_reserved_spec fa_wf_def is_allocated_spec [OF wf])
  with freedI [OF wf f(1) b'(2)] show ?thesis by (auto simp: a1_def)
qed

lemma deallocate_frame_cases:
  assumes wf: "fa_wf a"
  shows "if f \<in> fa_reserved a then deallocate_frame a f = Ret a
         else if f \<notin> fa_allocated a then deallocate_frame a f = Panic
         else \<exists>a'. deallocate_frame a f = Ret a' \<and> fa_freed a f a'"
proof -
  have "is_reserved a f = Ret (f \<in> fa_reserved a)" using wf by (simp add: fa_wf_def is_reserved_spec)
  then show ?thesis
    using deallocate_frame_freed [OF wf, of f] is_allocated_spec [OF wf, of f]
    by (cases "f \<in> fa_reserved a"; cases "f \<in> fa_allocated a") (simp_all add: deallocate_frame_def)
qed

lemma dec_refcount_last:
  assumes wf: "fa_wf a" and rc: "refcounts a = Some rc" and f: "f \<in> fa_allocated a"
    and one: "rc ! (f - available_start a) = 1"
  shows "\<exists>a'. dec_refcount a f = Ret (a', Some 0) \<and> fa_freed a f a'"
proof -
  let ?i = "f - available_start a"
  note fr = allocated_range [OF wf f(1)]
  define a1 where "a1 = a\<lparr>refcounts := Some (rc[?i := 0])\<rparr>"
  have l: "?i < length rc" using wf fr rc by (auto simp: fa_wf_def fa_counts_def)
  obtain b' where b': "clear_allocated a1 f = Ret (a1\<lparr>allocation_bitmap := b'\<rparr>)"
      "recounted a (fa_bits a - {?i}) ?i 0 (a1\<lparr>allocation_bitmap := b'\<rparr>)"
    using clear_allocated_spec [OF wf conjunct1 [OF fr] conjunct2 [OF fr] a1_def] rc by auto
  have "dec_refcount a f = Ret (if f < next_frame (a1\<lparr>allocation_bitmap := b'\<rparr>)
      then (a1\<lparr>allocation_bitmap := b'\<rparr>)\<lparr>next_frame := f\<rparr> else a1\<lparr>allocation_bitmap := b'\<rparr>, Some 0)"
    using fr l rc one b'(1) by (simp add: dec_refcount_def Let_def a1_def)
  with freedI [OF wf f(1) b'(2)] show ?thesis by (auto simp: a1_def)
qed

lemma refcount_nonzero:
  assumes "fa_wf a" "refcounts a = Some rc" "available_start a \<le> f" "f < available_end a"
  shows "f - available_start a < length rc"
    and "(rc ! (f - available_start a) \<noteq> 0) = (f \<in> fa_allocated a)"
proof -
  have "f - available_start a < available_end a - available_start a" using assms by auto
  then show "f - available_start a < length rc"
    and "(rc ! (f - available_start a) \<noteq> 0) = (f \<in> fa_allocated a)"
    using assms by (auto simp: fa_wf_def fa_counts_def fa_allocated_iff)
qed

text \<open>A reference count that stays positive: only the count changes.\<close>

lemma recount_only_wf:
  assumes wf: "fa_wf a" and rc: "refcounts a = Some rc" and f: "f \<in> fa_allocated a" and v: "v \<noteq> 0"
  defines "a' \<equiv> a\<lparr>refcounts := Some (rc[f - available_start a := v])\<rparr>"
  shows "fa_wf a'" "fa_allocated a' = fa_allocated a" "fa_reserved a' = fa_reserved a"
proof -
  let ?i = "f - available_start a"
  have r: "recounted a (fa_bits a) ?i v a'"
    using wf rc by (simp add: recounted_def a'_def fa_wf_def)
  have "?i \<in> fa_bits a" using f by (simp add: fa_allocated_iff)
  moreover have "?i < bm_size (allocation_bitmap a)"
    using allocated_range [OF wf f] wf by (auto simp: fa_wf_def)
  moreover have "next_frame a' \<le> available_end a" using wf by (simp add: a'_def fa_wf_def)
  ultimately show "fa_wf a'" "fa_reserved a' = fa_reserved a"
    using recounted_wf [OF wf r] v by auto
  show "fa_allocated a' = fa_allocated a" by (simp add: fa_allocated_def a'_def)
qed

section \<open>Counting\<close>

lemma fa_regions_filter:
  "fa_table a \<Longrightarrow> reserved_regions_list a = Ret (fa_regions a)"
proof -
  assume t: "fa_table a"
  then have l: "reserved_count a \<le> length (reserved_regions a)" by (simp add: fa_table_def)
  have "take (reserved_count a) (reserved_regions a) = map Some (fa_regions a)"
    using arg_cong [OF fa_table_split [OF t], of "take (reserved_count a)"] t by simp
  moreover have "List.map_filter id (map Some rs) = rs" for rs :: "reserved_region list"
    by (induction rs) (auto simp: List.map_filter_simps)
  ultimately show ?thesis using l by (simp add: reserved_regions_list_def)
qed

lemma sum_lengths_card:
  assumes "\<forall>r \<in> set rs. start_frame r < end_frame r"
    "\<forall>j < length rs. \<forall>i < j. region_try_merge (rs ! i) (rs ! j) = None"
  shows "sum_lengths rs = Ret (card (\<Union>r \<in> set rs. region_frames r))"
  using assms
proof (induction rs)
  case Nil
  then show ?case by simp
next
  case (Cons r rs)
  have d: "region_frames r \<inter> (\<Union>s \<in> set rs. region_frames s) = {}"
  proof -
    have "region_frames r \<inter> region_frames s = {}" if s: "s \<in> set rs" for s
    proof -
      from s obtain k where k: "k < length rs" "s = rs ! k" by (auto simp: in_set_conv_nth)
      then have "region_try_merge r s = None" using Cons.prems(2) [rule_format, of "Suc k" 0] by simp
      then show ?thesis using try_merge_None Cons.prems(1) s by simp
    qed
    then show ?thesis by auto
  qed
  have "\<forall>j < length rs. \<forall>i < j. region_try_merge (rs ! i) (rs ! j) = None"
    using Cons.prems(2) by (metis Suc_less_eq length_Cons nth_Cons_Suc)
  then have "sum_lengths rs = Ret (card (\<Union>r \<in> set rs. region_frames r))"
    using Cons by simp
  moreover have "finite (\<Union>r \<in> set rs. region_frames r)" "finite (region_frames r)"
    "card (region_frames r) = end_frame r - start_frame r"
    by (simp_all add: region_frames_def)
  ultimately show ?case
    using card_Un_disjoint [OF _ _ d] Cons.prems(1) by simp
qed

lemma reserved_frames_card: "fa_wf a \<Longrightarrow> reserved_frames a = Ret (card (fa_reserved a))"
  using sum_lengths_card [of "fa_regions a"] fa_table_nonempty [of a]
  by (simp add: reserved_frames_def fa_regions_filter fa_wf_def fa_reserved_def fa_merged_def)

lemma allocated_frames_card: "fa_wf a \<Longrightarrow> allocated_frames a = Ret (card (fa_allocated a))"
  by (simp add: allocated_frames_def fa_wf_def bitmap_count_set_spec fa_allocated_def card_image)

section \<open>Runs of the allocator\<close>

datatype fa_op =
  FA_reserve nat nat reservation_reason | FA_allocate | FA_deallocate nat | FA_inc nat | FA_dec nat

definition fa_exec :: "fa_op \<Rightarrow> frame_allocator \<Rightarrow> frame_allocator outcome" where
  "fa_exec op a = (case op of
     FA_reserve s e why \<Rightarrow> reserve_range a s e why
   | FA_allocate \<Rightarrow> bindO (allocate_frame a) (\<lambda>(a', r). Ret a')
   | FA_deallocate f \<Rightarrow> deallocate_frame a f
   | FA_inc f \<Rightarrow> bindO (inc_refcount a f) (\<lambda>(a', r). Ret a')
   | FA_dec f \<Rightarrow> bindO (dec_refcount a f) (\<lambda>(a', r). Ret a'))"

fun fa_run :: "fa_op list \<Rightarrow> frame_allocator \<Rightarrow> frame_allocator outcome" where
  "fa_run [] a = Ret a"
| "fa_run (op # ops) a = bindO (fa_exec op a) (fa_run ops)"

lemma allocate_frame_wf:
  assumes wf: "fa_wf a" and "allocate_frame a = Ret (a', Some f)"
  shows "fa_wf a'" "fa_reserved a' = fa_reserved a" "fa_allocated a' = insert f (fa_allocated a)"
    "f \<in> fa_free a" "refcounts a' = map_option (\<lambda>rc. rc[f - available_start a := 1]) (refcounts a)"
    "available_start a' = available_start a" "available_end a' = available_end a"
proof -
  let ?i = "f - available_start a"
  from allocate_frame_spec [OF wf] assms(2) have free: "f \<in> fa_free a" "next_frame a' = f + 1"
    and r: "recounted a (insert ?i (fa_bits a)) ?i 1 a'" by auto
  then have "next_frame a' \<le> available_end a" "?i < bm_size (allocation_bitmap a)"
    using wf by (auto simp: fa_free_def fa_wf_def)
  then show "fa_wf a'" "fa_reserved a' = fa_reserved a"
    using recounted_wf [OF wf r] by auto
  show "fa_allocated a' = insert f (fa_allocated a)"
    using recounted_allocated [OF r] free(1) by (auto simp: fa_allocated_def fa_free_def)
  show "f \<in> fa_free a" "refcounts a' = map_option (\<lambda>rc. rc[?i := 1]) (refcounts a)"
    "available_start a' = available_start a" "available_end a' = available_end a"
    using free r by (auto simp: recounted_def)
qed

lemma inc_refcount_spec:
  assumes wf: "fa_wf a" and inc: "inc_refcount a f = Ret (a', r)"
  shows "fa_wf a' \<and> fa_allocated a' = fa_allocated a \<and> fa_reserved a' = fa_reserved a"
proof (cases "refcounts a = None \<or> f < available_start a \<or> available_end a \<le> f")
  case True
  with inc wf show ?thesis by (auto simp: inc_refcount_def frame_index_def split: option.splits if_splits)
next
  case False
  then obtain rc where rc: "refcounts a = Some rc" and f: "available_start a \<le> f" "f < available_end a" by auto
  let ?i = "f - available_start a"
  note c = refcount_nonzero [OF wf rc f]
  define v where "v = (if rc ! ?i > 0 \<and> rc ! ?i < MAX_REFCOUNT then rc ! ?i + 1 else rc ! ?i)"
  have a': "a' = a\<lparr>refcounts := Some (rc[?i := v])\<rparr>"
    using inc rc f c by (auto simp: inc_refcount_def Let_def v_def)
  show ?thesis
  proof (cases "f \<in> fa_allocated a")
    case True
    then have "rc ! ?i \<noteq> 0" using c by simp
    moreover have "rc ! ?i + 1 \<noteq> 0" if "rc ! ?i < MAX_REFCOUNT"
      using that by (rule word_inc_nonzero)
    ultimately have "v \<noteq> 0" by (auto simp: v_def)
    from recount_only_wf [OF wf rc True this] show ?thesis by (simp add: a')
  next
    case False
    then have "rc[?i := v] = rc" using c by (simp add: v_def list_update_same_conv)
    then have "a' = a" using rc by (cases a) (simp add: a')
    with wf show ?thesis by simp
  qed
qed

lemma dec_refcount_cases:
  assumes wf: "fa_wf a"
  shows "(f \<notin> fa_allocated a \<or> refcounts a = None) \<and> dec_refcount a f = Ret (a, None)
       \<or> (\<exists>rc a'. refcounts a = Some rc \<and> f \<in> fa_allocated a \<and> rc ! (f - available_start a) = 1
            \<and> dec_refcount a f = Ret (a', Some 0) \<and> fa_freed a f a')
       \<or> (\<exists>rc. refcounts a = Some rc \<and> f \<in> fa_allocated a \<and> rc ! (f - available_start a) > 1
            \<and> dec_refcount a f = Ret
                (a\<lparr>refcounts := Some (rc[f - available_start a := rc ! (f - available_start a) - 1])\<rparr>,
                 Some (rc ! (f - available_start a) - 1)))"
proof (cases "refcounts a = None \<or> f < available_start a \<or> available_end a \<le> f")
  case True
  then have "f \<notin> fa_allocated a \<or> refcounts a = None"
    using allocated_range [OF wf, of f] by auto
  moreover have "dec_refcount a f = Ret (a, None)"
    using True by (auto simp: dec_refcount_def frame_index_def split: option.splits)
  ultimately show ?thesis by blast
next
  case False
  then obtain rc where rc: "refcounts a = Some rc" and f: "available_start a \<le> f" "f < available_end a" by auto
  let ?i = "f - available_start a"
  note c = refcount_nonzero [OF wf rc f]
  consider "rc ! ?i = 0" | "rc ! ?i = 1" | "rc ! ?i > 1"
    by (metis linorder_less_linear word_less_1 word_neq_0_conv)
  then show ?thesis
  proof cases
    case 1
    with c rc f show ?thesis by (simp add: dec_refcount_def)
  next
    case 2
    with c have "f \<in> fa_allocated a" by simp
    with dec_refcount_last [OF wf rc this 2] 2 rc show ?thesis by blast
  next
    case 3
    then have "rc ! ?i \<noteq> 0" "rc ! ?i - 1 \<noteq> 0" by auto
    with 3 c rc f show ?thesis by (simp add: dec_refcount_def Let_def word_gt_0)
  qed
qed

lemma reserve_merge_loop_none:
  "fa_table a \<Longrightarrow> \<forall>i \<in> set is. i < reserved_count a \<and> region_try_merge (fa_regions a ! i) r = None \<Longrightarrow>
   reserve_merge_loop a r is = Ret (a, False)"
  by (induction "is") (auto simp: fa_table_nth)

text \<open>The table has room for \<open>s..e\<close>: the range is empty, there is a free entry, or the range
  touches a region that is already there.\<close>

definition fa_room :: "frame_allocator \<Rightarrow> nat \<Rightarrow> nat \<Rightarrow> bool" where
  "fa_room a s e \<longleftrightarrow> (s < e \<longrightarrow> reserved_count a < MAX_RESERVED_REGIONS
     \<or> (\<exists>r \<in> set (fa_regions a). region_try_merge r (region_new s e KernelImage) \<noteq> None))"

lemma try_merge_reason:
  "region_try_merge r (region_new s e why) = region_try_merge r (region_new s e KernelImage)"
  by (simp add: region_try_merge_def region_new_def region_overlaps_def)

lemma reserve_range_cases:
  assumes wf: "fa_wf a"
  shows "if fa_room a s e
         then \<exists>a'. reserve_range a s e why = Ret a' \<and> retabled a (fa_reserved a \<union> {s..<e}) a'
         else reserve_range a s e why = Panic"
proof (cases "fa_room a s e")
  case True
  with reserve_range_retabled [OF wf, of s e why] show ?thesis
    by (simp add: fa_room_def try_merge_reason [of _ s e why])
next
  case False
  have t: "fa_table a" using wf by (simp add: fa_wf_def)
  have "\<forall>i \<in> set [0..<reserved_count a]. i < reserved_count a
        \<and> region_try_merge (fa_regions a ! i) (region_new s e why) = None"
    using False t by (auto simp: fa_room_def try_merge_reason [of _ s e why])
  from reserve_merge_loop_none [OF t this] False show ?thesis
    by (auto simp: fa_room_def reserve_range_def Let_def)
qed

lemma fa_exec_wf:
  assumes wf: "fa_wf a" and ex: "fa_exec op a = Ret a'"
  shows "fa_wf a'"
proof (cases op)
  case (FA_reserve s e why)
  with ex reserve_range_cases [OF wf, of s e why] retabled_wf [OF wf] show ?thesis
    by (auto simp: fa_exec_def split: if_splits)
next
  case FA_allocate
  then obtain r where r: "allocate_frame a = Ret (a', r)" using ex by (auto simp: fa_exec_def)
  show ?thesis
  proof (cases r)
    case None
    with r allocate_frame_spec [OF wf] wf show ?thesis by auto
  next
    case (Some f)
    with r allocate_frame_wf [OF wf] show ?thesis by blast
  qed
next
  case (FA_deallocate f)
  with ex wf deallocate_frame_cases [OF wf, of f] show ?thesis
    by (auto simp: fa_exec_def fa_freed_def split: if_splits)
next
  case (FA_inc f)
  with ex inc_refcount_spec [OF wf] show ?thesis by (auto simp: fa_exec_def)
next
  case (FA_dec f)
  from dec_refcount_cases [OF wf, of f] show ?thesis
  proof (elim disjE exE conjE)
    fix rc assume rc: "refcounts a = Some rc" "f \<in> fa_allocated a" "1 < rc ! (f - available_start a)"
      "dec_refcount a f = Ret (a\<lparr>refcounts := Some (rc[f - available_start a := rc ! (f - available_start a) - 1])\<rparr>,
         Some (rc ! (f - available_start a) - 1))"
    then have "rc ! (f - available_start a) - 1 \<noteq> 0" by auto
    from recount_only_wf(1) [OF wf rc(1,2) this] rc(4) ex FA_dec show ?thesis
      by (simp add: fa_exec_def)
  qed (use FA_dec ex wf in \<open>auto simp: fa_exec_def fa_freed_def\<close>)
qed

lemma fa_run_wf: "fa_wf a \<Longrightarrow> fa_run ops a = Ret a' \<Longrightarrow> fa_wf a'"
  by (induction ops arbitrary: a) (auto dest: fa_exec_wf)

lemma fa_new_wf:
  assumes "s \<le> e" "(e - s + 7) div 8 \<le> length storage"
  shows "\<exists>a. fa_new s e storage = Ret a \<and> fa_wf a \<and> fa_reserved a = {} \<and> fa_allocated a = {}
     \<and> available_start a = s \<and> available_end a = e \<and> refcounts a = None"
  using bitmap_new_spec [OF assms(2)] assms(1)
  by (auto simp: fa_new_def Let_def fa_wf_def fa_table_def fa_merged_def fa_counts_def fa_reserved_def
      fa_regions_def fa_allocated_def)

lemma set_refcount_storage_wf:
  assumes wf: "fa_wf a" and "fa_allocated a = {}" "available_end a - available_start a \<le> length storage"
  shows "\<exists>a'. set_refcount_storage a storage = Ret a' \<and> fa_wf a' \<and> fa_reserved a' = fa_reserved a
     \<and> fa_allocated a' = {} \<and> available_start a' = available_start a \<and> available_end a' = available_end a"
  using assms by (auto simp: set_refcount_storage_def total_frames_def fa_wf_def fa_counts_def
      fa_allocated_def nth_append)

section \<open>Dropping references\<close>

text \<open>\<open>k\<close> calls of \<open>dec_refcount\<close> on one frame, as \<open>k\<close> owners of a shared frame make them.\<close>

fun dec_refcounts :: "nat \<Rightarrow> nat \<Rightarrow> frame_allocator \<Rightarrow> frame_allocator outcome" where
  "dec_refcounts 0 f a = Ret a"
| "dec_refcounts (Suc k) f a = bindO (dec_refcount a f) (\<lambda>(a', r). dec_refcounts k f a')"

lemma unat_dec: "1 < (c :: u16) \<Longrightarrow> unat (c - 1) = unat c - 1"
  by unat_arith

lemma dec_refcounts_spec:
  assumes "fa_wf a" "f \<in> fa_allocated a" "refcounts a = Some rc"
    "0 < k" "k \<le> unat (rc ! (f - available_start a))"
  shows "\<exists>a'. dec_refcounts k f a = Ret a' \<and> fa_wf a' \<and> fa_reserved a' = fa_reserved a
     \<and> fa_allocated a' = (if k = unat (rc ! (f - available_start a)) then fa_allocated a - {f} else fa_allocated a)"
  using assms
proof (induction k arbitrary: a rc)
  case 0
  then show ?case by simp
next
  case (Suc k)
  let ?i = "f - available_start a" and ?c = "rc ! (f - available_start a)"
  note wf = Suc.prems(1) and f = Suc.prems(2) and rc = Suc.prems(3)
  have l: "?i < length rc" using refcount_nonzero(1) [OF wf rc] allocated_range [OF wf f] by simp
  have "?c \<noteq> 0" using Suc.prems(5) by auto
  then consider "?c = 1" | "?c > 1" by (metis linorder_less_linear word_less_1)
  then show ?case
  proof cases
    case 1
    with Suc.prems(5) have "k = 0" by simp
    with 1 dec_refcount_last [OF wf rc f 1] show ?thesis by (auto simp: fa_freed_def)
  next
    case 2
    then have nz: "?c - 1 \<noteq> 0" by auto
    define a1 where "a1 = a\<lparr>refcounts := Some (rc[?i := ?c - 1])\<rparr>"
    have d: "dec_refcount a f = Ret (a1, Some (?c - 1))"
      using dec_refcount_cases [OF wf, of f] rc f 2 by (auto simp: a1_def)
    note a1 = recount_only_wf [OF wf rc f nz, folded a1_def]
    have rc1: "refcounts a1 = Some (rc[?i := ?c - 1])" "available_start a1 = available_start a"
      by (simp_all add: a1_def)
    have c1: "unat (rc[?i := ?c - 1] ! ?i) = unat ?c - 1" "1 < unat ?c"
      using l unat_dec [OF 2] 2 by (simp_all add: word_less_nat_alt)
    show ?thesis
    proof (cases "k = 0")
      case True
      with d a1 c1 show ?thesis by auto
    next
      case False
      have k: "k \<le> unat ?c - 1" "(k = unat ?c - 1) = (Suc k = unat ?c)"
        using Suc.prems(5) c1(2) by auto
      have "\<exists>a'. dec_refcounts k f a1 = Ret a' \<and> fa_wf a' \<and> fa_reserved a' = fa_reserved a1
         \<and> fa_allocated a' = (if k = unat ?c - 1 then fa_allocated a1 - {f} else fa_allocated a1)"
        using Suc.IH [OF a1(1) _ rc1(1)] f a1(2) k(1) False c1(1) rc1(2) by simp
      moreover have "dec_refcounts (Suc k) f a = dec_refcounts k f a1" by (simp add: d)
      ultimately show ?thesis by (simp only: k(2) a1)
    qed
  qed
qed

section \<open>Properties\<close>

text \<open>C1: on a well-formed allocator \<open>FrameAllocator::allocate_frame\<close> never panics. When some
  frame of the range is neither reserved nor allocated it returns such a frame, marks exactly
  that frame allocated with reference count 1 and keeps the reservations and the invariant;
  it returns \<open>None\<close>, changing nothing, exactly when no such frame is left.\<close>

theorem allocate_frame_correct:
  assumes "fa_wf a"
  shows "if fa_free a = {} then allocate_frame a = Ret (a, None)
         else \<exists>f a'. allocate_frame a = Ret (a', Some f) \<and> f \<in> fa_free a \<and> fa_wf a'
            \<and> fa_reserved a' = fa_reserved a \<and> fa_allocated a' = insert f (fa_allocated a)
            \<and> refcounts a' = map_option (\<lambda>rc. rc[f - available_start a := 1]) (refcounts a)"
proof (cases "fa_free a = {}")
  case True
  with allocate_frame_spec [OF assms] show ?thesis by auto
next
  case False
  with allocate_frame_spec [OF assms] obtain f a' where r: "allocate_frame a = Ret (a', Some f)" by auto
  from False show ?thesis
    using r allocate_frame_wf [OF assms r] by auto
qed

text \<open>The allocator of a range of 10 frames of which the first four are reserved.\<close>

definition fa_example :: frame_allocator where
  "fa_example = \<lparr>available_start = 100, available_end = 110, next_frame = 100,
     reserved_regions = Some (region_new 100 104 KernelImage) # replicate 31 None, reserved_count = 1,
     allocation_bitmap = \<lparr>bm_data = replicate 2 0, bm_size = 10\<rparr>, refcounts = Some (replicate 10 0)\<rparr>"

lemma fa_example_facts:
  "fa_wf fa_example" "fa_reserved fa_example = {100..<104}" "fa_allocated fa_example = {}"
  "fa_bits fa_example = {}"
proof -
  show b: "fa_bits fa_example = {}"
    by (auto simp: fa_example_def bitmap_bits_def)
  then show "fa_allocated fa_example = {}" by (simp add: fa_allocated_def)
  show "fa_reserved fa_example = {100..<104}"
    by (simp add: fa_reserved_def fa_regions_def fa_example_def region_frames_def region_new_def)
  show "fa_wf fa_example"
    unfolding fa_wf_def fa_counts_def b
    by (simp add: fa_example_def fa_table_def fa_merged_def bitmap_ok_def MAX_RESERVED_REGIONS_def region_new_def)
qed

theorem allocate_frame_correct_witness:
  "fa_wf fa_example \<and> (\<exists>f a'. allocate_frame fa_example = Ret (a', Some f) \<and> f \<in> {104..<110} \<and> fa_wf a')"
proof -
  have "fa_free fa_example = {104..<110}"
    using fa_example_facts by (auto simp: fa_free_def fa_example_def)
  then show ?thesis
    using fa_example_facts(1) allocate_frame_correct [OF fa_example_facts(1)] by auto
qed

text \<open>C13: \<open>FrameAllocator::reserve_range\<close> adds exactly the frames of the range to the
  reserved frames, whatever regions it has to merge, keeps the table free of overlapping and
  touching regions and changes nothing else. It panics exactly when the range is not empty, the
  32 entries are taken and none of them touches the range.\<close>

theorem reserve_range_correct:
  assumes "fa_wf a"
  shows "if fa_room a s e
         then \<exists>a'. reserve_range a s e why = Ret a' \<and> fa_wf a'
            \<and> fa_reserved a' = fa_reserved a \<union> {s..<e} \<and> fa_allocated a' = fa_allocated a
            \<and> refcounts a' = refcounts a \<and> next_frame a' = next_frame a
         else reserve_range a s e why = Panic"
  using reserve_range_cases [OF assms, of s e why] retabled_wf [OF assms]
  by (fastforce simp: retabled_def fa_allocated_def)

theorem reserve_range_correct_witness:
  "fa_wf fa_example \<and> (\<exists>a'. reserve_range fa_example 104 106 Heap = Ret a' \<and> fa_reserved a' = {100..<106})"
proof -
  have "fa_room fa_example 104 106"
    by (simp add: fa_room_def fa_example_def MAX_RESERVED_REGIONS_def)
  then show ?thesis
    using fa_example_facts reserve_range_correct [OF fa_example_facts(1), of 104 106 Heap] by auto
qed

text \<open>C14: a frame whose reference count is \<open>n > 0\<close> stays allocated while fewer than \<open>n\<close> of its
  owners have called \<open>dec_refcount\<close> and is freed by the \<open>n\<close>th call; no other frame is
  affected and the invariant is kept throughout.\<close>

theorem dec_refcount_frees_last:
  assumes "fa_wf a" "refcounts a = Some rc" "f \<in> fa_allocated a"
    "k \<le> unat (rc ! (f - available_start a))"
  shows "\<exists>a'. dec_refcounts k f a = Ret a' \<and> fa_wf a' \<and> fa_reserved a' = fa_reserved a
     \<and> fa_allocated a' = (if k = unat (rc ! (f - available_start a)) then fa_allocated a - {f} else fa_allocated a)"
proof (cases "k = 0")
  case True
  have "rc ! (f - available_start a) \<noteq> 0"
    using refcount_nonzero(2) [OF assms(1,2)] allocated_range [OF assms(1,3)] assms(3) by simp
  with True assms show ?thesis by (simp add: unat_eq_0)
next
  case False
  with dec_refcounts_spec [OF assms(1,3,2)] assms(4) show ?thesis by simp
qed

text \<open>\<open>fa_example\<close> with frame 105 allocated and owned twice.\<close>

definition fa_shared :: frame_allocator where
  "fa_shared = fa_example\<lparr>allocation_bitmap := \<lparr>bm_data = [32, 0], bm_size = 10\<rparr>,
                          refcounts := Some ((replicate 10 0)[5 := 2])\<rparr>"

lemma fa_shared_facts: "fa_wf fa_shared" "fa_allocated fa_shared = {105}" "fa_reserved fa_shared = {100..<104}"
proof -
  have p5: "bit (2 ^ 5 :: u8) k \<longleftrightarrow> k = 5" for k
    by (auto simp only: bit_exp_iff possible_bit_word) simp
  have "i < 10 \<and> bit (([32, 0] :: bytes) ! (i div 8)) (i mod 8) \<longleftrightarrow> i = 5" for i
  proof (cases "i < 8")
    case True
    then show ?thesis using p5 [of i] by simp
  next
    case False
    then have "i < 10 \<Longrightarrow> i div 8 = 1" by auto
    with False show ?thesis by auto
  qed
  then have b: "fa_bits fa_shared = {5}"
    by (auto simp: bitmap_bits_def fa_shared_def)
  then show "fa_allocated fa_shared = {105}"
    by (simp add: fa_allocated_def) (simp add: fa_shared_def fa_example_def)
  have r: "recounted fa_example {5} 5 2 fa_shared"
    unfolding recounted_def b by (simp add: fa_shared_def fa_example_def bitmap_ok_def)
  have "next_frame fa_shared \<le> available_end fa_example" "5 < bm_size (allocation_bitmap fa_example)"
    by (simp_all add: fa_shared_def fa_example_def)
  from recounted_wf [OF fa_example_facts(1) r this] fa_example_facts(2,4)
  show "fa_wf fa_shared" "fa_reserved fa_shared = {100..<104}" by auto
qed

theorem dec_refcount_frees_last_witness:
  "fa_allocated fa_shared = {105}
   \<and> (\<exists>a'. dec_refcounts 1 105 fa_shared = Ret a' \<and> fa_allocated a' = {105})
   \<and> (\<exists>a'. dec_refcounts 2 105 fa_shared = Ret a' \<and> fa_allocated a' = {})"
  using dec_refcount_frees_last [OF fa_shared_facts(1), of "(replicate 10 0)[5 := 2]" 105 1]
    dec_refcount_frees_last [OF fa_shared_facts(1), of "(replicate 10 0)[5 := 2]" 105 2] fa_shared_facts(2)
  by (auto simp: fa_shared_def fa_example_def)

text \<open>C11: the invariant holds after any sequence of reservations, allocations,
  deallocations and reference count changes of an allocator that was just created and given its
  reference counts, as long as no call panics: no frame is ever both counted as unreferenced and
  marked allocated, and the reserved regions never overlap.\<close>

theorem fa_run_invariant:
  assumes "s \<le> e" "(e - s + 7) div 8 \<le> length bits" "e - s \<le> length counts"
  shows "\<exists>a0. bindO (fa_new s e bits) (\<lambda>a. set_refcount_storage a counts) = Ret a0
     \<and> fa_wf a0 \<and> fa_free a0 = {s..<e}
     \<and> (\<forall>ops a. fa_run ops a0 = Ret a \<longrightarrow> fa_wf a)"
proof -
  obtain a where a: "fa_new s e bits = Ret a" "fa_wf a" "fa_reserved a = {}" "fa_allocated a = {}"
      "available_start a = s" "available_end a = e"
    using fa_new_wf [OF assms(1,2)] by blast
  obtain a0 where "set_refcount_storage a counts = Ret a0" "fa_wf a0" "fa_reserved a0 = {}"
      "fa_allocated a0 = {}" "available_start a0 = s" "available_end a0 = e"
    using set_refcount_storage_wf [OF a(2,4), of counts] assms(3) a by auto
  with a(1) show ?thesis
    by (intro exI [of _ a0]) (auto simp: fa_free_def dest: fa_run_wf)
qed

theorem fa_run_invariant_witness:
  "\<exists>a0. bindO (fa_new 4 20 [7, 7]) (\<lambda>a. set_refcount_storage a (replicate 16 9)) = Ret a0
     \<and> fa_free a0 = {4..<20}"
  using fa_run_invariant [of 4 20 "[7, 7]" "replicate 16 9"] by auto

text \<open>The frame counters. \<open>reserved_frames\<close> and \<open>allocated_frames\<close> are the numbers of
  reserved and of allocated frames, and \<open>available_frames\<close> is the number of frames that
  \<open>allocate_frame\<close> can still return, provided the reservations lie in the managed range and
  no reserved frame is allocated.\<close>

theorem available_frames_correct:
  assumes "fa_wf a"
  shows "reserved_frames a = Ret (card (fa_reserved a))
     \<and> allocated_frames a = Ret (card (fa_allocated a))
     \<and> (fa_reserved a \<subseteq> {available_start a..<available_end a} \<and> fa_reserved a \<inter> fa_allocated a = {}
        \<longrightarrow> available_frames a = Ret (card (fa_free a)))"
proof -
  have "available_frames a = Ret (card (fa_free a))"
    if s: "fa_reserved a \<subseteq> {available_start a..<available_end a}" "fa_reserved a \<inter> fa_allocated a = {}"
  proof -
    let ?R = "{available_start a..<available_end a}"
    have al: "fa_allocated a \<subseteq> ?R" using allocated_range [OF assms] by auto
    have fin: "finite (fa_reserved a)" "finite (fa_allocated a)"
      using s al finite_subset by blast+
    have "card (fa_free a) = card ?R - card (fa_reserved a) - card (fa_allocated a)"
      unfolding fa_free_def using s al fin by (subst card_Diff_subset; auto)+
    then show ?thesis
      using assms reserved_frames_card [OF assms] allocated_frames_card [OF assms]
      by (simp add: available_frames_def usable_frames_def total_frames_def fa_wf_def)
  qed
  then show ?thesis
    using reserved_frames_card [OF assms] allocated_frames_card [OF assms] by blast
qed

theorem available_frames_correct_witness:
  "fa_wf fa_shared \<and> available_frames fa_shared = Ret (card (fa_free fa_shared))"
  using available_frames_correct [OF fa_shared_facts(1)] fa_shared_facts
  by (simp add: fa_shared_def fa_example_def)

end
