(* ===== verification/Kernel_Monad.thy ===== *)
theory Kernel_Monad
  imports Panda_Prelude
begin

text \<open>
  Code that changes a state, returns a \<open>Result\<close> and may panic, as functions from the state to an
  outcome: the early return of \<open>?\<close> is \<open>bindP\<close>, which keeps the state an error leaves behind.
  The total specification \<open>spec m s Q\<close> says that \<open>m\<close> does not panic in \<open>s\<close> and that the state and
  the result it ends with satisfy \<open>Q\<close>; its rules are the collection \<open>spec_simps\<close>.
\<close>

named_theorems spec_simps

type_synonym ('s, 'a, 'e) prog = "'s \<Rightarrow> ('s \<times> ('a, 'e) result) outcome"

definition retP :: "'a \<Rightarrow> ('s, 'a, 'e) prog" where
  "retP x s = Ret (s, Ok x)"

definition failP :: "'e \<Rightarrow> ('s, 'a, 'e) prog" where
  "failP e s = Ret (s, Err e)"

definition panicP :: "('s, 'a, 'e) prog" where
  "panicP s = Panic"

definition bindP :: "('s, 'a, 'e) prog \<Rightarrow> ('a \<Rightarrow> ('s, 'b, 'e) prog) \<Rightarrow> ('s, 'b, 'e) prog" where
  "bindP m f s = (case m s of
       Panic \<Rightarrow> Panic
     | Ret (s', r) \<Rightarrow> (case r of Ok x \<Rightarrow> f x s' | Err e \<Rightarrow> Ret (s', Err e)))"

definition getP :: "('s \<Rightarrow> 'a) \<Rightarrow> ('s, 'a, 'e) prog" where
  "getP f s = Ret (s, Ok (f s))"

definition modP :: "('s \<Rightarrow> 's) \<Rightarrow> ('s, unit, 'e) prog" where
  "modP f s = Ret (f s, Ok ())"

definition liftR :: "('a, 'e) result \<Rightarrow> ('s, 'a, 'e) prog" where
  "liftR r s = Ret (s, r)"

definition liftO :: "'a outcome \<Rightarrow> ('s, 'a, 'e) prog" where
  "liftO m s = (case m of Ret x \<Rightarrow> Ret (s, Ok x) | Panic \<Rightarrow> Panic)"

definition map_errP :: "('e \<Rightarrow> 'f) \<Rightarrow> ('s, 'a, 'e) prog \<Rightarrow> ('s, 'a, 'f) prog" where
  "map_errP g m s = (case m s of Panic \<Rightarrow> Panic | Ret (s', r) \<Rightarrow> Ret (s', map_err g r))"

text \<open>\<open>tryP\<close> hands the result, error or not, to the continuation.\<close>

definition tryP :: "('s, 'a, 'e) prog \<Rightarrow> (('a, 'e) result \<Rightarrow> ('s, 'b, 'f) prog) \<Rightarrow> ('s, 'b, 'f) prog" where
  "tryP m f s = (case m s of Panic \<Rightarrow> Panic | Ret (s', r) \<Rightarrow> f r s')"

text \<open>A program on a part of the state.\<close>

definition zoomP :: "('s \<Rightarrow> 't) \<Rightarrow> ('t \<Rightarrow> 's \<Rightarrow> 's) \<Rightarrow> ('t, 'a, 'e) prog \<Rightarrow> ('s, 'a, 'e) prog" where
  "zoomP gt st m s = (case m (gt s) of Panic \<Rightarrow> Panic | Ret (t, r) \<Rightarrow> Ret (st t s, r))"

primrec mapP :: "('a \<Rightarrow> ('s, 'b, 'e) prog) \<Rightarrow> 'a list \<Rightarrow> ('s, 'b list, 'e) prog" where
  "mapP f [] = retP []"
| "mapP f (x # xs) = bindP (f x) (\<lambda>y. bindP (mapP f xs) (\<lambda>ys. retP (y # ys)))"

primrec foldP :: "('b \<Rightarrow> 'a \<Rightarrow> ('s, 'b, 'e) prog) \<Rightarrow> 'b \<Rightarrow> 'a list \<Rightarrow> ('s, 'b, 'e) prog" where
  "foldP f acc [] = retP acc"
| "foldP f acc (x # xs) = bindP (f acc x) (\<lambda>acc'. foldP f acc' xs)"

section \<open>Total specifications\<close>

definition spec :: "('s, 'a, 'e) prog \<Rightarrow> 's \<Rightarrow> ('s \<Rightarrow> ('a, 'e) result \<Rightarrow> bool) \<Rightarrow> bool" where
  "spec m s Q \<longleftrightarrow> (case m s of Panic \<Rightarrow> False | Ret (s', r) \<Rightarrow> Q s' r)"

lemma spec_ret [spec_simps]: "spec (retP x) s Q = Q s (Ok x)"
  by (simp add: spec_def retP_def)

lemma spec_fail [spec_simps]: "spec (failP e) s Q = Q s (Err e)"
  by (simp add: spec_def failP_def)

lemma spec_panic [spec_simps]: "\<not> spec panicP s Q"
  by (simp add: spec_def panicP_def)

lemma spec_bind [spec_simps]:
  "spec (bindP m f) s Q = spec m s (\<lambda>s' r. case r of Ok x \<Rightarrow> spec (f x) s' Q | Err e \<Rightarrow> Q s' (Err e))"
  by (auto simp: spec_def bindP_def split: outcome.splits result.splits)

lemma spec_get [spec_simps]: "spec (getP f) s Q = Q s (Ok (f s))"
  by (simp add: spec_def getP_def)

lemma spec_mod [spec_simps]: "spec (modP f) s Q = Q (f s) (Ok ())"
  by (simp add: spec_def modP_def)

lemma spec_liftR [spec_simps]: "spec (liftR r) s Q = Q s r"
  by (simp add: spec_def liftR_def)

lemma spec_liftO [spec_simps]: "spec (liftO m) s Q = (\<exists>x. m = Ret x \<and> Q s (Ok x))"
  by (cases m) (simp_all add: spec_def liftO_def)

lemma spec_map_err [spec_simps]: "spec (map_errP g m) s Q = spec m s (\<lambda>s' r. Q s' (map_err g r))"
  by (auto simp: spec_def map_errP_def split: outcome.splits)

lemma spec_try [spec_simps]: "spec (tryP m f) s Q = spec m s (\<lambda>s' r. spec (f r) s' Q)"
  by (auto simp: spec_def tryP_def split: outcome.splits)

lemma spec_zoom [spec_simps]: "spec (zoomP gt st m) s Q = spec m (gt s) (\<lambda>t r. Q (st t s) r)"
  by (auto simp: spec_def zoomP_def split: outcome.splits)

lemma spec_mono: "spec m s P \<Longrightarrow> (\<And>s' r. P s' r \<Longrightarrow> Q s' r) \<Longrightarrow> spec m s Q"
  by (auto simp: spec_def split: outcome.splits)

lemma spec_bindI:
  "spec m s P \<Longrightarrow> (\<And>s' x. P s' (Ok x) \<Longrightarrow> spec (f x) s' Q) \<Longrightarrow> (\<And>s' e. P s' (Err e) \<Longrightarrow> Q s' (Err e)) \<Longrightarrow>
   spec (bindP m f) s Q"
  by (auto simp: spec_bind elim!: spec_mono split: result.splits)

lemma spec_conj: "spec m s P \<Longrightarrow> spec m s Q \<Longrightarrow> spec m s (\<lambda>s' r. P s' r \<and> Q s' r)"
  by (auto simp: spec_def split: outcome.splits)

lemma spec_run: "spec m s Q \<longleftrightarrow> (\<exists>s' r. m s = Ret (s', r) \<and> Q s' r)"
  by (auto simp: spec_def split: outcome.splits)

lemma spec_not_panic: "spec m s Q \<Longrightarrow> m s \<noteq> Panic"
  by (auto simp: spec_run)

text \<open>Loops: an invariant on the state and the accumulator, and what an error leaves behind.\<close>

lemma spec_foldP:
  assumes "I 0 acc s"
    and "\<And>i acc s. i < length xs \<Longrightarrow> I i acc s \<Longrightarrow>
      spec (f acc (xs ! i)) s (\<lambda>s' r. case r of Ok acc' \<Rightarrow> I (Suc i) acc' s' | Err e \<Rightarrow> E s' e)"
  shows "spec (foldP f acc xs) s (\<lambda>s' r. case r of Ok acc' \<Rightarrow> I (length xs) acc' s' | Err e \<Rightarrow> E s' e)"
  using assms
proof (induction xs arbitrary: I acc s)
  case Nil
  then show ?case by (simp add: spec_ret)
next
  case (Cons x xs)
  have "spec (f acc x) s (\<lambda>s' r. case r of Ok acc' \<Rightarrow> I (Suc 0) acc' s' | Err e \<Rightarrow> E s' e)"
    using Cons.prems(2) [of 0] Cons.prems(1) by simp
  moreover have "spec (foldP f acc' xs) s' (\<lambda>s' r. case r of Ok acc' \<Rightarrow> I (Suc (length xs)) acc' s' | Err e \<Rightarrow> E s' e)"
    if "I (Suc 0) acc' s'" for acc' s'
    using Cons.IH [of "\<lambda>i. I (Suc i)" acc' s'] that Cons.prems(2) by fastforce
  ultimately show ?case
    by (auto simp: spec_bind elim!: spec_mono split: result.splits)
qed

lemma spec_mapP:
  assumes "I s"
    and "\<And>x s. x \<in> set xs \<Longrightarrow> I s \<Longrightarrow>
      spec (f x) s (\<lambda>s' r. I s' \<and> (case r of Ok y \<Rightarrow> R x y | Err e \<Rightarrow> E x e))"
  shows "spec (mapP f xs) s (\<lambda>s' r. I s' \<and> (case r of Ok ys \<Rightarrow> list_all2 R xs ys | Err e \<Rightarrow> \<exists>x \<in> set xs. E x e))"
  using assms
proof (induction xs arbitrary: s)
  case Nil
  then show ?case by (simp add: spec_ret)
next
  case (Cons x xs)
  have "spec (f x) s (\<lambda>s' r. I s' \<and> (case r of Ok y \<Rightarrow> R x y | Err e \<Rightarrow> E x e))"
    using Cons.prems by simp
  moreover have rest: "spec (mapP f xs) s' (\<lambda>s' r. I s' \<and> (case r of Ok ys \<Rightarrow> list_all2 R xs ys | Err e \<Rightarrow> \<exists>x \<in> set xs. E x e))"
    if "I s'" for s'
    using Cons.IH [of s'] that Cons.prems(2) by simp
  ultimately show ?case
    by (auto simp: spec_bind spec_ret elim!: spec_mono intro!: spec_mono [OF rest] split: result.splits)
qed

text \<open>Evaluation on a given state.\<close>

lemmas prog_defs = retP_def failP_def panicP_def bindP_def getP_def modP_def liftR_def liftO_def
  map_errP_def tryP_def zoomP_def

end
