(* ===== verification/Kernel_Memory.thy ===== *)
theory Kernel_Memory
  imports Frame_Allocator Kernel_Monad
begin

text \<open>
  Physical memory of the kernel (\<open>kernel/src/memory.rs\<close>, \<open>heap.rs\<close>, \<open>page_table_tracker.rs\<close> and the
  counters of \<open>vm_counters.rs\<close>): the global frame allocator and its start from the memory map of the
  boot loader, the frames of the kernel heap, the list of page-table frames.

  Physical memory is a function from addresses to 64-bit words, read and written at multiples of 8;
  the boot loader maps all of it at \<open>PHYSICAL_MEMORY_OFFSET\<close>, so the virtual address of a physical
  one is the sum, which panics on overflow. Error texts are strings.
\<close>

section \<open>State\<close>

record memory =
  FRAME_ALLOCATOR :: "frame_allocator option"
  PHYSICAL_MEMORY_OFFSET :: u64
  PAGE_TABLE_TRACKER :: "nat list option"
  ACTUAL_HEAP_START :: nat
  HEAP_INITIALIZED :: bool
  PAGE_FAULTS_TOTAL :: u64
  DEMAND_ALLOCATIONS :: u64
  COW_FAULTS :: u64
  PHYS :: "u64 \<Rightarrow> u64"

type_synonym 'a memop = "(memory, 'a, string) prog"

section \<open>The memory map of the boot loader\<close>

datatype memory_region_type = Usable | ReservedRegion | KernelRegion | BootloaderRegion

record memory_region =
  mr_start :: u64
  mr_end :: u64
  mr_type :: memory_region_type

record memory_map_info =
  mm_regions :: "memory_region option list"
  mm_count :: nat

definition memory_map_new :: memory_map_info where
  "memory_map_new = \<lparr>mm_regions = replicate 64 None, mm_count = 0\<rparr>"

definition add_region :: "memory_region \<Rightarrow> memory_map_info \<Rightarrow> memory_map_info" where
  "add_region region m =
     (if mm_count m < length (mm_regions m)
      then m\<lparr>mm_regions := (mm_regions m)[mm_count m := Some region], mm_count := mm_count m + 1\<rparr>
      else m)"

definition memory_map_iter :: "memory_map_info \<Rightarrow> memory_region list outcome" where
  "memory_map_iter m =
     (if mm_count m \<le> length (mm_regions m) then Ret (List.map_filter id (take (mm_count m) (mm_regions m))) else Panic)"

definition is_usable :: "memory_region \<Rightarrow> bool" where
  "is_usable r \<longleftrightarrow> mr_type r = Usable"

fun sum_sizes :: "memory_region list \<Rightarrow> nat outcome" where
  "sum_sizes [] = Ret 0"
| "sum_sizes (r # rs) =
     bindO (usub (unat (mr_end r)) (unat (mr_start r))) (\<lambda>n.
     bindO (sum_sizes rs) (\<lambda>m. if n + m < 2 ^ 64 then Ret (n + m) else Panic))"

definition usable_memory :: "memory_map_info \<Rightarrow> nat outcome" where
  "usable_memory m = bindO (memory_map_iter m) (\<lambda>rs. sum_sizes (filter is_usable rs))"

definition find_first_usable_frame :: "memory_map_info \<Rightarrow> nat outcome" where
  "find_first_usable_frame m =
     bindO (memory_map_iter m) (\<lambda>rs.
       let frames = map (\<lambda>r. unat (mr_start r div 4096)) (filter is_usable rs)
       in Ret (max (if frames = [] then 1 else Min (set frames)) 1))"

definition find_last_usable_frame :: "memory_map_info \<Rightarrow> nat outcome" where
  "find_last_usable_frame m =
     bindO (memory_map_iter m) (\<lambda>rs.
       let frames = map (\<lambda>r. unat (mr_end r div 4096)) (filter is_usable rs)
       in Ret (if frames = [] then 0 else Max (set frames)))"

section \<open>Start of the allocator\<close>

definition MAX_TRACKED_FRAMES :: nat where
  "MAX_TRACKED_FRAMES = 1048576"

definition KERNEL_PHYS_BASE :: u64 where
  "KERNEL_PHYS_BASE = 0x100000"

definition kernel_phys_start :: u64 where
  "kernel_phys_start = KERNEL_PHYS_BASE"

definition kernel_phys_end :: u64 where
  "kernel_phys_end = 8 * 1024 * 1024"

text \<open>What the boot loader passes: the regions of its memory map with a flag for usable ones.\<close>

record boot_info =
  bi_physical_memory_offset :: u64
  bi_memory_map :: "(u64 \<times> u64 \<times> bool) list"

definition parse_memory_map :: "boot_info \<Rightarrow> memory_map_info" where
  "parse_memory_map bi =
     fold (\<lambda>(s, e, usable). add_region \<lparr>mr_start = s, mr_end = e, mr_type = (if usable then Usable else ReservedRegion)\<rparr>)
       (bi_memory_map bi) memory_map_new"

definition div_ceil_frame :: "u64 \<Rightarrow> nat outcome" where
  "div_ceil_frame a = (if unat a + 4096 < 2 ^ 64 then Ret ((unat a + 4096 - 1) div 4096) else Panic)"

text \<open>\<open>init_from_bootloader\<close>; \<open>boot_info_addr\<close> is the address of the boot information, \<open>cr3\<close> the physical
  address of the active top-level table. The statistics it prints are computed and may panic.\<close>

definition init_from_bootloader :: "boot_info \<Rightarrow> u64 \<Rightarrow> u64 \<Rightarrow> memory \<Rightarrow> memory outcome" where
  "init_from_bootloader bi boot_info_addr cr3 m =
     (let memory_map = parse_memory_map bi in
      bindO (find_first_usable_frame memory_map) (\<lambda>usable_start_frame.
      bindO (find_last_usable_frame memory_map) (\<lambda>usable_end_frame.
      let total = usable_end_frame - usable_start_frame; bitmap_bytes = (total + 7) div 8 in
      if total > MAX_TRACKED_FRAMES then Panic
      else
        bindO (fa_new usable_start_frame usable_end_frame (replicate bitmap_bytes 0)) (\<lambda>a.
        bindO (reserve_range a 0 1 NullFrame) (\<lambda>a.
        bindO (div_ceil_frame kernel_phys_end) (\<lambda>kernel_end_frame.
        bindO (reserve_range a (unat (kernel_phys_start div 4096)) kernel_end_frame KernelImage) (\<lambda>a.
        bindO (reserve_range a (unat (boot_info_addr div 4096)) (unat (boot_info_addr div 4096) + 1) Bootloader) (\<lambda>a.
        bindO (reserve_range a (unat (cr3 div 4096)) (unat (cr3 div 4096 + 1)) PageTables) (\<lambda>a.
        bindO (usable_memory memory_map) (\<lambda>_.
        bindO (total_frames a) (\<lambda>_.
        bindO (reserved_frames a) (\<lambda>_.
        bindO (usable_frames a) (\<lambda>_.
        bindO (set_refcount_storage a (replicate MAX_TRACKED_FRAMES 0)) (\<lambda>a.
        Ret (m\<lparr>PHYSICAL_MEMORY_OFFSET := bi_physical_memory_offset bi, FRAME_ALLOCATOR := Some a\<rparr>)))))))))))))))"

section \<open>The global allocator\<close>

definition phys_to_virt :: "u64 \<Rightarrow> u64 memop" where
  "phys_to_virt phys_addr m =
     (if unat phys_addr + unat (PHYSICAL_MEMORY_OFFSET m) < 2 ^ 64
      then Ret (m, Ok (phys_addr + PHYSICAL_MEMORY_OFFSET m)) else Panic)"

text \<open>\<open>FRAME_ALLOCATOR.lock().as_mut()\<close>: an operation of the allocator, if there is one.\<close>

definition on_allocator :: "'a \<Rightarrow> (frame_allocator \<Rightarrow> (frame_allocator \<times> 'a) outcome) \<Rightarrow> 'a memop" where
  "on_allocator dflt f m =
     (case FRAME_ALLOCATOR m of
        None \<Rightarrow> Ret (m, Ok dflt)
      | Some a \<Rightarrow> bindO (f a) (\<lambda>(a', x). Ret (m\<lparr>FRAME_ALLOCATOR := Some a'\<rparr>, Ok x)))"

definition mem_allocate_frame :: "nat option memop" where
  "mem_allocate_frame = on_allocator None allocate_frame"

definition mem_deallocate_frame :: "nat \<Rightarrow> unit memop" where
  "mem_deallocate_frame frame = on_allocator () (\<lambda>a. bindO (deallocate_frame a frame) (\<lambda>a'. Ret (a', ())))"

definition mem_reserve_frames :: "nat \<Rightarrow> nat \<Rightarrow> reservation_reason \<Rightarrow> unit memop" where
  "mem_reserve_frames s e why = on_allocator () (\<lambda>a. bindO (reserve_range a s e why) (\<lambda>a'. Ret (a', ())))"

definition inc_frame_refcount :: "nat \<Rightarrow> u16 option memop" where
  "inc_frame_refcount frame = on_allocator None (\<lambda>a. inc_refcount a frame)"

definition dec_frame_refcount :: "nat \<Rightarrow> u16 option memop" where
  "dec_frame_refcount frame = on_allocator None (\<lambda>a. dec_refcount a frame)"

definition get_frame_refcount :: "nat \<Rightarrow> u16 option memop" where
  "get_frame_refcount frame = on_allocator None (\<lambda>a. bindO (get_refcount a frame) (\<lambda>r. Ret (a, r)))"

section \<open>The page-table tracker\<close>

definition track_frame :: "nat \<Rightarrow> nat list \<Rightarrow> nat list" where
  "track_frame frame frames = (if frame \<notin> set frames then frames @ [frame] else frames)"

definition tracker_init :: "unit memop" where
  "tracker_init = modP (\<lambda>m. m\<lparr>PAGE_TABLE_TRACKER := Some []\<rparr>)"

definition track_page_table_frame :: "nat \<Rightarrow> unit memop" where
  "track_page_table_frame frame = modP (\<lambda>m. m\<lparr>PAGE_TABLE_TRACKER := map_option (track_frame frame) (PAGE_TABLE_TRACKER m)\<rparr>)"

definition is_page_table_frame :: "memory \<Rightarrow> nat \<Rightarrow> bool" where
  "is_page_table_frame m frame = (case PAGE_TABLE_TRACKER m of Some frames \<Rightarrow> frame \<in> set frames | None \<Rightarrow> False)"

definition page_table_frame_count :: "memory \<Rightarrow> nat" where
  "page_table_frame_count m = (case PAGE_TABLE_TRACKER m of Some frames \<Rightarrow> length frames | None \<Rightarrow> 0)"

definition allocate_page_table_frame :: "nat option memop" where
  "allocate_page_table_frame =
     bindP mem_allocate_frame (\<lambda>r.
     case r of
       Some frame \<Rightarrow> bindP (track_page_table_frame frame) (\<lambda>_. retP (Some frame))
     | None \<Rightarrow> retP None)"

section \<open>The kernel heap\<close>

definition HEAP_SIZE :: nat where
  "HEAP_SIZE = 26 * 4096"

definition MAX_HEAP_FRAMES :: nat where
  "MAX_HEAP_FRAMES = 32"

text \<open>The first loop of \<open>map_heap\<close>; the array of frames and the count are the list of the frames.\<close>

fun heap_frames_loop :: "nat list \<Rightarrow> nat list \<Rightarrow> nat list memop" where
  "heap_frames_loop heap_frames [] = retP heap_frames"
| "heap_frames_loop heap_frames (i # is) =
     bindP mem_allocate_frame (\<lambda>r.
     case r of
       Some frame \<Rightarrow>
         if i < MAX_HEAP_FRAMES then heap_frames_loop (heap_frames @ [frame]) is
         else failP ''Heap too large: exceeds MAX_HEAP_FRAMES''
     | None \<Rightarrow> failP ''Out of memory: cannot allocate frames for heap'')"

fun reserve_heap_loop :: "nat list \<Rightarrow> unit memop" where
  "reserve_heap_loop [] = retP ()"
| "reserve_heap_loop (f # fs) = bindP (mem_reserve_frames f (f + 1) Heap) (\<lambda>_. reserve_heap_loop fs)"

definition map_heap :: "unit memop" where
  "map_heap =
     bindP (heap_frames_loop [] [0..<(HEAP_SIZE + 4095) div 4096]) (\<lambda>heap_frames.
     let heap_phys_start = hd (heap_frames @ [0]) * 4096 in
     bindP (if heap_phys_start < 2 ^ 64 then phys_to_virt (of_nat heap_phys_start) else panicP) (\<lambda>heap_start.
     bindP (if heap_phys_start + HEAP_SIZE < 2 ^ 64 \<and> unat heap_start + HEAP_SIZE < 2 ^ 64 then retP () else panicP) (\<lambda>_.
     bindP (reserve_heap_loop heap_frames) (\<lambda>_.
     modP (\<lambda>m. m\<lparr>ACTUAL_HEAP_START := unat heap_start\<rparr>)))))"

text \<open>\<open>heap::init\<close>, up to the call that hands the region to the external allocator.\<close>

definition heap_init :: "nat memop" where
  "heap_init =
     bindP (getP HEAP_INITIALIZED) (\<lambda>was.
     bindP (modP (\<lambda>m. m\<lparr>HEAP_INITIALIZED := True\<rparr>)) (\<lambda>_.
     if was then panicP
     else
       bindP (getP ACTUAL_HEAP_START) (\<lambda>heap_start.
       if heap_start = 0 then panicP else retP heap_start)))"

section \<open>Counters\<close>

definition inc_page_faults :: "unit memop" where
  "inc_page_faults = modP (\<lambda>m. m\<lparr>PAGE_FAULTS_TOTAL := PAGE_FAULTS_TOTAL m + 1\<rparr>)"

definition inc_demand_allocations :: "unit memop" where
  "inc_demand_allocations = modP (\<lambda>m. m\<lparr>DEMAND_ALLOCATIONS := DEMAND_ALLOCATIONS m + 1\<rparr>)"

definition inc_cow_faults :: "unit memop" where
  "inc_cow_faults = modP (\<lambda>m. m\<lparr>COW_FAULTS := COW_FAULTS m + 1\<rparr>)"

section \<open>The map and the start\<close>

definition map_ok :: "memory_map_info \<Rightarrow> bool" where
  "map_ok m \<longleftrightarrow> length (mm_regions m) = 64 \<and> mm_count m \<le> 64"

lemma add_region_ok: "map_ok m \<Longrightarrow> map_ok (add_region r m)"
  by (simp add: map_ok_def add_region_def)

lemma parse_memory_map_ok: "map_ok (parse_memory_map bi)"
proof -
  have "map_ok (fold (\<lambda>(s, e, usable). add_region \<lparr>mr_start = s, mr_end = e, mr_type = (if usable then Usable else ReservedRegion)\<rparr>) rs m)"
    if "map_ok m" for rs m
    using that by (induction rs arbitrary: m) (auto simp: add_region_ok)
  then show ?thesis unfolding parse_memory_map_def by (simp add: memory_map_new_def map_ok_def)
qed

lemma usable_frame_finds:
  "\<exists>s. find_first_usable_frame (parse_memory_map bi) = Ret s \<and> 1 \<le> s"
  "\<exists>e. find_last_usable_frame (parse_memory_map bi) = Ret e"
  using parse_memory_map_ok [of bi]
  by (simp_all add: find_first_usable_frame_def find_last_usable_frame_def memory_map_iter_def map_ok_def Let_def)

lemma consolidate_count: "consolidate_reservations a = Ret a' \<Longrightarrow> reserved_count a' \<le> reserved_count a"
proof (induction a rule: consolidate_reservations.induct)
  case (1 a)
  consider "consolidate_outer a [0..<reserved_count a] = Panic" | "consolidate_outer a [0..<reserved_count a] = Ret None"
    | b where "consolidate_outer a [0..<reserved_count a] = Ret (Some b)"
    by (metis option.exhaust outcome.exhaust)
  then show ?case
  proof cases
    case 3
    with 1 consolidate_outer_count [OF 3] show ?thesis by (simp add: consolidate_reservations.simps [of a])
  qed (use 1(2) in \<open>simp_all add: consolidate_reservations.simps [of a]\<close>)
qed

lemma reserve_merge_loop_count: "reserve_merge_loop a r is = Ret (a', b) \<Longrightarrow> reserved_count a' \<le> reserved_count a"
  by (induction "is") (auto split: option.splits dest!: consolidate_count)

lemma reserve_range_count: "reserve_range a s e why = Ret a' \<Longrightarrow> reserved_count a' \<le> reserved_count a + 1"
  by (auto simp: reserve_range_def Let_def split: if_splits dest!: reserve_merge_loop_count)

lemma reserve_range_ok:
  assumes "fa_wf a" "reserved_count a < MAX_RESERVED_REGIONS"
  obtains a' where "reserve_range a s e why = Ret a'" "fa_wf a'" "reserved_count a' \<le> reserved_count a + 1"
    "fa_reserved a' = fa_reserved a \<union> {s..<e}" "fa_allocated a' = fa_allocated a" "available_start a' = available_start a"
    "available_end a' = available_end a" "next_frame a' = next_frame a" "refcounts a' = refcounts a"
proof -
  obtain a' where r: "reserve_range a s e why = Ret a'" "retabled a (fa_reserved a \<union> {s..<e}) a'"
    using reserve_range_retabled [OF assms(1), of s e why] assms(2) by auto
  from reserve_range_count [OF r(1)] retabled_wf [OF assms(1) r(2)] r show thesis
    by (intro that [of a']) (auto simp: retabled_def fa_allocated_def)
qed

lemma unat_less_2p_64: "unat (x :: u64) < 2 ^ 64"
  using unsigned_less [of x, where ?'a = nat] by simp

lemma init_spec:
  assumes "find_first_usable_frame (parse_memory_map bi) = Ret s" "find_last_usable_frame (parse_memory_map bi) = Ret e"
    "s \<le> e" "e - s \<le> MAX_TRACKED_FRAMES" "usable_memory (parse_memory_map bi) = Ret u"
  obtains m' a where "init_from_bootloader bi addr cr3 m = Ret m'" "FRAME_ALLOCATOR m' = Some a" "fa_wf a"
    "fa_allocated a = {}" "available_start a = s" "available_end a = e" "next_frame a = s" "reserved_count a \<le> 4"
    "fa_reserved a = {0} \<union> {256..<2048} \<union> {unat (addr div 4096)} \<union> {unat (cr3 div 4096)}"
    "PHYSICAL_MEMORY_OFFSET m' = bi_physical_memory_offset bi"
proof -
  have k: "div_ceil_frame kernel_phys_end = Ret 2048" "unat (kernel_phys_start div 4096) = 256"
    by (simp_all add: div_ceil_frame_def kernel_phys_end_def kernel_phys_start_def KERNEL_PHYS_BASE_def)
  have c: "unat (cr3 div 4096 + 1) = unat (cr3 div 4096) + 1"
  proof -
    have "unat (cr3 div 4096) < 2 ^ 52" using unat_less_2p_64 [of cr3] by (simp add: unat_div)
    then show ?thesis by (simp add: unat_word_ariths)
  qed
  obtain a0 where a0: "fa_new s e (replicate ((e - s + 7) div 8) 0) = Ret a0" "fa_wf a0" "fa_reserved a0 = {}"
    "fa_allocated a0 = {}" "available_start a0 = s" "available_end a0 = e" "refcounts a0 = None"
    using fa_new_wf [of s e "replicate ((e - s + 7) div 8) 0"] assms(3) by auto
  have z: "reserved_count a0 = 0" "next_frame a0 = s" using a0(1) by (auto simp: fa_new_def Let_def)
  have l: "n \<le> 4 \<Longrightarrow> n < MAX_RESERVED_REGIONS" for n by (simp add: MAX_RESERVED_REGIONS_def)
  obtain a1 where a1: "reserve_range a0 0 1 NullFrame = Ret a1" "fa_wf a1" "reserved_count a1 \<le> 1"
    "fa_reserved a1 = {0}" "fa_allocated a1 = {}" "available_start a1 = s" "available_end a1 = e" "next_frame a1 = s"
    by (rule reserve_range_ok [OF a0(2), of 0 1 NullFrame]) (use a0 z l in auto)
  obtain a2 where a2: "reserve_range a1 256 2048 KernelImage = Ret a2" "fa_wf a2" "reserved_count a2 \<le> 2"
    "fa_reserved a2 = {0} \<union> {256..<2048}" "fa_allocated a2 = {}" "available_start a2 = s" "available_end a2 = e" "next_frame a2 = s"
    by (rule reserve_range_ok [OF a1(2), of 256 2048 KernelImage]) (use a1 l in auto)
  let ?f = "unat (addr div 4096)" and ?c = "unat (cr3 div 4096)"
  obtain a3 where a3: "reserve_range a2 ?f (?f + 1) Bootloader = Ret a3" "fa_wf a3" "reserved_count a3 \<le> 3"
    "fa_reserved a3 = {0} \<union> {256..<2048} \<union> {?f}" "fa_allocated a3 = {}" "available_start a3 = s" "available_end a3 = e" "next_frame a3 = s"
    by (rule reserve_range_ok [OF a2(2), of ?f "?f + 1" Bootloader]) (use a2 l in auto)
  obtain a4 where a4: "reserve_range a3 ?c (?c + 1) PageTables = Ret a4" "fa_wf a4" "reserved_count a4 \<le> 4"
    "fa_reserved a4 = {0} \<union> {256..<2048} \<union> {?f} \<union> {?c}" "fa_allocated a4 = {}" "available_start a4 = s" "available_end a4 = e" "next_frame a4 = s"
    by (rule reserve_range_ok [OF a3(2), of ?c "?c + 1" PageTables]) (use a3 l in auto)
  obtain a5 where a5: "set_refcount_storage a4 (replicate MAX_TRACKED_FRAMES 0) = Ret a5" "fa_wf a5"
    "fa_reserved a5 = fa_reserved a4" "fa_allocated a5 = {}" "available_start a5 = s" "available_end a5 = e"
    using set_refcount_storage_wf [OF a4(2,5), of "replicate MAX_TRACKED_FRAMES 0"] a4(6,7) assms(4) by auto
  have n5: "next_frame a5 = s" "reserved_count a5 \<le> 4" using a5(1) a4(3,8) by (auto simp: set_refcount_storage_def split: if_splits)
  have t: "total_frames a4 = Ret (e - s)" using a4(6,7) assms(3) by (simp add: total_frames_def)
  have "init_from_bootloader bi addr cr3 m = Ret (m\<lparr>PHYSICAL_MEMORY_OFFSET := bi_physical_memory_offset bi, FRAME_ALLOCATOR := Some a5\<rparr>)"
    using assms a0(1) a1(1) a2(1) a3(1) a4(1) a5(1) t reserved_frames_card [OF a4(2)]
    by (simp add: init_from_bootloader_def Let_def k c usable_frames_def)
  from that [OF this _ a5(2,4-6) n5] a4(4) a5(3) show thesis by simp
qed

section \<open>The frames of the heap\<close>

lemma allocate_loop_first:
  assumes wf: "fa_wf a" and ne: "available_start a < available_end a"
  shows "available_start a \<le> frame \<Longrightarrow> frame \<le> available_end a \<Longrightarrow> k < n \<Longrightarrow> visit a frame k \<in> fa_free a \<Longrightarrow>
    (\<And>j. j < k \<Longrightarrow> visit a frame j \<notin> fa_free a) \<Longrightarrow> \<exists>a'. allocate_loop n a frame = Ret (a', Some (visit a frame k))"
proof (induction n arbitrary: frame k)
  case 0
  then show ?case by simp
next
  case (Suc n)
  let ?f = "visit a frame 0"
  note v0 = visit_0 [OF ne Suc.prems(1,2)] and vs = visit_Suc [OF ne Suc.prems(1,2)]
  have f: "available_start a \<le> ?f" "?f < available_end a" using visit_in [OF ne] by auto
  have t: "fa_table a" using wf by (simp add: fa_wf_def)
  show ?case
  proof (cases k)
    case 0
    then have "?f \<notin> fa_reserved a" "?f \<notin> fa_allocated a" using Suc.prems(4) by (auto simp: fa_free_def)
    with take_frame_spec [OF wf f] 0 show ?thesis
      by (auto simp: v0 [symmetric] Let_def is_reserved_spec [OF t] is_allocated_spec [OF wf])
  next
    case (Suc j)
    then have "?f \<notin> fa_free a" using Suc.prems(5) by blast
    then have busy: "?f \<in> fa_reserved a \<or> ?f \<in> fa_allocated a" using f by (auto simp: fa_free_def)
    then have step: "allocate_loop (Suc n) a frame = allocate_loop n a (?f + 1)"
      by (auto simp: v0 [symmetric] Let_def is_reserved_spec [OF t] is_allocated_spec [OF wf])
    have nf: "visit a (?f + 1) i \<notin> fa_free a" if "i < j" for i
      using Suc.prems(5) [of "Suc i"] that \<open>k = Suc j\<close> vs by simp
    have "\<exists>a'. allocate_loop n a (?f + 1) = Ret (a', Some (visit a (?f + 1) j))"
      by (rule Suc.IH) (use f Suc.prems(3,4) \<open>k = Suc j\<close> vs nf in auto)
    then show ?thesis unfolding step vs \<open>k = Suc j\<close> .
  qed
qed

lemma allocate_next:
  assumes "fa_wf a" "available_start a \<le> next_frame a" "next_frame a \<le> f" "f \<in> fa_free a"
    "\<And>g. next_frame a \<le> g \<Longrightarrow> g < f \<Longrightarrow> g \<notin> fa_free a"
  obtains a' where "allocate_frame a = Ret (a', Some f)" "next_frame a' = f + 1" "fa_wf a'" "fa_reserved a' = fa_reserved a"
    "fa_allocated a' = insert f (fa_allocated a)" "available_start a' = available_start a" "available_end a' = available_end a"
    "reserved_count a' = reserved_count a"
proof -
  have f: "f < available_end a" using assms(4) by (auto simp: fa_free_def)
  have ne: "available_start a < available_end a" using f assms(2,3) by simp
  let ?n = "next_frame a" and ?k = "f - next_frame a"
  have v: "visit a ?n j = ?n + j" if "j \<le> ?k" for j
    using that assms(2,3) f by (simp add: visit_def)
  have eq: "allocate_frame a = allocate_loop (available_end a - available_start a) a ?n"
    using assms(1-3) f ne by (simp add: allocate_frame_def fa_wf_def total_frames_def Let_def)
  have "\<exists>a'. allocate_loop (available_end a - available_start a) a ?n = Ret (a', Some (visit a ?n ?k))"
    by (rule allocate_loop_first [OF assms(1) ne assms(2)]) (use assms(2-5) f v in auto)
  then obtain a' where r: "allocate_frame a = Ret (a', Some f)" using eq v assms(3) by auto
  have n: "next_frame a' = f + 1" "recounted a (insert (f - available_start a) (fa_bits a)) (f - available_start a) 1 a'"
    using allocate_frame_spec [OF assms(1)] r by auto
  have "reserved_count a' = reserved_count a" using n(2) by (auto simp: recounted_def)
  with that [OF r n(1)] allocate_frame_wf [OF assms(1) r] show thesis by simp
qed

definition takes :: "frame_allocator \<Rightarrow> nat list \<Rightarrow> frame_allocator \<Rightarrow> bool" where
  "takes a fs a' \<longleftrightarrow> fa_wf a' \<and> fa_reserved a' = fa_reserved a \<and> fa_allocated a' = fa_allocated a \<union> set fs
     \<and> available_start a' = available_start a \<and> available_end a' = available_end a \<and> reserved_count a' = reserved_count a"

lemma upt_split:
  assumes "[n..<e] = us @ f # vs"
  shows "us = [n..<f]" "vs = [f + 1..<e]" "n \<le> f"
proof -
  have l: "length us < e - n" using arg_cong [OF assms, of length] by simp
  have "[n..<e] ! length us = f" using assms by simp
  then have f: "f = n + length us" using l by simp
  have "take (length us) [n..<e] = us" "drop (Suc (length us)) [n..<e] = vs" using assms by simp_all
  with f l show "us = [n..<f]" "vs = [f + 1..<e]" "n \<le> f" by (auto simp: take_upt drop_upt)
qed

lemma heap_frames_loop_spec:
  assumes "FRAME_ALLOCATOR m = Some a" "fa_wf a" "available_start a \<le> next_frame a"
    "filter (\<lambda>f. f \<in> fa_free a) [next_frame a..<e] = fs" "length is = length fs" "\<forall>i \<in> set is. i < MAX_HEAP_FRAMES"
  shows "\<exists>a'. heap_frames_loop acc is m = Ret (m\<lparr>FRAME_ALLOCATOR := Some a'\<rparr>, Ok (acc @ fs)) \<and> takes a fs a'"
  using assms
proof (induction fs arbitrary: acc "is" m a)
  case Nil
  then have "m\<lparr>FRAME_ALLOCATOR := Some a\<rparr> = m" by (cases m) simp
  with Nil show ?case by (auto simp: retP_def takes_def intro!: exI [of _ a])
next
  case (Cons f fs)
  obtain i js where i: "is = i # js" "i < MAX_HEAP_FRAMES" "length js = length fs" "\<forall>i \<in> set js. i < MAX_HEAP_FRAMES"
    using Cons.prems(5,6) by (cases "is") auto
  from Cons.prems(4) obtain us vs where u: "[next_frame a..<e] = us @ f # vs" "\<forall>g \<in> set us. g \<notin> fa_free a" "f \<in> fa_free a"
    "fs = filter (\<lambda>f. f \<in> fa_free a) vs" by (auto simp: filter_eq_Cons_iff)
  have uv: "us = [next_frame a..<f] \<and> vs = [f + 1..<e]" "next_frame a \<le> f"
    using upt_split [OF u(1)] by auto
  obtain a1 where a1: "allocate_frame a = Ret (a1, Some f)" "next_frame a1 = f + 1" "fa_wf a1" "fa_reserved a1 = fa_reserved a"
    "fa_allocated a1 = insert f (fa_allocated a)" "available_start a1 = available_start a" "available_end a1 = available_end a"
    "reserved_count a1 = reserved_count a"
    by (rule allocate_next [OF Cons.prems(2,3) uv(2) u(3)]) (use u(2) uv(1) in auto)
  let ?m = "m\<lparr>FRAME_ALLOCATOR := Some a1\<rparr>"
  have fl: "filter (\<lambda>f. f \<in> fa_free a1) [next_frame a1..<e] = fs"
    unfolding u(4) a1(2) using uv(1) a1(4-7) by (auto simp: fa_free_def intro!: filter_cong)
  obtain a' where a': "heap_frames_loop (acc @ [f]) js ?m = Ret (?m\<lparr>FRAME_ALLOCATOR := Some a'\<rparr>, Ok ((acc @ [f]) @ fs))" "takes a1 fs a'"
    using Cons.IH [of ?m a1 js "acc @ [f]"] a1 fl i uv(2) Cons.prems(3) by auto
  have "heap_frames_loop acc is m = Ret (m\<lparr>FRAME_ALLOCATOR := Some a'\<rparr>, Ok (acc @ f # fs))"
    using a'(1) a1(1) i(1,2) Cons.prems(1) by (simp add: bindP_def mem_allocate_frame_def on_allocator_def)
  moreover have "takes a (f # fs) a'" using a'(2) a1 by (auto simp: takes_def)
  ultimately show ?case by blast
qed

lemma reserve_heap_loop_spec:
  assumes "FRAME_ALLOCATOR m = Some a" "fa_wf a" "reserved_count a + length fs \<le> MAX_RESERVED_REGIONS"
  shows "\<exists>a'. reserve_heap_loop fs m = Ret (m\<lparr>FRAME_ALLOCATOR := Some a'\<rparr>, Ok ()) \<and> fa_wf a'
    \<and> fa_reserved a' = fa_reserved a \<union> set fs \<and> fa_allocated a' = fa_allocated a"
  using assms
proof (induction fs arbitrary: m a)
  case Nil
  then have "m\<lparr>FRAME_ALLOCATOR := Some a\<rparr> = m" by (cases m) simp
  with Nil show ?case by (auto simp: retP_def intro!: exI [of _ a])
next
  case (Cons f fs)
  obtain a1 where a1: "reserve_range a f (f + 1) Heap = Ret a1" "fa_wf a1" "reserved_count a1 \<le> reserved_count a + 1"
    "fa_reserved a1 = fa_reserved a \<union> {f..<f + 1}" "fa_allocated a1 = fa_allocated a"
    by (rule reserve_range_ok [OF Cons.prems(2), of f "f + 1" Heap]) (use Cons.prems(3) in auto)
  let ?m = "m\<lparr>FRAME_ALLOCATOR := Some a1\<rparr>"
  have run: "reserve_heap_loop (f # fs) m = reserve_heap_loop fs ?m"
    using a1(1) Cons.prems(1) by (simp add: bindP_def mem_reserve_frames_def on_allocator_def)
  from Cons.IH [of ?m a1] a1 Cons.prems(3) obtain a' where "reserve_heap_loop fs ?m = Ret (?m\<lparr>FRAME_ALLOCATOR := Some a'\<rparr>, Ok ())"
    "fa_wf a'" "fa_reserved a' = fa_reserved a1 \<union> set fs" "fa_allocated a' = fa_allocated a1" by auto
  then show ?case unfolding run using a1(4,5) by (intro exI [of _ a']) auto
qed

lemma consecutive_iff:
  assumes "filter P [n..<e] = fs" "fs \<noteq> []"
  shows "fs = [hd fs..<hd fs + length fs] \<longleftrightarrow> (\<forall>f \<in> {hd fs..<hd fs + length fs}. P f)"
proof -
  obtain f gs where fs: "fs = f # gs" using assms(2) by (cases fs) auto
  with assms(1) obtain us vs where u: "[n..<e] = us @ f # vs" "gs = filter P vs" "P f" by (auto simp: filter_eq_Cons_iff)
  have v: "vs = [f + 1..<e]" by (rule upt_split(2) [OF u(1)])
  have l: "length gs \<le> e - (f + 1)" using u(2) v by (metis length_filter_le length_upt)
  have "fs = [f..<f + length fs] \<longleftrightarrow> gs = [f + 1..<f + 1 + length gs]"
    unfolding fs using upt_conv_Cons [of f "f + length (f # gs)"] by simp
  also have "\<dots> \<longleftrightarrow> (\<forall>g \<in> {f + 1..<f + 1 + length gs}. P g)" (is "?L \<longleftrightarrow> ?R")
  proof
    assume ?L
    have "set gs \<subseteq> {g. P g}" using u(2) by auto
    moreover have "set gs = {f + 1..<f + 1 + length gs}" using arg_cong [OF \<open>?L\<close>, of set] by (simp only: set_upt)
    ultimately show ?R by blast
  next
    assume R: ?R
    define b where "b = f + 1 + length gs"
    have b: "f + 1 \<le> b" "b \<le> e \<or> length gs = 0" using l unfolding b_def by linarith+
    have split: "[f + 1..<e] = [f + 1..<b] @ [b..<e]"
    proof (cases "b \<le> e")
      case True
      with b(1) upt_add_eq_append [of "f + 1" b "e - b"] show ?thesis by (simp del: upt_Suc)
    next
      case False
      with b have "b = f + 1" by (simp add: b_def)
      then show ?thesis by (simp del: upt_Suc)
    qed
    have "filter P [f + 1..<b] = [f + 1..<b]" using R unfolding b_def by (auto intro: filter_True)
    then have g: "gs = [f + 1..<b] @ filter P [b..<e]" unfolding u(2) v split by simp
    have "length gs = b - (f + 1)" by (simp add: b_def)
    with arg_cong [OF g, of length] have "filter P [b..<e] = []" by simp
    with g show ?L unfolding b_def by simp
  qed
  also have "\<dots> \<longleftrightarrow> (\<forall>g \<in> {f..<f + length fs}. P g)" unfolding fs using u(3) by (auto simp: le_eq_less_or_eq Suc_le_eq)
  finally show ?thesis by (simp add: fs)
qed

section \<open>A sample machine\<close>

text \<open>Two usable regions with a reserved one between them, and nothing set up yet.\<close>

definition sample_boot :: boot_info where
  "sample_boot = \<lparr>bi_physical_memory_offset = 0,
     bi_memory_map = [(0x1000, 0x40000, True), (0x40000, 0x1000000, False), (0x1000000, 0x1001000, True)]\<rparr>"

definition sample_memory :: memory where
  "sample_memory = \<lparr>FRAME_ALLOCATOR = None, PHYSICAL_MEMORY_OFFSET = 0, PAGE_TABLE_TRACKER = None, ACTUAL_HEAP_START = 0,
     HEAP_INITIALIZED = False, PAGE_FAULTS_TOTAL = 0, DEMAND_ALLOCATIONS = 0, COW_FAULTS = 0, PHYS = (\<lambda>_. 0)\<rparr>"

lemma sample_boot_iter:
  "memory_map_iter (parse_memory_map sample_boot) =
     Ret [\<lparr>mr_start = 0x1000, mr_end = 0x40000, mr_type = Usable\<rparr>, \<lparr>mr_start = 0x40000, mr_end = 0x1000000, mr_type = ReservedRegion\<rparr>,
          \<lparr>mr_start = 0x1000000, mr_end = 0x1001000, mr_type = Usable\<rparr>]"
  by code_simp

lemma sample_boot_facts:
  "find_first_usable_frame (parse_memory_map sample_boot) = Ret 1"
  "find_last_usable_frame (parse_memory_map sample_boot) = Ret 4097"
  "usable_memory (parse_memory_map sample_boot) = Ret 0x40000"
  by (simp_all add: find_first_usable_frame_def find_last_usable_frame_def usable_memory_def sample_boot_iter is_usable_def)

section \<open>Properties\<close>

text \<open>C38: \<open>init_from_bootloader\<close> returns, for every memory map whose usable frames fit the bitmap, with a
  well-formed allocator of the frames from the first to the last usable one. Exactly frame 0, the
  eight megabytes of the kernel, the frame number of the boot information and the frame of the active
  top-level table are reserved; every other frame of the range can be allocated, also one that the
  memory map gives as reserved.\<close>

theorem boot_reservations:
  assumes "find_first_usable_frame (parse_memory_map bi) = Ret s" "find_last_usable_frame (parse_memory_map bi) = Ret e"
    "s \<le> e" "e - s \<le> MAX_TRACKED_FRAMES" "usable_memory (parse_memory_map bi) = Ret u"
  shows "\<exists>m' a. init_from_bootloader bi addr cr3 m = Ret m' \<and> FRAME_ALLOCATOR m' = Some a \<and> fa_wf a \<and> fa_allocated a = {}
    \<and> fa_reserved a = {0} \<union> {256..<2048} \<union> {unat (addr div 4096)} \<union> {unat (cr3 div 4096)}
    \<and> fa_free a = {s..<e} - fa_reserved a"
proof -
  obtain m' a where "init_from_bootloader bi addr cr3 m = Ret m'" "FRAME_ALLOCATOR m' = Some a" "fa_wf a"
    "fa_allocated a = {}" "available_start a = s" "available_end a = e"
    "fa_reserved a = {0} \<union> {256..<2048} \<union> {unat (addr div 4096)} \<union> {unat (cr3 div 4096)}"
    by (rule init_spec [OF assms, of addr cr3 m]) blast
  then show ?thesis by (auto simp: fa_free_def)
qed

theorem boot_reservations_witness:
  "\<exists>m' a. init_from_bootloader sample_boot 0 0x5000 sample_memory = Ret m' \<and> FRAME_ALLOCATOR m' = Some a
    \<and> 5 \<notin> fa_free a \<and> 64 \<in> fa_free a"
  using boot_reservations [OF sample_boot_facts(1,2) _ _ sample_boot_facts(3), of 0 "0x5000" sample_memory]
  by (auto simp: MAX_TRACKED_FRAMES_def)

text \<open>C39: \<open>map_heap\<close> takes the next 26 free frames and reserves them, and places the heap at the first of
  them. The 26 pages of the heap are then free of frames that were reserved or allocated before
  exactly when the frames are consecutive, which the code does not check.\<close>

theorem map_heap_frames:
  assumes "FRAME_ALLOCATOR m = Some a" "fa_wf a" "available_start a \<le> next_frame a" "reserved_count a + 26 \<le> MAX_RESERVED_REGIONS"
    "filter (\<lambda>f. f \<in> fa_free a) [next_frame a..<e] = fs" "length fs = 26"
    "hd fs * 4096 + HEAP_SIZE + unat (PHYSICAL_MEMORY_OFFSET m) < 2 ^ 64"
  shows "\<exists>m' a'. map_heap m = Ret (m', Ok ()) \<and> FRAME_ALLOCATOR m' = Some a' \<and> fa_wf a'
    \<and> fa_reserved a' = fa_reserved a \<union> set fs
    \<and> ACTUAL_HEAP_START m' = hd fs * 4096 + unat (PHYSICAL_MEMORY_OFFSET m)
    \<and> (fs = [hd fs..<hd fs + 26] \<longleftrightarrow> (\<forall>f \<in> {hd fs..<hd fs + 26}. f \<in> fa_free a))"
proof -
  have n: "(HEAP_SIZE + 4095) div 4096 = 26" by (simp add: HEAP_SIZE_def)
  have hd: "hd (fs @ [0]) = hd fs" using assms(6) by (cases fs) auto
  obtain a1 where a1: "heap_frames_loop [] [0..<26] m = Ret (m\<lparr>FRAME_ALLOCATOR := Some a1\<rparr>, Ok fs)" "takes a fs a1"
    using heap_frames_loop_spec [OF assms(1-3,5), of "[0..<26]" "[]"] assms(6) by (auto simp: MAX_HEAP_FRAMES_def)
  let ?m1 = "m\<lparr>FRAME_ALLOCATOR := Some a1\<rparr>"
  obtain a2 where a2: "reserve_heap_loop fs ?m1 = Ret (?m1\<lparr>FRAME_ALLOCATOR := Some a2\<rparr>, Ok ())" "fa_wf a2"
    "fa_reserved a2 = fa_reserved a1 \<union> set fs"
    using reserve_heap_loop_spec [of ?m1 a1 fs] a1(2) assms(4,6) by (auto simp: takes_def)
  define h where "h = hd fs * 4096"
  have e: "hd (fs @ [0]) * 4096 = h" by (simp add: h_def hd)
  have b: "h + HEAP_SIZE + unat (PHYSICAL_MEMORY_OFFSET m) < 2 ^ 64" using assms(7) by (simp add: h_def)
  have u: "unat (of_nat h :: u64) = h" using b by (simp add: unsigned_of_nat take_bit_nat_eq_self)
  have v: "unat (of_nat h + PHYSICAL_MEMORY_OFFSET m) = h + unat (PHYSICAL_MEMORY_OFFSET m)"
    using b u by (simp add: unat_word_ariths)
  have p: "phys_to_virt (of_nat h) ?m1 = Ret (?m1, Ok (of_nat h + PHYSICAL_MEMORY_OFFSET m))"
    using b u by (simp add: phys_to_virt_def)
  have "map_heap m = Ret (?m1\<lparr>FRAME_ALLOCATOR := Some a2, ACTUAL_HEAP_START := h + unat (PHYSICAL_MEMORY_OFFSET m)\<rparr>, Ok ())"
    unfolding map_heap_def n bindP_def a1(1) outcome.case prod.case result.case Let_def e using a2(1) b u v p
    by (simp add: retP_def modP_def)
  moreover have "fs = [hd fs..<hd fs + 26] \<longleftrightarrow> (\<forall>f \<in> {hd fs..<hd fs + 26}. f \<in> fa_free a)"
    using consecutive_iff [OF assms(5)] assms(6) by fastforce
  ultimately show ?thesis using a2(2,3) a1(2) by (auto simp: takes_def h_def)
qed

theorem map_heap_frames_witness:
  "\<exists>m m' a'. init_from_bootloader sample_boot 0 0x5000 sample_memory = Ret m \<and> map_heap m = Ret (m', Ok ())
    \<and> ACTUAL_HEAP_START m' = 4096 \<and> FRAME_ALLOCATOR m' = Some a' \<and> 27 \<in> fa_reserved a'"
proof -
  obtain m a where i: "init_from_bootloader sample_boot 0 0x5000 sample_memory = Ret m" "FRAME_ALLOCATOR m = Some a" "fa_wf a"
    "fa_allocated a = {}" "available_start a = 1" "available_end a = 4097" "next_frame a = 1" "reserved_count a \<le> 4"
    "fa_reserved a = {0} \<union> {256..<2048} \<union> {unat (0 div 4096 :: u64)} \<union> {unat (0x5000 div 4096 :: u64)}"
    "PHYSICAL_MEMORY_OFFSET m = bi_physical_memory_offset sample_boot"
    by (rule init_spec [OF sample_boot_facts(1,2) _ _ sample_boot_facts(3), of 0 "0x5000" sample_memory])
      (auto simp: MAX_TRACKED_FRAMES_def)
  let ?fs = "[1, 2, 3, 4, 6, 7, 8, 9, 10, 11, 12, 13, 14, 15, 16, 17, 18, 19, 20, 21, 22, 23, 24, 25, 26, 27]"
  have free: "fa_free a = {1..<4097} - {0} - {256..<2048} - {5}" using i by (auto simp: fa_free_def)
  have u: "[1..<28] = [1 :: nat, 2, 3, 4, 5, 6, 7, 8, 9, 10, 11, 12, 13, 14, 15, 16, 17, 18, 19, 20, 21, 22, 23, 24, 25, 26, 27]" by code_simp
  have fs: "filter (\<lambda>f. f \<in> fa_free a) [next_frame a..<28] = ?fs" unfolding free i(7) u by simp
  have "hd ?fs * 4096 + HEAP_SIZE + unat (PHYSICAL_MEMORY_OFFSET m) < 2 ^ 64"
    by (simp add: i(10) sample_boot_def HEAP_SIZE_def)
  from map_heap_frames [OF i(2,3) _ _ fs _ this] i(5,7,8,10) obtain m' a' where
    "map_heap m = Ret (m', Ok ())" "FRAME_ALLOCATOR m' = Some a'" "fa_reserved a' = fa_reserved a \<union> set ?fs"
    "ACTUAL_HEAP_START m' = 4096"
    by (auto simp: MAX_RESERVED_REGIONS_def sample_boot_def)
  with i(1) show ?thesis by auto
qed

end
