(* ===== verification/BTree_Map.thy ===== *)
theory BTree_Map
  imports Panda_Prelude "HOL-Library.Char_ord" "HOL-Library.List_Lexorder"
begin

text \<open>
  Rust's \<open>BTreeMap\<close> as an association list sorted by key, so that iteration visits the keys in
  order, and the \<open>str\<close> functions the kernel uses. Strings are lists of bytes and are compared
  lexicographically, as in Rust. The locale \<open>dictionary\<close> has the laws that the file systems
  use; \<open>bt_get\<close>, \<open>bt_insert\<close> and \<open>bt_remove\<close> satisfy them.
\<close>

section \<open>Maps\<close>

type_synonym ('k, 'v) btree = "('k \<times> 'v) list"

definition bt_get :: "('k, 'v) btree \<Rightarrow> 'k \<Rightarrow> 'v option" where
  "bt_get m k = map_of m k"

definition bt_insert :: "'k::linorder \<Rightarrow> 'v \<Rightarrow> ('k, 'v) btree \<Rightarrow> ('k, 'v) btree" where
  "bt_insert k v m =
     takeWhile (\<lambda>e. fst e < k) m @ (k, v) # filter (\<lambda>e. fst e \<noteq> k) (dropWhile (\<lambda>e. fst e < k) m)"

definition bt_remove :: "'k \<Rightarrow> ('k, 'v) btree \<Rightarrow> ('k, 'v) btree" where
  "bt_remove k m = filter (\<lambda>e. fst e \<noteq> k) m"

definition bt_ok :: "('k::linorder, 'v) btree \<Rightarrow> bool" where
  "bt_ok m \<longleftrightarrow> sorted_wrt (<) (map fst m)"

locale dictionary =
  fixes get :: "'m \<Rightarrow> 'k \<Rightarrow> 'v option"
    and ins :: "'k \<Rightarrow> 'v \<Rightarrow> 'm \<Rightarrow> 'm"
    and del :: "'k \<Rightarrow> 'm \<Rightarrow> 'm"
  assumes get_ins: "get (ins k v m) = (get m)(k \<mapsto> v)"
    and get_del: "get (del k m) = (get m)(k := None)"
begin

lemma get_ins_same: "get (ins k v m) k = Some v"
  by (simp add: get_ins)

lemma get_ins_other: "k \<noteq> k' \<Longrightarrow> get (ins k v m) k' = get m k'"
  by (simp add: get_ins)

lemma get_del_same: "get (del k m) k = None"
  by (simp add: get_del)

lemma get_del_other: "k \<noteq> k' \<Longrightarrow> get (del k m) k' = get m k'"
  by (simp add: get_del)

lemma del_ins: "get m k = None \<Longrightarrow> get (del k (ins k v m)) = get m"
  by (auto simp: get_ins get_del)

lemma dom_ins: "dom (get (ins k v m)) = insert k (dom (get m))"
  by (simp add: get_ins)

lemma dom_del: "dom (get (del k m)) = dom (get m) - {k}"
  by (simp add: get_del)

end

lemma bt_get_insert: "bt_get (bt_insert k v m) = (bt_get m)(k \<mapsto> v)"
proof
  show "bt_get (bt_insert k v m) x = ((bt_get m)(k \<mapsto> v)) x" for x
  proof (induction m)
    case Nil
    then show ?case by (simp add: bt_get_def bt_insert_def)
  next
    case (Cons e m)
    have "map_of (filter (\<lambda>e. fst e \<noteq> k) m) x = (if x = k then None else map_of m x)"
      by (induction m) auto
    with Cons show ?case by (auto simp: bt_get_def bt_insert_def)
  qed
qed

lemma bt_get_remove: "bt_get (bt_remove k m) = (bt_get m)(k := None)"
proof
  show "bt_get (bt_remove k m) x = ((bt_get m)(k := None)) x" for x
    by (induction m) (auto simp: bt_get_def bt_remove_def)
qed

interpretation bt: dictionary bt_get bt_insert bt_remove
  by unfold_locales (rule bt_get_insert bt_get_remove)+

lemmas bt_simps [simp] = bt_get_insert bt_get_remove

lemma bt_get_Nil [simp]: "bt_get [] k = None"
  by (simp add: bt_get_def)

lemma bt_ok_Cons:
  "bt_ok (e # m) \<longleftrightarrow> (\<forall>e' \<in> set m. fst e < fst e') \<and> bt_ok m"
  by (auto simp: bt_ok_def)

lemma bt_remove_ok: "bt_ok m \<Longrightarrow> bt_ok (bt_remove k m)"
  by (induction m) (auto simp: bt_ok_Cons bt_remove_def)

lemma bt_insert_ok: "bt_ok m \<Longrightarrow> bt_ok (bt_insert k v m)"
proof (induction m)
  case Nil
  then show ?case by (simp add: bt_insert_def bt_ok_def)
next
  case (Cons e m)
  show ?case
  proof (cases "fst e < k")
    case True
    then have "bt_insert k v (e # m) = e # bt_insert k v m" by (simp add: bt_insert_def)
    moreover have "set (bt_insert k v m) \<subseteq> insert (k, v) (set m)"
      by (auto simp: bt_insert_def dest: set_takeWhileD set_dropWhileD)
    ultimately show ?thesis using Cons True by (fastforce simp: bt_ok_Cons)
  next
    case False
    then have "bt_insert k v (e # m) = (k, v) # bt_remove k (e # m)"
      by (simp add: bt_insert_def bt_remove_def)
    moreover have "\<forall>e' \<in> set (bt_remove k (e # m)). k < fst e'"
    proof
      fix e' assume "e' \<in> set (bt_remove k (e # m))"
      then have "fst e' \<noteq> k" "e' = e \<or> e' \<in> set m" by (auto simp: bt_remove_def split: if_splits)
      moreover have "fst e \<le> fst e'" if "e' \<in> set m" using that Cons.prems by (auto simp: bt_ok_Cons less_imp_le)
      ultimately show "k < fst e'" using False by (auto simp: not_less)
    qed
    ultimately show ?thesis using bt_remove_ok [OF Cons.prems] by (simp add: bt_ok_Cons)
  qed
qed

lemma bt_ok_distinct: "bt_ok m \<Longrightarrow> distinct (map fst m)"
  by (simp add: bt_ok_def strict_sorted_iff)

lemma bt_get_iff: "bt_ok m \<Longrightarrow> bt_get m k = Some v \<longleftrightarrow> (k, v) \<in> set m"
  by (simp add: bt_get_def bt_ok_distinct)

lemma bt_get_dom: "dom (bt_get m) = fst ` set m"
  by (simp add: bt_get_def [abs_def] dom_map_of_conv_image_fst)

section \<open>Strings\<close>

text \<open>\<open>s.split(c)\<close>\<close>

fun str_split :: "char \<Rightarrow> string \<Rightarrow> string list" where
  "str_split c [] = [[]]"
| "str_split c (x # xs) =
     (if x = c then [] # str_split c xs
      else (case str_split c xs of [] \<Rightarrow> [[x]] | w # ws \<Rightarrow> (x # w) # ws))"

text \<open>\<open>s.split(c).filter(|s| !s.is_empty())\<close>\<close>

definition path_components :: "string \<Rightarrow> string list" where
  "path_components s = filter (\<lambda>w. w \<noteq> []) (str_split (CHR ''/'') s)"

definition strip_prefix_slash :: "string \<Rightarrow> string" where
  "strip_prefix_slash s = (case s of [] \<Rightarrow> [] | x # xs \<Rightarrow> if x = CHR ''/'' then xs else s)"

text \<open>\<open>s.rfind('/')\<close> splits the string before and after the last slash.\<close>

definition rsplit_slash :: "string \<Rightarrow> (string \<times> string) option" where
  "rsplit_slash s =
     (if CHR ''/'' \<in> set s
      then Some (rev (tl (dropWhile (\<lambda>x. x \<noteq> CHR ''/'') (rev s))), rev (takeWhile (\<lambda>x. x \<noteq> CHR ''/'') (rev s)))
      else None)"

lemma str_split_nonempty [simp]: "str_split c s \<noteq> []"
  by (induction s) (auto split: list.splits)

lemma str_split_no_sep: "w \<in> set (str_split c s) \<Longrightarrow> c \<notin> set w"
  by (induction s arbitrary: w) (auto split: if_splits list.splits)

lemma str_split_word: "c \<notin> set w \<Longrightarrow> str_split c w = [w]"
  by (induction w) auto

lemma str_split_append: "c \<notin> set w \<Longrightarrow> str_split c (w @ c # s) = w # str_split c s"
  by (induction w) auto

lemma path_components_word: "w \<in> set (path_components s) \<Longrightarrow> w \<noteq> [] \<and> CHR ''/'' \<notin> set w"
  by (auto simp: path_components_def dest: str_split_no_sep)

lemma path_components_Nil [simp]: "path_components [] = []"
  by (simp add: path_components_def)

lemma path_components_slash [simp]: "path_components (CHR ''/'' # s) = path_components s"
  by (simp add: path_components_def)

lemma path_components_single:
  "w \<noteq> [] \<Longrightarrow> CHR ''/'' \<notin> set w \<Longrightarrow> path_components w = [w]"
  by (simp add: path_components_def str_split_word)

lemma path_components_append:
  "w \<noteq> [] \<Longrightarrow> CHR ''/'' \<notin> set w \<Longrightarrow> path_components (w @ CHR ''/'' # s) = w # path_components s"
  by (simp add: path_components_def str_split_append)

end
