(* ===== verification/Kernel_Errors.thy ===== *)
theory Kernel_Errors
  imports Panda_Prelude
begin

text \<open>The error codes of the kernel, \<open>ErrorCode\<close> in \<open>kernel/src/syscall.rs\<close>, and the
  negative value a system call returns for one.\<close>

datatype error_code =
  EPERM | ENOENT | ESRCH | EINTR | EIO | EBADF | EAGAIN | ENOMEM | EACCES | EFAULT | EEXIST
| ENOTDIR | EISDIR | EINVAL | EMFILE | EROFS | ENOEXEC | E2BIG | EPIPE | ERANGE | ENOSYS
| ENOTEMPTY | ESPIPE | EXDEV

primrec errno :: "error_code \<Rightarrow> int" where
  "errno EPERM = 1"
| "errno ENOENT = 2"
| "errno ESRCH = 3"
| "errno EINTR = 4"
| "errno EIO = 5"
| "errno EBADF = 9"
| "errno EAGAIN = 11"
| "errno ENOMEM = 12"
| "errno EACCES = 13"
| "errno EFAULT = 14"
| "errno EEXIST = 17"
| "errno ENOTDIR = 20"
| "errno EISDIR = 21"
| "errno EINVAL = 22"
| "errno EMFILE = 24"
| "errno EROFS = 30"
| "errno ENOEXEC = 8"
| "errno E2BIG = 7"
| "errno EPIPE = 32"
| "errno ERANGE = 34"
| "errno ENOSYS = 38"
| "errno ENOTEMPTY = 39"
| "errno ESPIPE = 29"
| "errno EXDEV = 18"

definition to_syscall_result :: "error_code \<Rightarrow> int" where
  "to_syscall_result e = - errno e"

lemma errno_inj: "errno a = errno b \<Longrightarrow> a = b"
  by (cases a; cases b) simp_all

lemma to_syscall_result_neg: "to_syscall_result e < 0"
  by (cases e) (simp_all add: to_syscall_result_def)

end
