(* ===== verification/Vfs_Base.thy ===== *)
theory Vfs_Base
  imports BTree_Map Kernel_Errors
begin

unbundle bit_operations_syntax

text \<open>
  The parts of \<open>kernel/src/fs.rs\<close> that the file systems share: file types, mode bits, metadata,
  the permission checks and the resolution of paths.
\<close>

section \<open>Modes and metadata\<close>

datatype file_type = FileT | DirectoryT

definition S_IFDIR :: u16 where
  "S_IFDIR = 16384"

definition S_IFREG :: u16 where
  "S_IFREG = 32768"

definition S_IFMT :: u16 where
  "S_IFMT = 61440"

definition S_IRUSR :: u16 where
  "S_IRUSR = 256"

definition S_IWUSR :: u16 where
  "S_IWUSR = 128"

definition S_IXUSR :: u16 where
  "S_IXUSR = 64"

definition S_IRGRP :: u16 where
  "S_IRGRP = 32"

definition S_IWGRP :: u16 where
  "S_IWGRP = 16"

definition S_IXGRP :: u16 where
  "S_IXGRP = 8"

definition S_IROTH :: u16 where
  "S_IROTH = 4"

definition S_IWOTH :: u16 where
  "S_IWOTH = 2"

definition S_IXOTH :: u16 where
  "S_IXOTH = 1"

text \<open>\<open>0o755\<close> is 493 and \<open>0o644\<close> is 420.\<close>

definition DEFAULT_DIR_MODE :: u16 where
  "DEFAULT_DIR_MODE = S_IFDIR OR 493"

definition DEFAULT_FILE_MODE :: u16 where
  "DEFAULT_FILE_MODE = S_IFREG OR 420"

record file_metadata =
  md_file_type :: file_type
  md_size :: u64
  md_mode :: u16
  md_uid :: u32
  md_gid :: u32

definition md_is_dir :: "file_metadata \<Rightarrow> bool" where
  "md_is_dir m \<longleftrightarrow> md_file_type m = DirectoryT"

definition md_is_file :: "file_metadata \<Rightarrow> bool" where
  "md_is_file m \<longleftrightarrow> md_file_type m = FileT"

section \<open>Permissions\<close>

definition can_read :: "u32 \<Rightarrow> u32 \<Rightarrow> u32 \<Rightarrow> u32 \<Rightarrow> u16 \<Rightarrow> bool" where
  "can_read proc_uid proc_gid file_uid file_gid mode \<longleftrightarrow>
     (if proc_uid = 0 then mode AND (S_IRUSR OR S_IRGRP OR S_IROTH) \<noteq> 0
      else if proc_uid = file_uid then mode AND S_IRUSR \<noteq> 0
      else if proc_gid = file_gid then mode AND S_IRGRP \<noteq> 0
      else mode AND S_IROTH \<noteq> 0)"

definition can_write :: "u32 \<Rightarrow> u32 \<Rightarrow> u32 \<Rightarrow> u32 \<Rightarrow> u16 \<Rightarrow> bool" where
  "can_write proc_uid proc_gid file_uid file_gid mode \<longleftrightarrow>
     (if proc_uid = 0 then mode AND (S_IWUSR OR S_IWGRP OR S_IWOTH) \<noteq> 0
      else if proc_uid = file_uid then mode AND S_IWUSR \<noteq> 0
      else if proc_gid = file_gid then mode AND S_IWGRP \<noteq> 0
      else mode AND S_IWOTH \<noteq> 0)"

definition can_exec :: "u32 \<Rightarrow> u32 \<Rightarrow> u32 \<Rightarrow> u32 \<Rightarrow> u16 \<Rightarrow> bool" where
  "can_exec proc_uid proc_gid file_uid file_gid mode \<longleftrightarrow>
     (if proc_uid = 0 then mode AND (S_IXUSR OR S_IXGRP OR S_IXOTH) \<noteq> 0
      else if proc_uid = file_uid then mode AND S_IXUSR \<noteq> 0
      else if proc_gid = file_gid then mode AND S_IXGRP \<noteq> 0
      else mode AND S_IXOTH \<noteq> 0)"

definition can_traverse :: "u32 \<Rightarrow> u32 \<Rightarrow> u32 \<Rightarrow> u32 \<Rightarrow> u16 \<Rightarrow> bool" where
  "can_traverse proc_uid proc_gid file_uid file_gid mode = can_exec proc_uid proc_gid file_uid file_gid mode"

definition can_list :: "u32 \<Rightarrow> u32 \<Rightarrow> u32 \<Rightarrow> u32 \<Rightarrow> u16 \<Rightarrow> bool" where
  "can_list proc_uid proc_gid file_uid file_gid mode = can_read proc_uid proc_gid file_uid file_gid mode"

section \<open>Paths\<close>

text \<open>One component of the loop of \<open>normalize_path\<close>; the stack grows at its end.\<close>

definition path_step :: "string list \<Rightarrow> string \<Rightarrow> string list" where
  "path_step components c =
     (if c = [] \<or> c = ''.'' then components
      else if c = ''..'' then (if components \<noteq> [] then butlast components else components)
      else components @ [c])"

fun join_slash :: "string list \<Rightarrow> string" where
  "join_slash [] = []"
| "join_slash [w] = w"
| "join_slash (w # ws) = w @ CHR ''/'' # join_slash ws"

definition starts_with_slash :: "string \<Rightarrow> bool" where
  "starts_with_slash s \<longleftrightarrow> (case s of [] \<Rightarrow> False | x # xs \<Rightarrow> x = CHR ''/'')"

definition ends_with_slash :: "string \<Rightarrow> bool" where
  "ends_with_slash s \<longleftrightarrow> s \<noteq> [] \<and> last s = CHR ''/''"

definition normalize_path :: "string \<Rightarrow> (string, error_code) result" where
  "normalize_path path =
     (if \<not> starts_with_slash path then Err EINVAL
      else
        let components = foldl path_step [] (str_split (CHR ''/'') path) in
        if components = [] then Ok ''/'' else Ok (CHR ''/'' # join_slash components))"

definition resolve_path :: "string \<Rightarrow> string \<Rightarrow> (string, error_code) result" where
  "resolve_path cwd path =
     (if starts_with_slash path then normalize_path path
      else normalize_path (if ends_with_slash cwd then cwd @ path else cwd @ CHR ''/'' # path))"

section \<open>Lemmas on paths\<close>

definition normal_name :: "string \<Rightarrow> bool" where
  "normal_name w \<longleftrightarrow> w \<noteq> [] \<and> w \<noteq> ''.'' \<and> w \<noteq> ''..'' \<and> CHR ''/'' \<notin> set w"

lemma path_step_empty [simp]: "path_step cs [] = cs"
  by (simp add: path_step_def)

lemma foldl_path_step_filter: "foldl path_step cs (filter (\<lambda>w. w \<noteq> []) ws) = foldl path_step cs ws"
  by (induction ws arbitrary: cs) auto

lemma foldl_path_step_components:
  "foldl path_step cs (str_split (CHR ''/'') p) = foldl path_step cs (path_components p)"
  by (simp add: path_components_def foldl_path_step_filter)

lemma path_step_normal:
  "\<forall>w \<in> set cs. normal_name w \<Longrightarrow> CHR ''/'' \<notin> set c \<Longrightarrow> \<forall>w \<in> set (path_step cs c). normal_name w"
  by (auto simp: path_step_def normal_name_def dest: in_set_butlastD)

lemma foldl_path_step_normal:
  "\<forall>w \<in> set ws. CHR ''/'' \<notin> set w \<Longrightarrow> \<forall>w \<in> set cs. normal_name w \<Longrightarrow>
   \<forall>w \<in> set (foldl path_step cs ws). normal_name w"
proof (induction ws arbitrary: cs)
  case Nil
  then show ?case by simp
next
  case (Cons c ws)
  then show ?case using path_step_normal [of cs c] by simp
qed

lemma foldl_path_step_id:
  "\<forall>w \<in> set ws. normal_name w \<Longrightarrow> foldl path_step cs ws = cs @ ws"
  by (induction ws arbitrary: cs) (auto simp: path_step_def normal_name_def)

lemma path_components_join:
  "\<forall>w \<in> set ws. normal_name w \<Longrightarrow> path_components (join_slash ws) = ws"
proof (induction ws rule: join_slash.induct)
  case (3 w v vs)
  then have "w \<noteq> []" "CHR ''/'' \<notin> set w" by (auto simp: normal_name_def)
  with 3 show ?case by (simp add: path_components_append)
qed (auto simp: normal_name_def path_components_single)

text \<open>The components a path denotes.\<close>

definition walk :: "string list \<Rightarrow> string \<Rightarrow> string list" where
  "walk cs p = foldl path_step cs (path_components p)"

lemma walk_normal: "\<forall>w \<in> set cs. normal_name w \<Longrightarrow> \<forall>w \<in> set (walk cs p). normal_name w"
  unfolding walk_def by (rule foldl_path_step_normal) (auto dest: path_components_word)

lemma normalize_path_walk:
  "normalize_path p = (if starts_with_slash p then Ok (CHR ''/'' # join_slash (walk [] p)) else Err EINVAL)"
  by (auto simp: normalize_path_def walk_def foldl_path_step_components Let_def)

lemma walk_join: "\<forall>w \<in> set ws. normal_name w \<Longrightarrow> walk [] (CHR ''/'' # join_slash ws) = ws"
  by (simp add: walk_def path_components_join foldl_path_step_id)

lemma str_split_app: "str_split c (a @ c # b) = str_split c a @ str_split c b"
proof (induction a)
  case Nil
  then show ?case by simp
next
  case (Cons x a)
  then show ?case by (cases "str_split c a") auto
qed

lemma path_components_app: "path_components (a @ CHR ''/'' # b) = path_components a @ path_components b"
  by (simp add: path_components_def str_split_app)

lemma walk_app: "walk cs (a @ CHR ''/'' # b) = walk (walk cs a) b"
  by (simp add: walk_def path_components_app)

text \<open>C21: \<open>normalize_path\<close> accepts exactly the absolute paths. Its result is absolute, has no
  empty, \<open>.\<close> or \<open>..\<close> component (so it never leads above the root), and is a fixed point:
  normalizing it again changes nothing.\<close>

theorem normalize_path_normal:
  "case normalize_path p of
     Err e \<Rightarrow> \<not> starts_with_slash p \<and> e = EINVAL
   | Ok r \<Rightarrow> starts_with_slash p \<and> starts_with_slash r \<and> list_all normal_name (path_components r)
           \<and> normalize_path r = Ok r"
proof (cases "starts_with_slash p")
  case False
  then show ?thesis by (simp add: normalize_path_walk)
next
  case True
  have n: "\<forall>w \<in> set (walk [] p). normal_name w" by (rule walk_normal) simp
  then show ?thesis
    using True by (simp add: normalize_path_walk walk_join path_components_join list_all_iff starts_with_slash_def)
qed

text \<open>C22: resolving a relative path against a normalized working directory walks from the
  components of the directory through those of the path, one step per component; an absolute
  path starts at the root. In particular resolving never fails.\<close>

theorem resolve_path_walks:
  assumes "normalize_path cwd = Ok cwd"
  shows "resolve_path cwd p = Ok (CHR ''/'' # join_slash
           (foldl path_step (if starts_with_slash p then [] else path_components cwd) (path_components p)))"
proof -
  have s: "starts_with_slash cwd" using assms by (simp add: normalize_path_walk split: if_splits)
  then have eq: "cwd = CHR ''/'' # join_slash (walk [] cwd)"
    using assms by (simp add: normalize_path_walk)
  have "path_components (CHR ''/'' # join_slash (walk [] cwd)) = walk [] cwd"
    using path_components_join [OF walk_normal [of "[]" cwd]] by simp
  then have pc: "path_components cwd = walk [] cwd" using eq by metis
  show ?thesis
  proof (cases "starts_with_slash p \<or> \<not> ends_with_slash cwd")
    case True
    then show ?thesis
      using s pc by (auto simp: resolve_path_def normalize_path_walk walk_app walk_def [of _ p]
          starts_with_slash_def split: list.splits)
  next
    case False
    then have "cwd = butlast cwd @ [CHR ''/'']"
      by (metis append_butlast_last_id ends_with_slash_def)
    then obtain c where c: "cwd = c @ [CHR ''/'']" by blast
    have "walk [] (cwd @ p) = walk (walk [] cwd) p"
      unfolding c using walk_app [of "[]" c p] walk_app [of "[]" c "[]"] by (simp add: walk_def)
    with False s pc show ?thesis
      by (auto simp: resolve_path_def normalize_path_walk walk_def [of _ p]
          starts_with_slash_def split: list.splits)
  qed
qed

theorem resolve_path_walks_witness:
  "resolve_path ''/tmp/a'' ''../b//./c'' = Ok ''/tmp/b/c''"
  using resolve_path_walks [of "''/tmp/a''" "''../b//./c''"]
  by (simp add: normalize_path_def starts_with_slash_def path_components_def path_step_def)

section \<open>Lemmas on permissions\<close>

lemmas mode_bits = S_IRUSR_def S_IWUSR_def S_IXUSR_def S_IRGRP_def S_IWGRP_def S_IXGRP_def
  S_IROTH_def S_IWOTH_def S_IXOTH_def

text \<open>The class of a process for a file: 2 for the owner, 1 for the group, 0 for others. The three
  permission bits of a class start at three times its number.\<close>

definition access_class :: "u32 \<Rightarrow> u32 \<Rightarrow> u32 \<Rightarrow> u32 \<Rightarrow> nat" where
  "access_class proc_uid proc_gid file_uid file_gid =
     (if proc_uid = file_uid then 2 else if proc_gid = file_gid then 1 else 0)"

lemma and_pow2: "(m AND w \<noteq> 0) = bit m k" if "w = 2 ^ k" for m w :: u16
  using that and_bit_nonzero [of m k] by simp

lemma and_or3: "(m AND (a OR b OR c) \<noteq> 0) \<longleftrightarrow> (m AND a \<noteq> 0) \<or> (m AND b \<noteq> 0) \<or> (m AND c \<noteq> 0)"
  for m a b c :: u16
proof -
  have "m AND (a OR b OR c) = (m AND a) OR (m AND b) OR (m AND c)" by (simp add: bit.conj_disj_distrib)
  then show ?thesis by (simp add: or_eq_0_iff)
qed

text \<open>C23: the permission checks are the Unix ones: a process other than root is granted read,
  write and execute access by bits 2, 1 and 0 of its class alone; root is granted an access when
  some class has its bit.\<close>

theorem permissions_reference:
  "can_read u g fu fg m = (if u = 0 then \<exists>c < 3. bit m (3 * c + 2) else bit m (3 * access_class u g fu fg + 2))
   \<and> can_write u g fu fg m = (if u = 0 then \<exists>c < 3. bit m (3 * c + 1) else bit m (3 * access_class u g fu fg + 1))
   \<and> can_exec u g fu fg m = (if u = 0 then \<exists>c < 3. bit m (3 * c) else bit m (3 * access_class u g fu fg))"
proof -
  have ex: "(\<exists>c < 3. P c) \<longleftrightarrow> P 2 \<or> P 1 \<or> P 0" for P :: "nat \<Rightarrow> bool"
  proof -
    have "c < 3 \<longleftrightarrow> c = 2 \<or> c = 1 \<or> c = 0" for c :: nat by linarith
    then show ?thesis by auto
  qed
  have b: "(m AND 256 \<noteq> 0) = bit m 8" "(m AND 128 \<noteq> 0) = bit m 7" "(m AND 64 \<noteq> 0) = bit m 6"
    "(m AND 32 \<noteq> 0) = bit m 5" "(m AND 16 \<noteq> 0) = bit m 4" "(m AND 8 \<noteq> 0) = bit m 3"
    "(m AND 4 \<noteq> 0) = bit m 2" "(m AND 2 \<noteq> 0) = bit m 1" "(m AND 1 \<noteq> 0) = bit m 0"
    by (rule and_pow2; simp)+
  show ?thesis
    unfolding can_read_def can_write_def can_exec_def mode_bits and_or3 b ex
    by (auto simp: access_class_def numeral_2_eq_2)
qed

end
