(* ===== verification/Tmpfs.thy ===== *)
theory Tmpfs
  imports Vfs_Base
begin

unbundle bit_operations_syntax

text \<open>
  The in-memory file system of \<open>kernel/src/tmpfs.rs\<close>: a table of inodes, each a file with its
  bytes or a directory from names to inodes, and a table of modes. Memory is not exhausted in the
  model; the overflow of the inode counter is a panic.
\<close>

section \<open>The file system of the source\<close>

type_synonym inode = u32

datatype tmpfs_node = TFile bytes | TDir "(string, inode) btree"

record tmpfs =
  tf_next_inode :: inode
  tf_nodes :: "(inode, tmpfs_node) btree"
  tf_modes :: "(inode, u16) btree"
  tf_root :: inode

definition new_file :: tmpfs_node where
  "new_file = TFile []"

definition new_directory :: tmpfs_node where
  "new_directory = TDir []"

fun node_file_type :: "tmpfs_node \<Rightarrow> file_type" where
  "node_file_type (TFile d) = FileT"
| "node_file_type (TDir es) = DirectoryT"

fun node_size :: "tmpfs_node \<Rightarrow> u64" where
  "node_size (TFile d) = of_nat (length d)"
| "node_size (TDir es) = 0"

definition tmpfs_new :: tmpfs where
  "tmpfs_new = \<lparr>tf_next_inode = 1 + 1, tf_nodes = bt_insert 1 new_directory [],
                tf_modes = bt_insert 1 DEFAULT_DIR_MODE [], tf_root = 1\<rparr>"

definition allocate_inode :: "tmpfs \<Rightarrow> (tmpfs \<times> inode) outcome" where
  "allocate_inode fs =
     (if tf_next_inode fs = - 1 then Panic
      else Ret (fs\<lparr>tf_next_inode := tf_next_inode fs + 1\<rparr>, tf_next_inode fs))"

fun lookup_loop :: "tmpfs \<Rightarrow> inode \<Rightarrow> string list \<Rightarrow> (inode, error_code) result" where
  "lookup_loop fs cur [] = Ok cur"
| "lookup_loop fs cur (c # cs) =
     (case bt_get (tf_nodes fs) cur of
        None \<Rightarrow> Err ENOENT
      | Some (TDir entries) \<Rightarrow>
          (case bt_get entries c of None \<Rightarrow> Err ENOENT | Some i \<Rightarrow> lookup_loop fs i cs)
      | Some (TFile d) \<Rightarrow> Err ENOTDIR)"

definition tf_lookup :: "tmpfs \<Rightarrow> inode \<Rightarrow> string \<Rightarrow> (inode, error_code) result" where
  "tf_lookup fs base path =
     (if path = [] \<or> path = ''/'' then Ok base else lookup_loop fs base (path_components path))"

definition bad_name :: "string \<Rightarrow> bool" where
  "bad_name name \<longleftrightarrow> name = [] \<or> CHR ''/'' \<in> set name"

text \<open>The entries of a directory, and the error for anything else.\<close>

definition dir_entries :: "tmpfs \<Rightarrow> inode \<Rightarrow> ((string, inode) btree, error_code) result" where
  "dir_entries fs i =
     (case bt_get (tf_nodes fs) i of
        None \<Rightarrow> Err ENOENT | Some (TDir es) \<Rightarrow> Ok es | Some (TFile d) \<Rightarrow> Err ENOTDIR)"

text \<open>\<open>nodes.get_mut(&inode)\<close> and a change of the entries of the directory found.\<close>

definition update_dir ::
  "tmpfs \<Rightarrow> inode \<Rightarrow> ((string, inode) btree \<Rightarrow> (string, inode) btree) \<Rightarrow> tmpfs \<times> (unit, error_code) result" where
  "update_dir fs i f =
     (case dir_entries fs i of
        Err e \<Rightarrow> (fs, Err e)
      | Ok es \<Rightarrow> (fs\<lparr>tf_nodes := bt_insert i (TDir (f es)) (tf_nodes fs)\<rparr>, Ok ()))"

definition tf_create :: "tmpfs \<Rightarrow> inode \<Rightarrow> string \<Rightarrow> bool \<Rightarrow> (tmpfs \<times> (inode, error_code) result) outcome" where
  "tf_create fs parent name is_dir =
     (if bad_name name then Ret (fs, Err EINVAL)
      else case dir_entries fs parent of
        Err e \<Rightarrow> Ret (fs, Err e)
      | Ok entries \<Rightarrow>
          if bt_get entries name \<noteq> None then Ret (fs, Err EEXIST)
          else bindO (allocate_inode fs) (\<lambda>(fs1, new_inode).
            let new_node = (if is_dir then new_directory else new_file);
                fs2 = fs1\<lparr>tf_nodes := bt_insert new_inode new_node (tf_nodes fs1)\<rparr>;
                mode = (if is_dir then DEFAULT_DIR_MODE else DEFAULT_FILE_MODE);
                fs3 = fs2\<lparr>tf_modes := bt_insert new_inode mode (tf_modes fs2)\<rparr>
            in case update_dir fs3 parent (bt_insert name new_inode) of
                 (fs4, Ok _) \<Rightarrow> Ret (fs4, Ok new_inode)
               | (fs4, Err e) \<Rightarrow> Ret (fs4, Err e)))"

definition tf_unlink :: "tmpfs \<Rightarrow> inode \<Rightarrow> string \<Rightarrow> tmpfs \<times> (unit, error_code) result" where
  "tf_unlink fs parent name =
     (if bad_name name then (fs, Err EINVAL)
      else case dir_entries fs parent of
        Err e \<Rightarrow> (fs, Err e)
      | Ok entries \<Rightarrow>
          (case bt_get entries name of
             None \<Rightarrow> (fs, Err ENOENT)
           | Some i \<Rightarrow>
               (case bt_get (tf_nodes fs) i of
                  None \<Rightarrow> (fs, Err ENOENT)
                | Some node \<Rightarrow>
                    if (case node of TDir es \<Rightarrow> es \<noteq> [] | TFile d \<Rightarrow> False) then (fs, Err ENOTEMPTY)
                    else (case update_dir fs parent (bt_remove name) of
                            (fs1, Err e) \<Rightarrow> (fs1, Err e)
                          | (fs1, Ok _) \<Rightarrow> (fs1\<lparr>tf_nodes := bt_remove i (tf_nodes fs1)\<rparr>, Ok ())))))"

text \<open>\<open>read\<close> returns the number of bytes and the caller's buffer.\<close>

definition tf_read :: "tmpfs \<Rightarrow> inode \<Rightarrow> nat \<Rightarrow> bytes \<Rightarrow> (nat \<times> bytes, error_code) result" where
  "tf_read fs i offset buffer =
     (case bt_get (tf_nodes fs) i of
        None \<Rightarrow> Err ENOENT
      | Some (TDir es) \<Rightarrow> Err EISDIR
      | Some (TFile data) \<Rightarrow>
          if offset \<ge> length data then Ok (0, buffer)
          else let available = length data - offset;
                   to_read = min available (length buffer)
               in Ok (to_read, overwrite buffer 0 (subslice data offset (offset + to_read))))"

text \<open>\<open>Vec::resize(n, 0)\<close>\<close>

definition resize0 :: "nat \<Rightarrow> bytes \<Rightarrow> bytes" where
  "resize0 n xs = take n xs @ replicate (n - length xs) 0"

definition write_bytes :: "bytes \<Rightarrow> nat \<Rightarrow> bytes \<Rightarrow> bytes" where
  "write_bytes file_data offset data =
     (let d1 = (if offset > length file_data then resize0 offset file_data else file_data) in
      if offset = length d1 then d1 @ data
      else let end_pos = offset + length data;
               d2 = (if end_pos > length d1 then resize0 end_pos d1 else d1)
           in overwrite d2 offset data)"

definition tf_write :: "tmpfs \<Rightarrow> inode \<Rightarrow> nat \<Rightarrow> bytes \<Rightarrow> tmpfs \<times> (nat, error_code) result" where
  "tf_write fs i offset data =
     (case bt_get (tf_nodes fs) i of
        None \<Rightarrow> (fs, Err ENOENT)
      | Some (TDir es) \<Rightarrow> (fs, Err EISDIR)
      | Some (TFile d) \<Rightarrow>
          (fs\<lparr>tf_nodes := bt_insert i (TFile (write_bytes d offset data)) (tf_nodes fs)\<rparr>, Ok (length data)))"

definition tf_truncate :: "tmpfs \<Rightarrow> inode \<Rightarrow> tmpfs \<times> (unit, error_code) result" where
  "tf_truncate fs i =
     (case bt_get (tf_nodes fs) i of
        None \<Rightarrow> (fs, Err ENOENT)
      | Some (TDir es) \<Rightarrow> (fs, Err EISDIR)
      | Some (TFile d) \<Rightarrow> (fs\<lparr>tf_nodes := bt_insert i (TFile []) (tf_nodes fs)\<rparr>, Ok ()))"

definition tf_stat :: "tmpfs \<Rightarrow> inode \<Rightarrow> (file_metadata, error_code) result" where
  "tf_stat fs i =
     (case bt_get (tf_nodes fs) i of
        None \<Rightarrow> Err ENOENT
      | Some node \<Rightarrow>
          let mode = (case bt_get (tf_modes fs) i of
                        Some m \<Rightarrow> m
                      | None \<Rightarrow> (case node_file_type node of DirectoryT \<Rightarrow> DEFAULT_DIR_MODE | FileT \<Rightarrow> DEFAULT_FILE_MODE))
          in Ok \<lparr>md_file_type = node_file_type node, md_size = node_size node, md_mode = mode,
                 md_uid = 0, md_gid = 0\<rparr>)"

text \<open>\<open>0o777\<close> is 511.\<close>

definition tf_chmod :: "tmpfs \<Rightarrow> inode \<Rightarrow> u16 \<Rightarrow> tmpfs \<times> (unit, error_code) result" where
  "tf_chmod fs i new_mode =
     (case bt_get (tf_nodes fs) i of
        None \<Rightarrow> (fs, Err ENOENT)
      | Some node \<Rightarrow>
          let file_type_bits = (case node_file_type node of DirectoryT \<Rightarrow> S_IFDIR | FileT \<Rightarrow> S_IFREG);
              permission_bits = new_mode AND 511
          in (fs\<lparr>tf_modes := bt_insert i (file_type_bits OR permission_bits) (tf_modes fs)\<rparr>, Ok ()))"

fun read_dir_loop :: "tmpfs \<Rightarrow> (string, inode) btree \<Rightarrow> ((string \<times> file_type) list, error_code) result" where
  "read_dir_loop fs [] = Ok []"
| "read_dir_loop fs ((name, child) # es) =
     (case bt_get (tf_nodes fs) child of
        None \<Rightarrow> Err ENOENT
      | Some node \<Rightarrow> bindR (read_dir_loop fs es) (\<lambda>r. Ok ((name, node_file_type node) # r)))"

definition tf_read_dir :: "tmpfs \<Rightarrow> inode \<Rightarrow> ((string \<times> file_type) list, error_code) result" where
  "tf_read_dir fs i = bindR (dir_entries fs i) (read_dir_loop fs)"

definition tf_rename ::
  "tmpfs \<Rightarrow> inode \<Rightarrow> string \<Rightarrow> inode \<Rightarrow> string \<Rightarrow> tmpfs \<times> (unit, error_code) result" where
  "tf_rename fs old_parent old_name new_parent new_name =
     (if bad_name old_name \<or> bad_name new_name then (fs, Err EINVAL)
      else case dir_entries fs old_parent of
        Err e \<Rightarrow> (fs, Err e)
      | Ok old_entries \<Rightarrow>
          (case bt_get old_entries old_name of
             None \<Rightarrow> (fs, Err ENOENT)
           | Some i \<Rightarrow>
               (case dir_entries fs new_parent of
                  Err e \<Rightarrow> (fs, Err e)
                | Ok new_entries \<Rightarrow>
                    if bt_get new_entries new_name \<noteq> None then (fs, Err EEXIST)
                    else (case update_dir fs old_parent (bt_remove old_name) of
                            (fs1, Err e) \<Rightarrow> (fs1, Err e)
                          | (fs1, Ok _) \<Rightarrow> update_dir fs1 new_parent (bt_insert new_name i)))))"

section \<open>Directory edges\<close>

abbreviation tf_get :: "tmpfs \<Rightarrow> inode \<Rightarrow> tmpfs_node option" where
  "tf_get fs \<equiv> bt_get (tf_nodes fs)"

definition edge :: "tmpfs \<Rightarrow> inode \<Rightarrow> string \<Rightarrow> inode \<Rightarrow> bool" where
  "edge fs p n i \<longleftrightarrow> (\<exists>es. tf_get fs p = Some (TDir es) \<and> bt_get es n = Some i)"

text \<open>The root is a directory, inode numbers are below the next one, every entry names an
  existing inode other than the root, no inode has two entries, names are proper and the entries
  of a directory are sorted.\<close>

definition tf_wf :: "tmpfs \<Rightarrow> bool" where
  "tf_wf fs \<longleftrightarrow>
     (\<exists>es. tf_get fs (tf_root fs) = Some (TDir es))
     \<and> (\<forall>i. tf_get fs i \<noteq> None \<longrightarrow> i < tf_next_inode fs)
     \<and> (\<forall>p n i. edge fs p n i \<longrightarrow> tf_get fs i \<noteq> None \<and> i \<noteq> tf_root fs \<and> \<not> bad_name n)
     \<and> (\<forall>p n p' n' i. edge fs p n i \<longrightarrow> edge fs p' n' i \<longrightarrow> p = p' \<and> n = n')
     \<and> (\<forall>p es. tf_get fs p = Some (TDir es) \<longrightarrow> bt_ok es)"

lemma tf_wf_root: "tf_wf fs \<Longrightarrow> \<exists>es. tf_get fs (tf_root fs) = Some (TDir es)"
  by (simp add: tf_wf_def)

lemma tf_wf_bound: "tf_wf fs \<Longrightarrow> tf_get fs i = Some nd \<Longrightarrow> i < tf_next_inode fs"
  by (simp add: tf_wf_def)

lemma tf_wf_edge: "tf_wf fs \<Longrightarrow> edge fs p n i \<Longrightarrow> \<exists>nd. tf_get fs i = Some nd"
  by (auto simp: tf_wf_def)

lemma tf_wf_sorted: "tf_wf fs \<Longrightarrow> tf_get fs p = Some (TDir es) \<Longrightarrow> bt_ok es"
  by (simp add: tf_wf_def)

lemma tf_wf_unique: "tf_wf fs \<Longrightarrow> edge fs p n i \<Longrightarrow> edge fs p' n' i \<Longrightarrow> p = p' \<and> n = n'"
  by (simp add: tf_wf_def)

lemma tf_wf_edge_root: "tf_wf fs \<Longrightarrow> edge fs p n i \<Longrightarrow> i \<noteq> tf_root fs \<and> \<not> bad_name n"
  by (simp add: tf_wf_def)

lemma edge_functional: "edge fs p n i \<Longrightarrow> edge fs p n j \<Longrightarrow> i = j"
  by (auto simp: edge_def)

lemma dir_entries_Ok [simp]: "dir_entries fs i = Ok es \<longleftrightarrow> tf_get fs i = Some (TDir es)"
  by (auto simp: dir_entries_def split: option.splits tmpfs_node.splits)

lemma update_dir_dir:
  "tf_get fs i = Some (TDir es) \<Longrightarrow>
   update_dir fs i f = (fs\<lparr>tf_nodes := bt_insert i (TDir (f es)) (tf_nodes fs)\<rparr>, Ok ())"
  by (simp add: update_dir_def dir_entries_def)

primrec resolves :: "tmpfs \<Rightarrow> inode \<Rightarrow> string list \<Rightarrow> inode \<Rightarrow> bool" where
  "resolves fs cur [] j \<longleftrightarrow> j = cur"
| "resolves fs cur (c # cs) j \<longleftrightarrow> (\<exists>k. edge fs cur c k \<and> resolves fs k cs j)"

lemma lookup_loop_resolves: "lookup_loop fs cur cs = Ok j \<longleftrightarrow> resolves fs cur cs j"
  by (induction cs arbitrary: cur)
    (auto simp: edge_def split: option.splits tmpfs_node.splits)

lemma resolves_mono:
  "(\<And>p n i. edge fs p n i \<Longrightarrow> edge fs' p n i) \<Longrightarrow> resolves fs cur cs j \<Longrightarrow> resolves fs' cur cs j"
  by (induction cs arbitrary: cur) (simp_all, blast)

lemma tf_lookup_mono:
  "(\<And>p n i. edge fs p n i \<Longrightarrow> edge fs' p n i) \<Longrightarrow> tf_lookup fs base path = Ok j \<Longrightarrow> tf_lookup fs' base path = Ok j"
  using resolves_mono [of fs fs'] by (auto simp: tf_lookup_def lookup_loop_resolves split: if_splits)

lemma tf_lookup_name: "\<not> bad_name n \<Longrightarrow> tf_lookup fs p n = Ok i \<longleftrightarrow> edge fs p n i"
  by (auto simp: tf_lookup_def bad_name_def path_components_single lookup_loop_resolves
      simp del: lookup_loop.simps)

section \<open>Creating\<close>

lemma tf_create_Ok:
  assumes wf: "tf_wf fs" and c: "tf_create fs parent name d = Ret (fs', Ok i)"
  shows "i = tf_next_inode fs" "\<not> bad_name name" "tf_next_inode fs \<noteq> - 1"
    and "\<exists>es. tf_get fs parent = Some (TDir es) \<and> bt_get es name = None
      \<and> tf_get fs' = (tf_get fs)(i \<mapsto> (if d then new_directory else new_file), parent \<mapsto> TDir (bt_insert name i es))"
    and "tf_root fs' = tf_root fs" "tf_next_inode fs' = tf_next_inode fs + 1"
    and "bt_get (tf_modes fs') i = Some (if d then DEFAULT_DIR_MODE else DEFAULT_FILE_MODE)"
proof -
  obtain es where es: "tf_get fs parent = Some (TDir es)" "bt_get es name = None" "\<not> bad_name name"
    using c by (auto simp: tf_create_def split: if_splits result.splits)
  have "parent < tf_next_inode fs" using tf_wf_bound [OF wf es(1)] .
  then have ne: "parent \<noteq> tf_next_inode fs" by auto
  have m: "tf_next_inode fs \<noteq> - 1"
    using c es by (auto simp: tf_create_def dir_entries_def allocate_inode_def split: if_splits)
  let ?fs = "fs\<lparr>tf_next_inode := tf_next_inode fs + 1,
      tf_nodes := bt_insert (tf_next_inode fs) (if d then new_directory else new_file) (tf_nodes fs),
      tf_modes := bt_insert (tf_next_inode fs) (if d then DEFAULT_DIR_MODE else DEFAULT_FILE_MODE) (tf_modes fs)\<rparr>"
  have "tf_get ?fs parent = Some (TDir es)" using es ne by simp
  from c es m update_dir_dir [OF this, of "bt_insert name (tf_next_inode fs)"]
  have r: "i = tf_next_inode fs"
    "fs' = ?fs\<lparr>tf_nodes := bt_insert parent (TDir (bt_insert name (tf_next_inode fs) es)) (tf_nodes ?fs)\<rparr>"
    by (cases d; simp add: tf_create_def dir_entries_def allocate_inode_def Let_def)+
  show "i = tf_next_inode fs" "\<not> bad_name name" "tf_next_inode fs \<noteq> - 1"
    using r es m by auto
  show "\<exists>es. tf_get fs parent = Some (TDir es) \<and> bt_get es name = None
      \<and> tf_get fs' = (tf_get fs)(i \<mapsto> (if d then new_directory else new_file), parent \<mapsto> TDir (bt_insert name i es))"
    using es r by (intro exI [of _ es]) simp
  show "tf_root fs' = tf_root fs" "tf_next_inode fs' = tf_next_inode fs + 1"
    "bt_get (tf_modes fs') i = Some (if d then DEFAULT_DIR_MODE else DEFAULT_FILE_MODE)"
    using r by simp_all
qed

lemma fresh_inode: "tf_wf fs \<Longrightarrow> tf_get fs (tf_next_inode fs) = None"
  by (metis tf_wf_bound less_irrefl not_Some_eq)

lemma tf_create_edges:
  assumes wf: "tf_wf fs" and c: "tf_create fs parent name d = Ret (fs', Ok i)"
  shows "edge fs' p n j \<longleftrightarrow> (p = parent \<and> n = name \<and> j = i) \<or> edge fs p n j"
proof -
  obtain es where es: "tf_get fs parent = Some (TDir es)" "bt_get es name = None"
      "tf_get fs' = (tf_get fs)(i \<mapsto> (if d then new_directory else new_file), parent \<mapsto> TDir (bt_insert name i es))"
    using tf_create_Ok(4) [OF wf c] by blast
  moreover have "tf_get fs i = None" "i \<noteq> parent"
    using fresh_inode [OF wf] tf_create_Ok(1) [OF wf c] es(1) by auto
  ultimately show ?thesis
    by (auto simp: edge_def new_directory_def new_file_def split: if_splits)
qed

lemma tf_create_wf:
  assumes wf: "tf_wf fs" and c: "tf_create fs parent name d = Ret (fs', Ok i)"
  shows "tf_wf fs'"
proof -
  note C = tf_create_Ok [OF wf c] and E = tf_create_edges [OF wf c]
  obtain es where es: "tf_get fs parent = Some (TDir es)" "bt_get es name = None"
      "tf_get fs' = (tf_get fs)(i \<mapsto> (if d then new_directory else new_file), parent \<mapsto> TDir (bt_insert name i es))"
    using C(4) by blast
  have fr: "tf_get fs i = None" using fresh_inode [OF wf] C(1) by simp
  have i: "i < tf_next_inode fs'" "tf_next_inode fs < tf_next_inode fs'"
    using C(1,3,6) word_less_inc by auto
  have new: "edge fs p n i \<Longrightarrow> False" for p n using tf_wf_edge [OF wf] fr by fastforce
  obtain re where re: "tf_get fs (tf_root fs) = Some (TDir re)" using tf_wf_root [OF wf] by blast
  show ?thesis unfolding tf_wf_def
  proof (intro conjI allI impI)
    show "\<exists>es. tf_get fs' (tf_root fs') = Some (TDir es)" using re fr es C(5) by auto
    show "j < tf_next_inode fs'" if "tf_get fs' j \<noteq> None" for j
      using that es i C(1) tf_wf_bound [OF wf, of j] tf_wf_bound [OF wf es(1)] by (auto split: if_splits)
    fix p n j p' n' assume e: "edge fs' p n j"
    show "tf_get fs' j \<noteq> None" "j \<noteq> tf_root fs'" "\<not> bad_name n"
      using e E C(2,5) es(3) fr re tf_wf_edge [OF wf] tf_wf_edge_root [OF wf] by fastforce+
    assume "edge fs' p' n' j"
    with e E new tf_wf_unique [OF wf] show "p = p'" "n = n'" by metis+
  next
    show "bt_ok x" if "tf_get fs' p = Some (TDir x)" for p x
      using that es tf_wf_sorted [OF wf]
      by (auto simp: new_directory_def new_file_def bt_insert_ok bt_ok_def [of "[]"] split: if_splits)
  qed
qed

section \<open>Removing and renaming\<close>

lemma tf_unlink_Ok:
  assumes u: "tf_unlink fs parent name = (fs', Ok x)"
  shows "\<exists>es i. tf_get fs parent = Some (TDir es) \<and> bt_get es name = Some i \<and> i \<noteq> parent
      \<and> (tf_get fs i = Some (TDir []) \<or> (\<exists>d. tf_get fs i = Some (TFile d)))
      \<and> tf_get fs' = (tf_get fs)(parent \<mapsto> TDir (bt_remove name es), i := None)
      \<and> tf_root fs' = tf_root fs \<and> tf_next_inode fs' = tf_next_inode fs"
proof -
  obtain es i nd where es: "tf_get fs parent = Some (TDir es)" "bt_get es name = Some i" "tf_get fs i = Some nd"
      "\<not> (case nd of TDir es \<Rightarrow> es \<noteq> [] | TFile d \<Rightarrow> False)"
    using u by (auto simp: tf_unlink_def split: if_splits result.splits option.splits)
  then have "i \<noteq> parent" by auto
  with es u update_dir_dir [OF es(1), of "bt_remove name"] show ?thesis
    by (intro exI [of _ es] exI [of _ i]) (auto simp: tf_unlink_def dir_entries_def split: if_splits tmpfs_node.splits)
qed

lemma tf_unlink_edges:
  assumes wf: "tf_wf fs" and u: "tf_unlink fs parent name = (fs', Ok x)"
  shows "edge fs' p n j \<longleftrightarrow> edge fs p n j \<and> \<not> (p = parent \<and> n = name)"
  using tf_unlink_Ok [OF u] by (auto simp: edge_def split: if_splits)

lemma tf_unlink_wf:
  assumes wf: "tf_wf fs" and u: "tf_unlink fs parent name = (fs', Ok x)"
  shows "tf_wf fs'"
proof -
  obtain es i where es: "tf_get fs parent = Some (TDir es)" "bt_get es name = Some i" "i \<noteq> parent"
      "tf_get fs' = (tf_get fs)(parent \<mapsto> TDir (bt_remove name es), i := None)"
      "tf_root fs' = tf_root fs" "tf_next_inode fs' = tf_next_inode fs"
    using tf_unlink_Ok [OF u] by blast
  note E = tf_unlink_edges [OF wf u]
  have ed: "edge fs parent name i" using es by (auto simp: edge_def)
  have ir: "i \<noteq> tf_root fs" using tf_wf_edge_root [OF wf ed] by simp
  obtain re where re: "tf_get fs (tf_root fs) = Some (TDir re)" using tf_wf_root [OF wf] by blast
  show ?thesis unfolding tf_wf_def
  proof (intro conjI allI impI)
    show "\<exists>es. tf_get fs' (tf_root fs') = Some (TDir es)" using re ir es by auto
    show "j < tf_next_inode fs'" if "tf_get fs' j \<noteq> None" for j
      using that es tf_wf_bound [OF wf] by (auto split: if_splits)
    fix p n j p' n' assume e: "edge fs' p n j"
    then have "edge fs p n j" "\<not> (p = parent \<and> n = name)" using E by auto
    then have "j \<noteq> i" using tf_wf_unique [OF wf ed] by blast
    then show "tf_get fs' j \<noteq> None" "j \<noteq> tf_root fs'" "\<not> bad_name n"
      using \<open>edge fs p n j\<close> es tf_wf_edge [OF wf] tf_wf_edge_root [OF wf] by fastforce+
    assume "edge fs' p' n' j"
    with e E tf_wf_unique [OF wf] show "p = p'" "n = n'" by metis+
  next
    show "bt_ok y" if "tf_get fs' p = Some (TDir y)" for p y
      using that es tf_wf_sorted [OF wf] by (auto simp: bt_remove_ok split: if_splits)
  qed
qed

lemma tf_rename_Ok:
  assumes r: "tf_rename fs op old np new = (fs', Ok x)"
  shows "\<exists>es es2 i. tf_get fs op = Some (TDir es) \<and> bt_get es old = Some i
      \<and> tf_get fs np = Some (TDir es2) \<and> bt_get es2 new = None \<and> \<not> bad_name new
      \<and> tf_get fs' = (tf_get fs)(op \<mapsto> TDir (bt_remove old es),
           np \<mapsto> TDir (bt_insert new i (if np = op then bt_remove old es else es2)))
      \<and> tf_root fs' = tf_root fs \<and> tf_next_inode fs' = tf_next_inode fs \<and> tf_modes fs' = tf_modes fs"
proof -
  obtain es es2 i where es: "tf_get fs op = Some (TDir es)" "bt_get es old = Some i"
      "tf_get fs np = Some (TDir es2)" "bt_get es2 new = None" "\<not> bad_name old" "\<not> bad_name new"
    using r by (auto simp: tf_rename_def split: if_splits result.splits option.splits)
  let ?fs = "fs\<lparr>tf_nodes := bt_insert op (TDir (bt_remove old es)) (tf_nodes fs)\<rparr>"
  have "tf_get ?fs np = Some (TDir (if np = op then bt_remove old es else es2))" using es by simp
  from es r update_dir_dir [OF es(1), of "bt_remove old"] update_dir_dir [OF this, of "bt_insert new i"]
  show ?thesis
    by (intro exI [of _ es] exI [of _ es2] exI [of _ i]) (auto simp: tf_rename_def dir_entries_def)
qed

lemma tf_rename_edges:
  assumes r: "tf_rename fs op old np new = (fs', Ok x)"
  obtains i where "edge fs op old i"
    "\<And>p n j. edge fs' p n j \<longleftrightarrow> (p = np \<and> n = new \<and> j = i) \<or> (edge fs p n j \<and> \<not> (p = op \<and> n = old))"
    "\<And>j. \<not> edge fs np new j"
  using tf_rename_Ok [OF r] by (fastforce simp: edge_def split: if_splits)

lemma tf_rename_wf:
  assumes wf: "tf_wf fs" and r: "tf_rename fs op old np new = (fs', Ok x)"
  shows "tf_wf fs'"
proof -
  obtain es es2 k where es: "tf_get fs op = Some (TDir es)" "bt_get es old = Some k"
      "tf_get fs np = Some (TDir es2)" "\<not> bad_name new"
      "tf_get fs' = (tf_get fs)(op \<mapsto> TDir (bt_remove old es),
           np \<mapsto> TDir (bt_insert new k (if np = op then bt_remove old es else es2)))"
      "tf_root fs' = tf_root fs" "tf_next_inode fs' = tf_next_inode fs"
    using tf_rename_Ok [OF r] by blast
  obtain i where i: "edge fs op old i"
    and E: "\<And>p n j. edge fs' p n j \<longleftrightarrow> (p = np \<and> n = new \<and> j = i) \<or> (edge fs p n j \<and> \<not> (p = op \<and> n = old))"
    and "\<And>j. \<not> edge fs np new j"
    by (rule tf_rename_edges [OF r]) (rule that)
  have dom: "tf_get fs' j = None \<longleftrightarrow> tf_get fs j = None" for j using es by auto
  obtain re where re: "tf_get fs (tf_root fs) = Some (TDir re)" using tf_wf_root [OF wf] by blast
  show ?thesis unfolding tf_wf_def
  proof (intro conjI allI impI)
    show "\<exists>es. tf_get fs' (tf_root fs') = Some (TDir es)" using re es by auto
    show "j < tf_next_inode fs'" if "tf_get fs' j \<noteq> None" for j
      using that dom es(7) tf_wf_bound [OF wf] by auto
    fix p n j p' n' assume "edge fs' p n j"
    then have e: "(p = np \<and> n = new \<and> j = i) \<or> (edge fs p n j \<and> \<not> (p = op \<and> n = old))"
      by (simp only: E)
    from e i have "\<exists>p0 n0. edge fs p0 n0 j" by (elim disjE) auto
    then obtain p0 n0 where "edge fs p0 n0 j" by (elim exE)
    from tf_wf_edge [OF wf this] tf_wf_edge_root [OF wf this]
    show "tf_get fs' j \<noteq> None" "j \<noteq> tf_root fs'" using dom es(6) by auto
    show "\<not> bad_name n" using e es(4) tf_wf_edge_root [OF wf, of p n j] by (elim disjE) auto
    assume "edge fs' p' n' j"
    then have e': "(p' = np \<and> n' = new \<and> j = i) \<or> (edge fs p' n' j \<and> \<not> (p' = op \<and> n' = old))"
      by (simp only: E)
    have u: "edge fs q m i \<Longrightarrow> q = op \<and> m = old" for q m
      using tf_wf_unique [OF wf _ i] by simp
    from e e' u tf_wf_unique [OF wf, of p n j p' n'] have "p = p' \<and> n = n'"
      by (elim disjE) auto
    then show "p = p'" "n = n'" by simp_all
  next
    show "bt_ok y" if "tf_get fs' p = Some (TDir y)" for p y
      using that es tf_wf_sorted [OF wf] by (auto simp: bt_remove_ok bt_insert_ok split: if_splits)
  qed
qed

section \<open>Reading and writing\<close>

lemma length_resize0: "length (resize0 n xs) = n"
  by (simp add: resize0_def)

lemma nth_resize0: "k < n \<Longrightarrow> resize0 n xs ! k = (if k < length xs then xs ! k else 0)"
  by (auto simp: resize0_def nth_append min_def)

lemma length_write_bytes: "length (write_bytes d off ys) = max (length d) (off + length ys)"
  by (auto simp: write_bytes_def Let_def length_resize0 max_def)

lemma nth_write_bytes:
  assumes "k < max (length d) (off + length ys)"
  shows "write_bytes d off ys ! k =
     (if off \<le> k \<and> k < off + length ys then ys ! (k - off) else if k < length d then d ! k else 0)"
  using assms
  by (auto simp: write_bytes_def Let_def length_resize0 nth_append nth_resize0 nth_overwrite)

lemma tf_write_get:
  assumes "tf_get fs i = Some (TFile d)"
  shows "tf_write fs i off ys = (fs\<lparr>tf_nodes := bt_insert i (TFile (write_bytes d off ys)) (tf_nodes fs)\<rparr>, Ok (length ys))"
  using assms by (simp add: tf_write_def)

lemma file_update_wf:
  assumes wf: "tf_wf fs" and f: "tf_get fs i = Some (TFile d)"
  shows "tf_wf (fs\<lparr>tf_nodes := bt_insert i (TFile d') (tf_nodes fs)\<rparr>)" (is "tf_wf ?fs")
proof -
  have e: "edge ?fs p n j \<longleftrightarrow> edge fs p n j" for p n j using f by (auto simp: edge_def)
  have g: "tf_get ?fs j = None \<longleftrightarrow> tf_get fs j = None" for j using f by auto
  have dr: "tf_get ?fs p = Some (TDir es) \<longleftrightarrow> tf_get fs p = Some (TDir es)" for p es using f by auto
  from wf show ?thesis unfolding tf_wf_def e g dr by simp
qed

lemma modes_update_wf: "tf_wf fs \<Longrightarrow> tf_wf (fs\<lparr>tf_modes := m\<rparr>)"
proof -
  have "edge (fs\<lparr>tf_modes := m\<rparr>) p n j \<longleftrightarrow> edge fs p n j" for p n j by (simp add: edge_def)
  then show "tf_wf fs \<Longrightarrow> tf_wf (fs\<lparr>tf_modes := m\<rparr>)" by (simp add: tf_wf_def)
qed

section \<open>Runs\<close>

lemma tf_create_Err:
  assumes wf: "tf_wf fs" and c: "tf_create fs parent name d = Ret (fs', Err e)"
  shows "fs' = fs"
proof (rule ccontr)
  assume "fs' \<noteq> fs"
  with c obtain es where es: "tf_get fs parent = Some (TDir es)" "bt_get es name = None" "\<not> bad_name name"
    by (auto simp: tf_create_def split: if_splits result.splits)
  have "parent \<noteq> tf_next_inode fs" using tf_wf_bound [OF wf es(1)] by auto
  then have "tf_get (fs\<lparr>tf_next_inode := n, tf_nodes := bt_insert (tf_next_inode fs) nd (tf_nodes fs), tf_modes := m\<rparr>) parent
      = Some (TDir es)" for n nd m using es by simp
  from c es update_dir_dir [OF this] show False
    by (auto simp: tf_create_def dir_entries_def allocate_inode_def Let_def split: if_splits)
qed

lemma update_dir_snd: "update_dir fs i f = (fs', r) \<Longrightarrow> r = Ok () \<or> fs' = fs"
  by (auto simp: update_dir_def split: result.splits)

lemma tf_unlink_Err: "tf_unlink fs parent name = (fs', Err e) \<Longrightarrow> fs' = fs"
  by (auto simp: tf_unlink_def split: if_splits result.splits option.splits prod.splits dest: update_dir_snd)

lemma tf_rename_Err:
  assumes "tf_rename fs op old np new = (fs', Err e)"
  shows "fs' = fs"
proof (rule ccontr)
  assume ne: "fs' \<noteq> fs"
  obtain es es2 i where es: "tf_get fs op = Some (TDir es)" "bt_get es old = Some i"
      "tf_get fs np = Some (TDir es2)" "bt_get es2 new = None" "\<not> bad_name old" "\<not> bad_name new"
    using assms ne by (auto simp: tf_rename_def split: if_splits result.splits option.splits)
  let ?fs = "fs\<lparr>tf_nodes := bt_insert op (TDir (bt_remove old es)) (tf_nodes fs)\<rparr>"
  have "tf_get ?fs np = Some (TDir (if np = op then bt_remove old es else es2))" using es by simp
  from es assms update_dir_dir [OF es(1), of "bt_remove old"] update_dir_dir [OF this, of "bt_insert new i"]
  show False by (simp add: tf_rename_def dir_entries_def)
qed

datatype tmpfs_op =
  OpCreate inode string bool | OpUnlink inode string | OpWrite inode nat bytes | OpTruncate inode
| OpChmod inode u16 | OpRename inode string inode string

primrec tf_exec :: "tmpfs_op \<Rightarrow> tmpfs \<Rightarrow> tmpfs outcome" where
  "tf_exec (OpCreate p n d) fs = bindO (tf_create fs p n d) (\<lambda>(fs', r). Ret fs')"
| "tf_exec (OpUnlink p n) fs = Ret (fst (tf_unlink fs p n))"
| "tf_exec (OpWrite i off d) fs = Ret (fst (tf_write fs i off d))"
| "tf_exec (OpTruncate i) fs = Ret (fst (tf_truncate fs i))"
| "tf_exec (OpChmod i m) fs = Ret (fst (tf_chmod fs i m))"
| "tf_exec (OpRename op old np new) fs = Ret (fst (tf_rename fs op old np new))"

fun tf_run :: "tmpfs_op list \<Rightarrow> tmpfs \<Rightarrow> tmpfs outcome" where
  "tf_run [] fs = Ret fs"
| "tf_run (x # xs) fs = bindO (tf_exec x fs) (tf_run xs)"

lemma tf_exec_wf:
  assumes wf: "tf_wf fs" and x: "tf_exec x fs = Ret fs'"
  shows "tf_wf fs'"
proof (cases x)
  case (OpCreate p n d)
  then obtain r where r: "tf_create fs p n d = Ret (fs', r)" using x by auto
  then show ?thesis using wf by (cases r) (auto dest: tf_create_wf [OF wf] tf_create_Err [OF wf])
next
  case (OpUnlink p n)
  obtain fs1 r where r: "tf_unlink fs p n = (fs1, r)" by fastforce
  then show ?thesis using wf x OpUnlink by (cases r) (auto dest: tf_unlink_wf [OF wf] tf_unlink_Err)
next
  case (OpRename op old np new)
  obtain fs1 r where r: "tf_rename fs op old np new = (fs1, r)" by fastforce
  then show ?thesis using wf x OpRename by (cases r) (auto dest: tf_rename_wf [OF wf] tf_rename_Err)
next
  case (OpWrite i off d)
  then show ?thesis using wf x file_update_wf [OF wf]
    by (auto simp: tf_write_def split: option.splits tmpfs_node.splits)
next
  case (OpTruncate i)
  then show ?thesis using wf x file_update_wf [OF wf]
    by (auto simp: tf_truncate_def split: option.splits tmpfs_node.splits)
next
  case (OpChmod i m)
  then show ?thesis using wf x modes_update_wf [OF wf]
    by (auto simp: tf_chmod_def Let_def split: option.splits)
qed

lemma tf_new_wf: "tf_wf tmpfs_new"
  by (auto simp: tf_wf_def tmpfs_new_def new_directory_def edge_def bt_ok_def split: if_splits)

lemma tf_run_wf: "tf_wf fs \<Longrightarrow> tf_run xs fs = Ret fs' \<Longrightarrow> tf_wf fs'"
  by (induction xs arbitrary: fs) (auto dest: tf_exec_wf)

lemma read_dir_loop_wf:
  "\<forall>(n, i) \<in> set es. tf_get fs i \<noteq> None \<Longrightarrow>
   read_dir_loop fs es = Ok (map (\<lambda>(n, i). (n, node_file_type (the (tf_get fs i)))) es)"
  by (induction fs es rule: read_dir_loop.induct) auto

section \<open>Properties\<close>

lemma tf_create_total:
  assumes wf: "tf_wf fs" and n: "unat (tf_next_inode fs) < 2 ^ 32 - 1"
  shows "\<exists>fs' r. tf_create fs p nm d = Ret (fs', r) \<and> unat (tf_next_inode fs') \<le> Suc (unat (tf_next_inode fs))"
proof -
  have m: "tf_next_inode fs \<noteq> - 1" using n by (auto simp: unsigned_minus_1_eq_mask mask_eq_exp_minus_1)
  then have "\<exists>fs' r. tf_create fs p nm d = Ret (fs', r)"
    by (auto simp: tf_create_def allocate_inode_def Let_def split: result.splits prod.splits)
  then obtain fs' r where r: "tf_create fs p nm d = Ret (fs', r)" by blast
  have "unat (tf_next_inode fs + 1) = Suc (unat (tf_next_inode fs))"
    using unatSuc [of "tf_next_inode fs"] m by (metis add.commute add_eq_0_iff)
  then show ?thesis
    using r tf_create_Ok(6) [OF wf] tf_create_Err [OF wf] by (cases r) (fastforce)+
qed

lemma tf_exec_total:
  assumes wf: "tf_wf fs" and n: "unat (tf_next_inode fs) < 2 ^ 32 - 1"
  shows "\<exists>fs'. tf_exec x fs = Ret fs' \<and> unat (tf_next_inode fs') \<le> Suc (unat (tf_next_inode fs))"
proof (cases x)
  case (OpCreate p nm d)
  with tf_create_total [OF wf n, of p nm d] show ?thesis by auto
next
  case (OpUnlink p nm)
  obtain fs1 r where r: "tf_unlink fs p nm = (fs1, r)" by fastforce
  then have "tf_next_inode fs1 = tf_next_inode fs"
    by (cases r) (auto dest: tf_unlink_Ok tf_unlink_Err)
  with r OpUnlink show ?thesis by simp
next
  case (OpRename op old np new)
  obtain fs1 r where r: "tf_rename fs op old np new = (fs1, r)" by fastforce
  then have "tf_next_inode fs1 = tf_next_inode fs"
    by (cases r) (auto dest: tf_rename_Ok tf_rename_Err)
  with r OpRename show ?thesis by simp
qed (auto simp: tf_write_def tf_truncate_def tf_chmod_def Let_def split: option.splits tmpfs_node.splits)

lemma tf_run_total:
  "tf_wf fs \<Longrightarrow> unat (tf_next_inode fs) + length xs \<le> 2 ^ 32 - 1 \<Longrightarrow> \<exists>fs'. tf_run xs fs = Ret fs' \<and> tf_wf fs'"
proof (induction xs arbitrary: fs)
  case Nil
  then show ?case by simp
next
  case (Cons x xs)
  then obtain fs1 where "tf_exec x fs = Ret fs1" "unat (tf_next_inode fs1) \<le> Suc (unat (tf_next_inode fs))"
    using tf_exec_total [OF Cons.prems(1), of x] by auto
  moreover from this have "tf_wf fs1" using tf_exec_wf [OF Cons.prems(1)] by blast
  ultimately show ?case using Cons.IH [of fs1] Cons.prems(2) by auto
qed

text \<open>C5: every sequence of up to \<open>2 ^ 32 - 3\<close> creations, removals, writes, truncations, mode
  changes and renames of a new file system runs without a panic and keeps it well formed: the root
  stays a directory, every directory entry leads to an existing inode, and no inode has two
  entries.\<close>

theorem tmpfs_run_invariant:
  assumes "length xs \<le> 2 ^ 32 - 3"
  shows "\<exists>fs. tf_run xs tmpfs_new = Ret fs \<and> tf_wf fs"
  using tf_run_total [OF tf_new_wf, of xs] assms by (simp add: tmpfs_new_def)

theorem tmpfs_run_invariant_witness:
  "\<exists>fs. tf_run [OpCreate 1 ''d'' True, OpCreate 2 ''f'' False, OpUnlink 1 ''d''] tmpfs_new = Ret fs \<and> tf_wf fs"
  by (rule tmpfs_run_invariant) simp

lemma tf_create_added:
  assumes "tf_wf fs" "tf_create fs parent name is_dir = Ret (fs', Ok i)"
  shows "tf_wf fs' \<and> tf_lookup fs' parent name = Ok i
    \<and> (\<forall>base path j. tf_lookup fs base path = Ok j \<longrightarrow> tf_lookup fs' base path = Ok j)
    \<and> (\<forall>p n j. edge fs' p n j \<longleftrightarrow> edge fs p n j \<or> (p, n, j) = (parent, name, i))
    \<and> tf_stat fs' i = Ok \<lparr>md_file_type = (if is_dir then DirectoryT else FileT), md_size = 0,
         md_mode = (if is_dir then DEFAULT_DIR_MODE else DEFAULT_FILE_MODE), md_uid = 0, md_gid = 0\<rparr>"
proof (intro conjI allI impI)
  note C = tf_create_Ok [OF assms] and E = tf_create_edges [OF assms]
  show "tf_wf fs'" by (rule tf_create_wf [OF assms])
  show "tf_lookup fs' parent name = Ok i" using E C(2) by (simp add: tf_lookup_name)
  show "tf_lookup fs' base path = Ok j" if "tf_lookup fs base path = Ok j" for base path j
    using tf_lookup_mono [OF _ that] E by blast
  show "edge fs' p n j \<longleftrightarrow> edge fs p n j \<or> (p, n, j) = (parent, name, i)" for p n j using E by auto
  obtain es where "tf_get fs parent = Some (TDir es)"
      "tf_get fs' = (tf_get fs)(i \<mapsto> (if is_dir then new_directory else new_file), parent \<mapsto> TDir (bt_insert name i es))"
    using C(4) by blast
  moreover have "i \<noteq> parent" using fresh_inode [OF assms(1)] C(1) calculation(1) by auto
  ultimately show "tf_stat fs' i = Ok \<lparr>md_file_type = (if is_dir then DirectoryT else FileT), md_size = 0,
         md_mode = (if is_dir then DEFAULT_DIR_MODE else DEFAULT_FILE_MODE), md_uid = 0, md_gid = 0\<rparr>"
    using C(7) by (auto simp: tf_stat_def new_directory_def new_file_def)
qed

text \<open>The file system with the file \<open>/f\<close>, made by the source's own operations.\<close>

definition tmpfs_example :: tmpfs where
  "tmpfs_example = \<lparr>tf_next_inode = 3, tf_nodes = [(1, TDir [(''f'', 2)]), (2, TFile [])],
     tf_modes = [(1, DEFAULT_DIR_MODE), (2, DEFAULT_FILE_MODE)], tf_root = 1\<rparr>"

lemma create_example: "tf_create tmpfs_new 1 ''f'' False = Ret (tmpfs_example, Ok 2)"
  by (simp add: tmpfs_new_def tf_create_def bad_name_def dir_entries_def bt_get_def bt_insert_def allocate_inode_def
      new_directory_def new_file_def update_dir_def tmpfs_example_def)

lemma tf_create_succeeds:
  assumes wf: "tf_wf fs" and es: "tf_get fs parent = Some (TDir es)" "bt_get es name = None" and "\<not> bad_name name"
    and "tf_next_inode fs \<noteq> - 1"
  shows "\<exists>fs'. tf_create fs parent name is_dir = Ret (fs', Ok (tf_next_inode fs))"
proof -
  have "parent \<noteq> tf_next_inode fs" using tf_wf_bound [OF wf es(1)] by auto
  then have "tf_get (fs\<lparr>tf_next_inode := n, tf_nodes := bt_insert (tf_next_inode fs) nd (tf_nodes fs), tf_modes := m\<rparr>) parent
      = Some (TDir es)" for n nd m using es by simp
  from update_dir_dir [OF this] assms show ?thesis
    by (cases is_dir) (simp_all add: tf_create_def dir_entries_def allocate_inode_def Let_def)
qed

text \<open>C24: \<open>create\<close> on a well-formed file system, case by case. An empty name or one with a slash is
  \<open>EINVAL\<close>, a parent that does not exist \<open>ENOENT\<close>, a parent that is a file \<open>ENOTDIR\<close>, a name the parent
  already has \<open>EEXIST\<close>, each without a change; an exhausted inode counter panics. In every other case
  it succeeds with an inode that was not in use, and adds exactly the one entry: the name then
  resolves to the new inode, which is an empty file or directory with the default mode, every path
  that resolved before resolves to the same inode, and the file system stays well formed.\<close>

theorem tmpfs_create_correct:
  assumes "tf_wf fs"
  shows "if name = [] \<or> CHR ''/'' \<in> set name then tf_create fs parent name is_dir = Ret (fs, Err EINVAL)
    else if tf_get fs parent = None then tf_create fs parent name is_dir = Ret (fs, Err ENOENT)
    else if \<exists>d. tf_get fs parent = Some (TFile d) then tf_create fs parent name is_dir = Ret (fs, Err ENOTDIR)
    else if \<exists>j. edge fs parent name j then tf_create fs parent name is_dir = Ret (fs, Err EEXIST)
    else if tf_next_inode fs = - 1 then tf_create fs parent name is_dir = Panic
    else \<exists>fs' i. tf_create fs parent name is_dir = Ret (fs', Ok i) \<and> tf_get fs i = None
      \<and> tf_wf fs' \<and> tf_lookup fs' parent name = Ok i
      \<and> (\<forall>base path j. tf_lookup fs base path = Ok j \<longrightarrow> tf_lookup fs' base path = Ok j)
      \<and> (\<forall>p n j. edge fs' p n j \<longleftrightarrow> edge fs p n j \<or> (p, n, j) = (parent, name, i))
      \<and> tf_stat fs' i = Ok \<lparr>md_file_type = (if is_dir then DirectoryT else FileT), md_size = 0,
           md_mode = (if is_dir then DEFAULT_DIR_MODE else DEFAULT_FILE_MODE), md_uid = 0, md_gid = 0\<rparr>"
proof -
  let ?bad = "name = [] \<or> CHR ''/'' \<in> set name"
  consider "?bad" | "\<not> ?bad" "tf_get fs parent = None" | d where "\<not> ?bad" "tf_get fs parent = Some (TFile d)"
    | es j where "\<not> ?bad" "tf_get fs parent = Some (TDir es)" "bt_get es name = Some j"
    | es where "\<not> ?bad" "tf_get fs parent = Some (TDir es)" "bt_get es name = None" "tf_next_inode fs = - 1"
    | es where "\<not> ?bad" "tf_get fs parent = Some (TDir es)" "bt_get es name = None" "tf_next_inode fs \<noteq> - 1"
    by (metis option.exhaust tmpfs_node.exhaust)
  then show ?thesis
  proof cases
    case 6
    then have "\<not> bad_name name" by (simp add: bad_name_def)
    with tf_create_succeeds [OF assms 6(2,3) _ 6(4)] obtain fs' where
      c: "tf_create fs parent name is_dir = Ret (fs', Ok (tf_next_inode fs))" by blast
    have "\<not> (\<exists>j. edge fs parent name j)" using 6(2,3) by (simp add: edge_def)
    with tf_create_added [OF assms c] fresh_inode [OF assms] c 6 show ?thesis by auto
  qed (simp_all add: tf_create_def bad_name_def dir_entries_def edge_def allocate_inode_def)
qed

theorem tmpfs_create_correct_witness:
  "tf_wf tmpfs_new \<and> tf_create tmpfs_new 1 ''f'' False = Ret (tmpfs_example, Ok 2) \<and> tf_lookup tmpfs_example 1 ''f'' = Ok 2
   \<and> tf_create tmpfs_example 1 ''f'' True = Ret (tmpfs_example, Err EEXIST)
   \<and> tf_create tmpfs_example 2 ''g'' True = Ret (tmpfs_example, Err ENOTDIR)
   \<and> tf_create tmpfs_example 1 ''a/b'' True = Ret (tmpfs_example, Err EINVAL)"
proof -
  have get: "tf_get tmpfs_new 1 = Some (TDir [])" "tf_get tmpfs_example 1 = Some (TDir [(''f'', 2)])"
    "tf_get tmpfs_example 2 = Some (TFile [])"
    by (simp_all add: tmpfs_new_def tmpfs_example_def bt_get_def new_directory_def bt_insert_def)
  have "\<not> (\<exists>j. edge tmpfs_new 1 ''f'' j)" "tf_next_inode tmpfs_new \<noteq> - 1"
    using get(1) by (simp_all add: edge_def) (simp add: tmpfs_new_def)
  then have "tf_lookup tmpfs_example 1 ''f'' = Ok 2"
    using tmpfs_create_correct [OF tf_new_wf, of "''f''" 1 False] create_example get(1) by (auto split: if_splits)
  moreover have wf: "tf_wf tmpfs_example" using tf_create_wf [OF tf_new_wf create_example] .
  moreover have "edge tmpfs_example 1 ''f'' 2" using get by (simp add: edge_def bt_get_def)
  ultimately show ?thesis
    using tf_new_wf create_example get tmpfs_create_correct [OF wf, of "''f''" 1 True] tmpfs_create_correct [OF wf, of "''g''" 2 True]
      tmpfs_create_correct [OF wf, of "''a/b''" 1 True] by (auto split: if_splits)
qed

text \<open>C8: a successful \<open>write\<close> stores exactly the given bytes at the offset. The file becomes as
  long as needed, bytes outside the written range keep their value, a gap between the old end and
  the offset reads as zeros, no other inode changes, and reading the range back gives the data.\<close>

theorem tmpfs_write_read:
  assumes "tf_get fs i = Some (TFile d)"
  shows "\<exists>fs' d'. tf_write fs i off ys = (fs', Ok (length ys)) \<and> tf_get fs' = (tf_get fs)(i \<mapsto> TFile d')
    \<and> length d' = max (length d) (off + length ys)
    \<and> (\<forall>k < length d'. d' ! k = (if off \<le> k \<and> k < off + length ys then ys ! (k - off)
                                  else if k < length d then d ! k else 0))
    \<and> tf_read fs' i off (replicate (length ys) 0) = Ok (length ys, ys)"
proof (intro exI conjI)
  let ?d = "write_bytes d off ys"
  let ?fs = "fs\<lparr>tf_nodes := bt_insert i (TFile ?d) (tf_nodes fs)\<rparr>"
  show "tf_write fs i off ys = (?fs, Ok (length ys))" by (rule tf_write_get [OF assms])
  show "tf_get ?fs = (tf_get fs)(i \<mapsto> TFile ?d)" by simp
  show l: "length ?d = max (length d) (off + length ys)" by (rule length_write_bytes)
  show "\<forall>k < length ?d. ?d ! k = (if off \<le> k \<and> k < off + length ys then ys ! (k - off)
                                  else if k < length d then d ! k else 0)"
    using nth_write_bytes [of _ d off ys] l by simp
  have "subslice ?d off (off + length ys) = ys"
    by (rule nth_equalityI) (simp_all add: l nth_subslice nth_write_bytes)
  moreover have "overwrite (replicate (length ys) 0) 0 ys = ys" by (simp add: overwrite_def)
  moreover have "min (length ?d - off) (length ys) = length ys" using l by simp
  ultimately show "tf_read ?fs i off (replicate (length ys) 0) = Ok (length ys, ys)"
    using l by (auto simp: tf_read_def Let_def)
qed

theorem tmpfs_write_read_witness:
  "\<exists>fs'. tf_write tmpfs_example 2 3 [7, 8] = (fs', Ok 2)
     \<and> tf_read fs' 2 3 (replicate 2 0) = Ok (2, [7, 8])"
proof -
  have "tf_get tmpfs_example 2 = Some (TFile [])" by (simp add: tmpfs_example_def bt_get_def)
  from tmpfs_write_read [OF this, of 3 "[7, 8]"] obtain fs' where
    "tf_write tmpfs_example 2 3 [7, 8] = (fs', Ok (length [7, 8 :: u8]))"
    "tf_read fs' 2 3 (replicate (length [7, 8 :: u8]) 0) = Ok (length [7, 8 :: u8], [7, 8])" by blast
  then show ?thesis by (intro exI [of _ fs']) (simp add: numeral_2_eq_2)
qed

lemma tf_unlink_no_edge:
  assumes "\<not> bad_name name" "\<forall>i. \<not> edge fs parent name i"
  shows "\<exists>e. tf_unlink fs parent name = (fs, Err e) \<and> e \<noteq> ENOTEMPTY"
proof (cases "dir_entries fs parent")
  case (Ok es)
  then have "bt_get es name = None" using assms(2) by (auto simp: edge_def)
  with Ok assms(1) show ?thesis by (auto simp: tf_unlink_def dir_entries_def)
next
  case (Err e)
  then have "e \<noteq> ENOTEMPTY" by (auto simp: dir_entries_def split: option.splits tmpfs_node.splits)
  with Err assms(1) show ?thesis by (simp add: tf_unlink_def)
qed

lemma tf_unlink_edge:
  assumes "\<not> bad_name name" "edge fs parent name i" "tf_get fs i = Some nd"
  shows "if (case nd of TDir es \<Rightarrow> es \<noteq> [] | TFile d \<Rightarrow> False) then tf_unlink fs parent name = (fs, Err ENOTEMPTY)
         else \<exists>fs'. tf_unlink fs parent name = (fs', Ok ())"
proof -
  obtain es where es: "tf_get fs parent = Some (TDir es)" "bt_get es name = Some i"
    using assms(2) by (auto simp: edge_def)
  with assms update_dir_dir [OF es(1), of "bt_remove name"] show ?thesis
    by (auto simp: tf_unlink_def dir_entries_def)
qed

text \<open>C25: \<open>unlink\<close> of a proper name succeeds exactly when the parent is a directory with an entry of
  that name for a file or an empty directory; it then removes exactly that entry and that inode.
  It fails with \<open>ENOTEMPTY\<close> for a directory with entries and in every failing case leaves the
  file system unchanged.\<close>

theorem tmpfs_unlink_correct:
  assumes "tf_wf fs" "\<not> bad_name name"
  shows "case tf_unlink fs parent name of
      (fs', Ok _) \<Rightarrow> \<exists>i. edge fs parent name i \<and> (\<forall>n j. \<not> edge fs i n j) \<and> tf_wf fs'
         \<and> (\<forall>j. tf_get fs' j = None \<longleftrightarrow> j = i \<or> tf_get fs j = None)
         \<and> (\<forall>p n j. edge fs' p n j \<longleftrightarrow> edge fs p n j \<and> (p, n) \<noteq> (parent, name))
    | (fs', Err e) \<Rightarrow> fs' = fs
         \<and> (e = ENOTEMPTY \<longleftrightarrow> (\<exists>i n j. edge fs parent name i \<and> edge fs i n j))
         \<and> (e \<noteq> ENOTEMPTY \<longrightarrow> (\<forall>i. \<not> edge fs parent name i))"
proof -
  obtain fs' r where u: "tf_unlink fs parent name = (fs', r)" by (cases "tf_unlink fs parent name")
  show ?thesis
  proof (cases r)
    case (Ok x)
    note E = tf_unlink_edges [OF assms(1) u [unfolded Ok]]
    from tf_unlink_Ok [OF u [unfolded Ok]] obtain es i where es: "tf_get fs parent = Some (TDir es)" "bt_get es name = Some i"
        "tf_get fs i = Some (TDir []) \<or> (\<exists>d. tf_get fs i = Some (TFile d))"
        "tf_get fs' = (tf_get fs)(parent \<mapsto> TDir (bt_remove name es), i := None)" by blast
    have "edge fs parent name i" "\<forall>n j. \<not> edge fs i n j" using es by (auto simp: edge_def)
    moreover have "\<forall>j. tf_get fs' j = None \<longleftrightarrow> j = i \<or> tf_get fs j = None" using es by auto
    moreover have "\<forall>p n j. edge fs' p n j \<longleftrightarrow> edge fs p n j \<and> (p, n) \<noteq> (parent, name)"
      unfolding E by simp
    ultimately show ?thesis
      unfolding u Ok prod.case result.case using tf_unlink_wf [OF assms(1) u [unfolded Ok]] by blast
  next
    case (Err e)
    have "fs' = fs \<and> (e = ENOTEMPTY \<longleftrightarrow> (\<exists>i n j. edge fs parent name i \<and> edge fs i n j))
         \<and> (e \<noteq> ENOTEMPTY \<longrightarrow> (\<forall>i. \<not> edge fs parent name i))"
    proof (cases "\<exists>i. edge fs parent name i")
      case False
      then have no: "\<forall>i. \<not> edge fs parent name i" by simp
      from tf_unlink_no_edge [OF assms(2) this] u Err have "fs' = fs" "e \<noteq> ENOTEMPTY" by simp_all
      with no show ?thesis by simp
    next
      case True
      then obtain i where i: "edge fs parent name i" by blast
      then obtain nd where nd: "tf_get fs i = Some nd" using tf_wf_edge [OF assms(1)] by blast
      from tf_unlink_edge [OF assms(2) i nd] u Err obtain es where "nd = TDir es" "es \<noteq> []" "fs' = fs" "e = ENOTEMPTY"
        by (cases nd) (simp_all split: if_splits)
      moreover from this nd have "\<exists>n j. edge fs i n j"
        by (cases es) (auto simp: edge_def bt_get_def)
      ultimately show ?thesis using i by blast
    qed
    then show ?thesis unfolding u Err prod.case result.case .
  qed
qed

theorem tmpfs_unlink_correct_witness:
  "tf_wf tmpfs_example \<and> (\<exists>fs' i. tf_unlink tmpfs_example 1 ''f'' = (fs', Ok ()) \<and> edge tmpfs_example 1 ''f'' i \<and> tf_wf fs')"
proof -
  have wf: "tf_wf tmpfs_example" using tf_create_wf [OF tf_new_wf create_example] .
  have g: "\<not> bad_name ''f''" by (simp add: bad_name_def)
  have "edge tmpfs_example 1 ''f'' 2" "tf_get tmpfs_example 2 = Some (TFile [])"
    by (simp_all add: tmpfs_example_def edge_def bt_get_def)
  from tf_unlink_edge [OF g this] obtain fs' where "tf_unlink tmpfs_example 1 ''f'' = (fs', Ok ())" by auto
  with tmpfs_unlink_correct [OF wf g, of 1] wf show ?thesis by auto
qed

text \<open>C26: a successful \<open>rename\<close> moves exactly one entry: the new name resolves to the inode the old
  name resolved to, the old name is gone, every other entry and every file's contents stay, and the
  file system stays well formed.\<close>

theorem tmpfs_rename_moves:
  assumes "tf_wf fs" "tf_rename fs op old np new = (fs', Ok ())"
  shows "\<exists>i. tf_lookup fs op old = Ok i \<and> tf_lookup fs' np new = Ok i \<and> (\<forall>j. \<not> edge fs' op old j)
    \<and> tf_wf fs' \<and> (\<forall>j d. tf_get fs' j = Some (TFile d) \<longleftrightarrow> tf_get fs j = Some (TFile d))
    \<and> (\<forall>p n j. (p, n) \<noteq> (op, old) \<and> (p, n) \<noteq> (np, new) \<longrightarrow> edge fs' p n j = edge fs p n j)"
proof -
  obtain i where i: "edge fs op old i"
    and E: "\<And>p n j. edge fs' p n j \<longleftrightarrow> (p = np \<and> n = new \<and> j = i) \<or> (edge fs p n j \<and> \<not> (p = op \<and> n = old))"
    and no: "\<And>j. \<not> edge fs np new j"
    by (rule tf_rename_edges [OF assms(2)]) (rule that)
  have new: "\<not> bad_name new" and files: "tf_get fs' j = Some (TFile d) \<longleftrightarrow> tf_get fs j = Some (TFile d)" for j d
    using tf_rename_Ok [OF assms(2)] by (auto split: if_splits)
  have "\<not> bad_name old" using tf_wf_edge_root [OF assms(1) i] by simp
  moreover have "(op, old) \<noteq> (np, new)" using i no by auto
  ultimately show ?thesis
    using i E new files tf_rename_wf [OF assms] by (intro exI [of _ i]) (auto simp: tf_lookup_name)
qed

lemma rename_example: "\<exists>fs'. tf_rename tmpfs_example 1 ''f'' 1 ''g'' = (fs', Ok ())"
  by (simp add: tmpfs_example_def tf_rename_def bad_name_def dir_entries_def bt_get_def update_dir_def bt_insert_def bt_remove_def)

theorem tmpfs_rename_moves_witness:
  "\<exists>fs' i. tf_rename tmpfs_example 1 ''f'' 1 ''g'' = (fs', Ok ())
     \<and> tf_lookup tmpfs_example 1 ''f'' = Ok i \<and> tf_lookup fs' 1 ''g'' = Ok i"
proof -
  obtain fs' where r: "tf_rename tmpfs_example 1 ''f'' 1 ''g'' = (fs', Ok ())" using rename_example by (elim exE)
  from tmpfs_rename_moves [OF tf_create_wf [OF tf_new_wf create_example] this]
  show ?thesis by (elim exE conjE) (intro exI conjI, rule r, assumption+)
qed

text \<open>A directory can be renamed into itself, which cuts it off from the root.\<close>

lemma tmpfs_rename_cycle:
  "\<exists>fs fs'. tf_run [OpCreate 1 ''d'' True] tmpfs_new = Ret fs
     \<and> tf_rename fs 1 ''d'' 2 ''e'' = (fs', Ok ()) \<and> edge fs' 2 ''e'' 2 \<and> (\<forall>n j. \<not> edge fs' 1 n j)"
  by (simp add: tmpfs_new_def tf_create_def bad_name_def dir_entries_def bt_get_def bt_insert_def bt_remove_def
      allocate_inode_def new_directory_def new_file_def update_dir_def tf_rename_def edge_def)

text \<open>Listing a directory of a well-formed file system never fails: it gives every entry
  once, in the order of the names, with the type of the inode it leads to.\<close>

theorem tmpfs_read_dir_correct:
  assumes "tf_wf fs" "tf_get fs p = Some (TDir es)"
  shows "\<exists>l. tf_read_dir fs p = Ok l \<and> sorted_wrt (<) (map fst l)
    \<and> (\<forall>n t. (n, t) \<in> set l \<longleftrightarrow> (\<exists>i nd. edge fs p n i \<and> tf_get fs i = Some nd \<and> t = node_file_type nd))"
proof -
  have ok: "bt_ok es" using tf_wf_sorted [OF assms] .
  have e: "edge fs p n i \<longleftrightarrow> (n, i) \<in> set es" for n i
    using assms(2) bt_get_iff [OF ok] by (auto simp: edge_def)
  then have ex: "\<forall>(n, i) \<in> set es. tf_get fs i \<noteq> None" using tf_wf_edge [OF assms(1)] by fastforce
  let ?l = "map (\<lambda>(n, i). (n, node_file_type (the (tf_get fs i)))) es"
  have "tf_read_dir fs p = Ok ?l"
    using read_dir_loop_wf [OF ex] assms(2) by (simp add: tf_read_dir_def dir_entries_def)
  moreover have "map fst ?l = map fst es" by auto
  moreover have "(n, t) \<in> set ?l \<longleftrightarrow> (\<exists>i nd. edge fs p n i \<and> tf_get fs i = Some nd \<and> t = node_file_type nd)" for n t
    unfolding e using ex by (force simp: image_iff)
  ultimately show ?thesis using ok by (intro exI [of _ ?l]) (simp only: bt_ok_def simp_thms)
qed

theorem tmpfs_read_dir_correct_witness:
  "\<exists>l. tf_read_dir tmpfs_example 1 = Ok l \<and> (''f'', FileT) \<in> set l"
proof -
  have g: "tf_get tmpfs_example 1 = Some (TDir [(''f'', 2)])" by (simp add: tmpfs_example_def bt_get_def)
  have "edge tmpfs_example 1 ''f'' 2" "tf_get tmpfs_example 2 = Some (TFile [])"
    by (simp_all add: tmpfs_example_def edge_def bt_get_def)
  with tmpfs_read_dir_correct [OF tf_create_wf [OF tf_new_wf create_example] g] show ?thesis by fastforce
qed

end
