(* ===== verification/Block_Device.thy ===== *)
theory Block_Device
  imports Panda_Prelude
begin

text \<open>
  The block device interface of \<open>hal/src/block.rs\<close>. A device is a state \<open>'d\<close> with the two
  operations of the trait \<open>BlockDevice\<close>, reading and writing one sector; they are parameters of
  everything above them. The locale \<open>block_device\<close> states what the trait documents: a read
  returns the contents of the sector and changes none, a write replaces exactly one sector.
  Both may fail.
\<close>

definition SECTOR_SIZE :: nat where
  "SECTOR_SIZE = 512"

datatype block_error = BlkIoError | BlkInvalidSector | BlkBufferTooSmall | BlkNotReady

type_synonym 'd rd_op = "'d \<Rightarrow> u64 \<Rightarrow> 'd \<times> (bytes, block_error) result"
type_synonym 'd wr_op = "'d \<Rightarrow> u64 \<Rightarrow> bytes \<Rightarrow> 'd \<times> (unit, block_error) result"

text \<open>The default methods for several sectors. The sum of the sector number and the index and the
  product of the count and the sector size panic on overflow.\<close>

fun read_sectors_loop ::
  "'d rd_op \<Rightarrow> u64 \<Rightarrow> nat list \<Rightarrow> 'd \<Rightarrow> bytes \<Rightarrow> ('d \<times> bytes \<times> (unit, block_error) result) outcome" where
  "read_sectors_loop rd start [] d buffer = Ret (d, buffer, Ok ())"
| "read_sectors_loop rd start (i # is) d buffer =
     (if 2 ^ 64 \<le> unat start + i then Panic
      else case rd d (start + of_nat i) of
        (d', Err e) \<Rightarrow> Ret (d', buffer, Err e)
      | (d', Ok b) \<Rightarrow> read_sectors_loop rd start is d' (overwrite buffer (i * SECTOR_SIZE) b))"

definition read_sectors ::
  "'d rd_op \<Rightarrow> u64 \<Rightarrow> nat \<Rightarrow> bytes \<Rightarrow> 'd \<Rightarrow> ('d \<times> bytes \<times> (unit, block_error) result) outcome" where
  "read_sectors rd start count buffer d =
     (if 2 ^ 64 \<le> count * SECTOR_SIZE then Panic
      else if length buffer < count * SECTOR_SIZE then Ret (d, buffer, Err BlkBufferTooSmall)
      else read_sectors_loop rd start [0..<count] d buffer)"

fun write_sectors_loop ::
  "'d wr_op \<Rightarrow> u64 \<Rightarrow> nat list \<Rightarrow> bytes \<Rightarrow> 'd \<Rightarrow> ('d \<times> (unit, block_error) result) outcome" where
  "write_sectors_loop wr start [] buffer d = Ret (d, Ok ())"
| "write_sectors_loop wr start (i # is) buffer d =
     (if 2 ^ 64 \<le> unat start + i then Panic
      else case wr d (start + of_nat i) (subslice buffer (i * SECTOR_SIZE) (i * SECTOR_SIZE + SECTOR_SIZE)) of
        (d', Err e) \<Rightarrow> Ret (d', Err e)
      | (d', Ok _) \<Rightarrow> write_sectors_loop wr start is buffer d')"

definition write_sectors ::
  "'d wr_op \<Rightarrow> u64 \<Rightarrow> nat \<Rightarrow> bytes \<Rightarrow> 'd \<Rightarrow> ('d \<times> (unit, block_error) result) outcome" where
  "write_sectors wr start count buffer d =
     (if 2 ^ 64 \<le> count * SECTOR_SIZE then Panic
      else if length buffer < count * SECTOR_SIZE then Ret (d, Err BlkBufferTooSmall)
      else write_sectors_loop wr start [0..<count] buffer d)"

section \<open>The contract\<close>

text \<open>A sector that can be read.\<close>

definition sector_reads :: "'d rd_op \<Rightarrow> ('d \<Rightarrow> bool) \<Rightarrow> u64 \<Rightarrow> bool" where
  "sector_reads rd valid s \<longleftrightarrow> (\<forall>d. valid d \<longrightarrow> (\<exists>d' b. rd d s = (d', Ok b)))"

locale block_device =
  fixes rd :: "'d rd_op" and wr :: "'d wr_op"
    and img :: "'d \<Rightarrow> u64 \<Rightarrow> bytes" and valid :: "'d \<Rightarrow> bool"
  assumes sector_len: "valid d \<Longrightarrow> length (img d s) = SECTOR_SIZE"
    and rd_img: "valid d \<Longrightarrow> rd d s = (d', r) \<Longrightarrow> valid d' \<and> img d' = img d"
    and rd_Ok: "valid d \<Longrightarrow> rd d s = (d', Ok b) \<Longrightarrow> b = img d s"
    and wr_Ok: "valid d \<Longrightarrow> length b = SECTOR_SIZE \<Longrightarrow> wr d s b = (d', Ok u) \<Longrightarrow>
      valid d' \<and> img d' = (img d)(s := b)"
    and wr_Err: "valid d \<Longrightarrow> length b = SECTOR_SIZE \<Longrightarrow> wr d s b = (d', Err e) \<Longrightarrow>
      valid d' \<and> (\<forall>t. t \<noteq> s \<longrightarrow> img d' t = img d t)"
begin

text \<open>The bytes of \<open>n\<close> sectors from \<open>start\<close> on.\<close>

definition sectors :: "'d \<Rightarrow> u64 \<Rightarrow> nat \<Rightarrow> bytes" where
  "sectors d start n = concat (map (\<lambda>i. img d (start + of_nat i)) [0..<n])"

lemma length_sectors: "valid d \<Longrightarrow> length (sectors d start n) = n * SECTOR_SIZE"
  by (induction n) (simp_all add: sectors_def sector_len)

lemma sectors_Suc: "sectors d start (Suc n) = sectors d start n @ img d (start + of_nat n)"
  by (simp add: sectors_def)

lemma read_sectors_loop_Ok:
  assumes "valid d" "k \<le> n" "n * SECTOR_SIZE \<le> length buffer"
    "take (k * SECTOR_SIZE) buffer = sectors d start k"
    "read_sectors_loop rd start [k..<n] d buffer = Ret (d', buffer', Ok u)"
  shows "valid d' \<and> img d' = img d \<and> buffer' = sectors d start n @ drop (n * SECTOR_SIZE) buffer"
  using assms
proof (induction "n - k" arbitrary: k d buffer)
  case 0
  then have "k = n" by simp
  moreover from this 0 have "sectors d start n @ drop (n * SECTOR_SIZE) buffer = buffer"
    by (metis append_take_drop_id)
  ultimately show ?case using 0 by simp
next
  case (Suc m)
  then have kn: "k < n" by simp
  obtain d1 r where rd: "rd d (start + of_nat k) = (d1, r)" by fastforce
  from Suc.prems(5) kn rd obtain b where r: "r = Ok b"
    and l: "read_sectors_loop rd start [Suc k..<n] d1 (overwrite buffer (k * SECTOR_SIZE) b) = Ret (d', buffer', Ok u)"
    by (auto simp: upt_conv_Cons split: if_splits result.splits)
  have b: "b = img d (start + of_nat k)" "valid d1" "img d1 = img d"
    using rd_Ok rd_img Suc.prems(1) rd r by blast+
  have lb: "length b = SECTOR_SIZE" using b Suc.prems(1) sector_len by simp
  have le: "k * SECTOR_SIZE + SECTOR_SIZE \<le> length buffer"
    using kn Suc.prems(3) mult_le_mono1 [of "Suc k" n SECTOR_SIZE] by simp
  let ?b = "overwrite buffer (k * SECTOR_SIZE) b"
  have "take (Suc k * SECTOR_SIZE) ?b = sectors d1 start (Suc k)"
    using Suc.prems(4) b lb length_sectors [OF Suc.prems(1), of start k]
    by (simp add: overwrite_def sectors_Suc sectors_def [of d1] sectors_def [of d, symmetric] add.commute)
  moreover have "length ?b = length buffer" using lb le by simp
  moreover have "drop (n * SECTOR_SIZE) ?b = drop (n * SECTOR_SIZE) buffer"
    using lb le kn mult_le_mono1 [of "Suc k" n SECTOR_SIZE]
    by (intro nth_equalityI) (auto simp: nth_overwrite)
  moreover have "m = n - Suc k" using Suc.hyps(2) by simp
  ultimately have "valid d' \<and> img d' = img d1 \<and> buffer' = sectors d1 start n @ drop (n * SECTOR_SIZE) buffer"
    using Suc.hyps(1) [of "Suc k" d1 ?b] b kn Suc.prems(3) l by simp
  with b show ?case by (simp add: sectors_def)
qed

lemma read_sectors_Ok:
  assumes "valid d" "read_sectors rd start n buffer d = Ret (d', buffer', Ok u)"
  shows "valid d' \<and> img d' = img d \<and> buffer' = sectors d start n @ drop (n * SECTOR_SIZE) buffer"
  using assms read_sectors_loop_Ok [of d 0 n buffer start d' buffer' u]
  by (simp add: read_sectors_def sectors_def split: if_splits)

lemma write_sectors_loop_Ok:
  assumes "valid d" "k \<le> n" "n * SECTOR_SIZE \<le> length buffer" "unat start + n \<le> 2 ^ 64"
    "sectors d start k = take (k * SECTOR_SIZE) buffer"
    "write_sectors_loop wr start [k..<n] buffer d = Ret (d', Ok u)"
  shows "valid d' \<and> sectors d' start n = take (n * SECTOR_SIZE) buffer
     \<and> (\<forall>t. (\<forall>i. k \<le> i \<and> i < n \<longrightarrow> t \<noteq> start + of_nat i) \<longrightarrow> img d' t = img d t)"
  using assms
proof (induction "n - k" arbitrary: k d)
  case 0
  then have "k = n" by simp
  with 0 show ?case by simp
next
  case (Suc m)
  then have kn: "k < n" by simp
  let ?b = "subslice buffer (k * SECTOR_SIZE) (k * SECTOR_SIZE + SECTOR_SIZE)"
  obtain d1 r where w: "wr d (start + of_nat k) ?b = (d1, r)" by fastforce
  from Suc.prems(6) kn w obtain x where r: "r = Ok x"
    and l: "write_sectors_loop wr start [Suc k..<n] buffer d1 = Ret (d', Ok u)"
    by (auto simp: upt_conv_Cons split: if_splits result.splits)
  have le: "k * SECTOR_SIZE + SECTOR_SIZE \<le> length buffer"
    using kn Suc.prems(3) mult_le_mono1 [of "Suc k" n SECTOR_SIZE] by simp
  then have lb: "length ?b = SECTOR_SIZE" by simp
  have d1: "valid d1" "img d1 = (img d)(start + of_nat k := ?b)"
    using wr_Ok [OF Suc.prems(1) lb] w r by auto
  have ne: "start + of_nat i \<noteq> start + of_nat k" if "i < k" for i
    using that kn Suc.prems(4) by (simp add: word_of_nat_eq_iff take_bit_nat_eq_self)
  have "sectors d1 start k = sectors d start k"
    unfolding sectors_def using ne by (intro arg_cong [where f = concat] map_cong) (auto simp: d1)
  then have "sectors d1 start (Suc k) = take (k * SECTOR_SIZE) buffer @ ?b"
    using Suc.prems(5) by (simp add: sectors_Suc d1)
  also have "\<dots> = take (Suc k * SECTOR_SIZE) buffer"
    using take_add [of "k * SECTOR_SIZE" SECTOR_SIZE buffer] by (simp add: subslice_def add.commute)
  finally have "sectors d1 start (Suc k) = take (Suc k * SECTOR_SIZE) buffer" .
  moreover have "m = n - Suc k" using Suc.hyps(2) by simp
  ultimately have "valid d' \<and> sectors d' start n = take (n * SECTOR_SIZE) buffer
     \<and> (\<forall>t. (\<forall>i. Suc k \<le> i \<and> i < n \<longrightarrow> t \<noteq> start + of_nat i) \<longrightarrow> img d' t = img d1 t)"
    using Suc.hyps(1) [of "Suc k" d1] d1 kn Suc.prems(3,4) l by simp
  with d1 kn show ?case by auto
qed

lemma write_sectors_Ok:
  assumes "valid d" "unat start + n \<le> 2 ^ 64" "write_sectors wr start n buffer d = Ret (d', Ok u)"
  shows "valid d' \<and> sectors d' start n = take (n * SECTOR_SIZE) buffer
     \<and> (\<forall>t. (\<forall>i < n. t \<noteq> start + of_nat i) \<longrightarrow> img d' t = img d t)"
  using assms write_sectors_loop_Ok [of d 0 n buffer start d' u]
  by (simp add: write_sectors_def sectors_def split: if_splits)

end

section \<open>A device in memory\<close>

text \<open>The memory-backed device that the tests of \<open>kernel/src/diskfs.rs\<close> use: a vector of sectors.\<close>

definition ram_read :: "bytes list rd_op" where
  "ram_read ds s = (ds, if unat s < length ds then Ok (ds ! unat s) else Err BlkInvalidSector)"

definition ram_write :: "bytes list wr_op" where
  "ram_write ds s b =
     (if unat s < length ds then (ds[unat s := b], Ok ()) else (ds, Err BlkInvalidSector))"

definition ram_img :: "bytes list \<Rightarrow> u64 \<Rightarrow> bytes" where
  "ram_img ds s = (if unat s < length ds then ds ! unat s else replicate SECTOR_SIZE 0)"

definition ram_valid :: "bytes list \<Rightarrow> bool" where
  "ram_valid ds \<longleftrightarrow> (\<forall>b \<in> set ds. length b = SECTOR_SIZE)"

interpretation ramdisk: block_device ram_read ram_write ram_img ram_valid
proof
  fix d d' :: "bytes list" and s b r e and u :: unit
  show "ram_valid d \<Longrightarrow> length (ram_img d s) = SECTOR_SIZE"
    by (auto simp: ram_valid_def ram_img_def)
  show "ram_valid d \<Longrightarrow> ram_read d s = (d', r) \<Longrightarrow> ram_valid d' \<and> ram_img d' = ram_img d"
    by (auto simp: ram_read_def)
  show "ram_valid d \<Longrightarrow> ram_read d s = (d', Ok b) \<Longrightarrow> b = ram_img d s"
    by (auto simp: ram_read_def ram_img_def split: if_splits)
  show "ram_valid d \<Longrightarrow> length b = SECTOR_SIZE \<Longrightarrow> ram_write d s b = (d', Ok u) \<Longrightarrow>
      ram_valid d' \<and> ram_img d' = (ram_img d)(s := b)"
    by (auto simp: ram_write_def ram_valid_def ram_img_def fun_eq_iff nth_list_update word_unat_eq_iff dest!: set_update_subset_insert [THEN subsetD] split: if_splits)
  show "ram_valid d \<Longrightarrow> length b = SECTOR_SIZE \<Longrightarrow> ram_write d s b = (d', Err e) \<Longrightarrow>
      ram_valid d' \<and> (\<forall>t. t \<noteq> s \<longrightarrow> ram_img d' t = ram_img d t)"
    by (auto simp: ram_write_def split: if_splits)
qed

text \<open>A device of a fixed number of sectors, which every read below that number returns.\<close>

definition ram_sized :: "nat \<Rightarrow> bytes list \<Rightarrow> bool" where
  "ram_sized n ds \<longleftrightarrow> ram_valid ds \<and> length ds = n"

lemma ram_sized_device: "block_device ram_read ram_write ram_img (ram_sized n)"
proof
  fix d d' :: "bytes list" and s b r e and u :: unit
  show "ram_sized n d \<Longrightarrow> length (ram_img d s) = SECTOR_SIZE"
    by (simp add: ram_sized_def ramdisk.sector_len)
  show "ram_sized n d \<Longrightarrow> ram_read d s = (d', r) \<Longrightarrow> ram_sized n d' \<and> ram_img d' = ram_img d"
    by (auto simp: ram_read_def)
  show "ram_sized n d \<Longrightarrow> ram_read d s = (d', Ok b) \<Longrightarrow> b = ram_img d s"
    using ramdisk.rd_Ok by (simp add: ram_sized_def)
  show "ram_sized n d \<Longrightarrow> length b = SECTOR_SIZE \<Longrightarrow> ram_write d s b = (d', Ok u) \<Longrightarrow>
      ram_sized n d' \<and> ram_img d' = (ram_img d)(s := b)"
    using ramdisk.wr_Ok [of d b s d' u] by (auto simp: ram_sized_def ram_write_def split: if_splits)
  show "ram_sized n d \<Longrightarrow> length b = SECTOR_SIZE \<Longrightarrow> ram_write d s b = (d', Err e) \<Longrightarrow>
      ram_sized n d' \<and> (\<forall>t. t \<noteq> s \<longrightarrow> ram_img d' t = ram_img d t)"
    by (auto simp: ram_write_def split: if_splits)
qed

lemma ram_sized_reads: "unat s < n \<Longrightarrow> sector_reads ram_read (ram_sized n) s"
  by (simp add: sector_reads_def ram_read_def ram_sized_def)

text \<open>C27: on a device that meets its contract, a successful \<open>write_sectors\<close> followed by a
  successful \<open>read_sectors\<close> of the same range gives back the bytes written and leaves the rest of
  the caller's buffer alone; no other sector changes.\<close>

theorem sectors_roundtrip:
  assumes "block_device rd wr img valid" "valid d" "unat start + n \<le> 2 ^ 64"
    and "write_sectors wr start n data d = Ret (d1, Ok u)"
    and "read_sectors rd start n buffer d1 = Ret (d2, buffer', Ok v)"
  shows "buffer' = take (n * SECTOR_SIZE) data @ drop (n * SECTOR_SIZE) buffer
    \<and> (\<forall>t. (\<forall>i < n. t \<noteq> start + of_nat i) \<longrightarrow> img d2 t = img d t)"
  using block_device.write_sectors_Ok [OF assms(1,2,3,4)] block_device.read_sectors_Ok [OF assms(1) _ assms(5)]
  by auto

theorem sectors_roundtrip_witness:
  "\<exists>d1 d2 buffer'. write_sectors ram_write 1 1 (replicate 512 7) [replicate 512 0, replicate 512 0] = Ret (d1, Ok ())
     \<and> read_sectors ram_read 1 1 (replicate 512 0) d1 = Ret (d2, buffer', Ok ()) \<and> take 512 buffer' = replicate 512 7"
proof -
  let ?d = "[replicate 512 0, replicate 512 0] :: bytes list" and ?d1 = "[replicate 512 0, replicate 512 7] :: bytes list"
  have w: "write_sectors ram_write 1 1 (replicate 512 7) ?d = Ret (?d1, Ok ())"
    by (simp add: write_sectors_def SECTOR_SIZE_def ram_write_def subslice_def)
  have r: "read_sectors ram_read 1 1 (replicate 512 0) ?d1 = Ret (?d1, overwrite (replicate 512 0) 0 (replicate 512 7), Ok ())"
    by (simp add: read_sectors_def SECTOR_SIZE_def ram_read_def)
  from sectors_roundtrip [OF ramdisk.block_device_axioms _ _ w r] w r show ?thesis
    by (simp add: ram_valid_def SECTOR_SIZE_def)
qed

end
