(* ===== verification/Rust_String.thy ===== *)
theory Rust_String
  imports Panda_Prelude
begin

unbundle bit_operations_syntax

text \<open>
  The string functions of the Rust standard library that the file systems and the network stack
  use. A Rust string is its UTF-8 encoding, a sequence of bytes, here a \<open>string\<close> of HOL
  (a list of 8-bit characters). The case tables of Unicode are not part of the model: lower case
  outside ASCII is the parameter \<open>ulower\<close>.
\<close>

definition chr_of :: "u8 \<Rightarrow> char" where
  "chr_of b = char_of (unat b)"

definition byte_of :: "char \<Rightarrow> u8" where
  "byte_of c = of_nat (of_char c)"

definition str_of_bytes :: "bytes \<Rightarrow> string" where
  "str_of_bytes = map chr_of"

definition bytes_of_str :: "string \<Rightarrow> bytes" where
  "bytes_of_str = map byte_of"

lemma byte_of_chr_of [simp]: "byte_of (chr_of b) = b"
proof -
  have "unat b < 256" using unsigned_less [of b] by simp
  then show ?thesis by (simp add: byte_of_def chr_of_def of_char_of)
qed

lemma chr_of_byte_of [simp]: "chr_of (byte_of c) = c"
proof -
  have "of_char c < (256 :: nat)" by simp
  then show ?thesis by (simp add: byte_of_def chr_of_def unat_of_nat)
qed

lemma bytes_of_str_of_bytes [simp]: "bytes_of_str (str_of_bytes bs) = bs"
  by (simp add: bytes_of_str_def str_of_bytes_def comp_def)

lemma str_of_bytes_of_str [simp]: "str_of_bytes (bytes_of_str s) = s"
  by (simp add: bytes_of_str_def str_of_bytes_def comp_def)

lemma length_str_of_bytes [simp]: "length (str_of_bytes bs) = length bs"
  by (simp add: str_of_bytes_def)

lemma length_bytes_of_str [simp]: "length (bytes_of_str s) = length s"
  by (simp add: bytes_of_str_def)

section \<open>UTF-8\<close>

definition cont :: "u8 \<Rightarrow> bool" where
  "cont b \<longleftrightarrow> 128 \<le> b \<and> b \<le> 191"

text \<open>The first sequence of a non-empty byte string: its length and whether it encodes a
  character. An invalid sequence is as long as the part that could still have been continued.\<close>

definition utf8_first :: "bytes \<Rightarrow> nat \<times> bool" where
  "utf8_first bs =
     (let b0 = bs ! 0;
          ok = (\<lambda>i lo hi. i < length bs \<and> lo \<le> bs ! i \<and> bs ! i \<le> hi);
          c = (\<lambda>i. i < length bs \<and> cont (bs ! i));
          three = (\<lambda>lo hi. if \<not> ok 1 lo hi then (1, False) else if \<not> c 2 then (2, False) else (3, True));
          four = (\<lambda>lo hi. if \<not> ok 1 lo hi then (1, False) else if \<not> c 2 then (2, False)
                    else if \<not> c 3 then (3, False) else (4, True))
      in
      if b0 < 128 then (1, True)
      else if 194 \<le> b0 \<and> b0 \<le> 223 then (if c 1 then (2, True) else (1, False))
      else if b0 = 224 then three 160 191
      else if 225 \<le> b0 \<and> b0 \<le> 236 \<or> b0 = 238 \<or> b0 = 239 then three 128 191
      else if b0 = 237 then three 128 159
      else if b0 = 240 then four 144 191
      else if 241 \<le> b0 \<and> b0 \<le> 243 then four 128 191
      else if b0 = 244 then four 128 143
      else (1, False))"

lemma utf8_first_pos: "utf8_first bs = (n, v) \<Longrightarrow> 0 < n"
  by (auto simp: utf8_first_def Let_def split: if_splits)

function utf8_valid :: "bytes \<Rightarrow> bool" where
  "utf8_valid bs =
     (if bs = [] then True
      else case utf8_first bs of (n, v) \<Rightarrow> v \<and> utf8_valid (drop n bs))"
  by auto
termination
  by (relation "measure length") (auto dest!: sym [of "(_, _)"] utf8_first_pos)

definition REPLACEMENT :: bytes where
  "REPLACEMENT = [239, 191, 189]"

function utf8_lossy :: "bytes \<Rightarrow> bytes" where
  "utf8_lossy bs =
     (if bs = [] then []
      else case utf8_first bs of (n, v) \<Rightarrow>
        (if v then take n bs else REPLACEMENT) @ utf8_lossy (drop n bs))"
  by auto
termination
  by (relation "measure length") (auto dest!: sym [of "(_, _)"] utf8_first_pos)

declare utf8_valid.simps [simp del] utf8_lossy.simps [simp del]

definition from_utf8 :: "bytes \<Rightarrow> string option" where
  "from_utf8 bs = (if utf8_valid bs then Some (str_of_bytes bs) else None)"

definition from_utf8_lossy :: "bytes \<Rightarrow> string" where
  "from_utf8_lossy bs = str_of_bytes (utf8_lossy bs)"

lemma utf8_lossy_valid: "utf8_valid bs \<Longrightarrow> utf8_lossy bs = bs"
proof (induction bs rule: utf8_lossy.induct)
  case (1 bs)
  show ?case
  proof (cases "bs = []")
    case True
    then show ?thesis by (simp add: utf8_lossy.simps)
  next
    case False
    obtain n v where f: "utf8_first bs = (n, v)" by (cases "utf8_first bs")
    with 1(2) False have v: "v" "utf8_valid (drop n bs)" by (subst (asm) utf8_valid.simps; simp)+
    then have "utf8_lossy (drop n bs) = drop n bs" using 1(1) [OF False f [symmetric]] by simp
    with False f v show ?thesis by (subst utf8_lossy.simps) simp
  qed
qed

definition is_ascii :: "bytes \<Rightarrow> bool" where
  "is_ascii bs \<longleftrightarrow> (\<forall>b \<in> set bs. b < 128)"

lemma ascii_valid: "is_ascii bs \<Longrightarrow> utf8_valid bs"
proof (induction bs)
  case Nil
  then show ?case by (simp add: utf8_valid.simps)
next
  case (Cons b bs)
  then have "utf8_first (b # bs) = (1, True)" by (simp add: utf8_first_def is_ascii_def)
  with Cons show ?case by (subst utf8_valid.simps) (simp add: is_ascii_def)
qed

lemma from_utf8_lossy_valid: "utf8_valid bs \<Longrightarrow> from_utf8_lossy bs = str_of_bytes bs"
  by (simp add: from_utf8_lossy_def utf8_lossy_valid)

lemma from_utf8_ascii: "is_ascii bs \<Longrightarrow> from_utf8 bs = Some (str_of_bytes bs)"
  by (simp add: from_utf8_def ascii_valid)

text \<open>The encoding of a code point.\<close>

definition utf8_encode :: "nat \<Rightarrow> bytes" where
  "utf8_encode c =
     (if c < 128 then [of_nat c]
      else if c < 2048 then [of_nat (192 + c div 64), of_nat (128 + c mod 64)]
      else if c < 65536 then
        [of_nat (224 + c div 4096), of_nat (128 + c div 64 mod 64), of_nat (128 + c mod 64)]
      else
        [of_nat (240 + c div 262144), of_nat (128 + c div 4096 mod 64),
         of_nat (128 + c div 64 mod 64), of_nat (128 + c mod 64)])"

section \<open>UTF-16\<close>

text \<open>\<open>from_utf16_lossy\<close>: a surrogate without its partner becomes the replacement character.\<close>

fun utf16_code_points :: "u16 list \<Rightarrow> nat list" where
  "utf16_code_points [] = []"
| "utf16_code_points (u # us) =
     (if u < 55296 \<or> 57343 < u then unat u # utf16_code_points us
      else if 56320 \<le> u then 65533 # utf16_code_points us
      else case us of
        [] \<Rightarrow> [65533]
      | u2 # us' \<Rightarrow>
          if u2 < 56320 \<or> 57343 < u2 then 65533 # utf16_code_points us
          else (65536 + (unat u - 55296) * 1024 + (unat u2 - 56320)) # utf16_code_points us')"

definition from_utf16_lossy :: "u16 list \<Rightarrow> string" where
  "from_utf16_lossy us = str_of_bytes (concat (map utf8_encode (utf16_code_points us)))"

section \<open>Case and white space\<close>

definition ascii_lower :: "char \<Rightarrow> char" where
  "ascii_lower c = (if 65 \<le> (of_char c :: nat) \<and> (of_char c :: nat) \<le> 90 then char_of (of_char c + 32 :: nat) else c)"

definition ascii_str :: "string \<Rightarrow> bool" where
  "ascii_str s \<longleftrightarrow> (\<forall>c \<in> set s. (of_char c :: nat) < 128)"

definition to_lowercase :: "(string \<Rightarrow> string) \<Rightarrow> string \<Rightarrow> string" where
  "to_lowercase ulower s = (if ascii_str s then map ascii_lower s else ulower s)"

definition eq_ignore_ascii_case :: "string \<Rightarrow> string \<Rightarrow> bool" where
  "eq_ignore_ascii_case s t \<longleftrightarrow> map ascii_lower s = map ascii_lower t"

text \<open>The code points with the property \<open>White_Space\<close>. A character of a UTF-8 string is a suffix
  of it exactly when its encoding is a suffix of the bytes.\<close>

definition white_space :: "nat list" where
  "white_space = [9, 10, 11, 12, 13, 32, 133, 160, 5760, 8192, 8193, 8194, 8195, 8196, 8197, 8198,
     8199, 8200, 8201, 8202, 8232, 8233, 8239, 8287, 12288]"

definition ws_suffix :: "string \<Rightarrow> nat option" where
  "ws_suffix s =
     (case filter (\<lambda>w. suffix w s) (map (str_of_bytes \<circ> utf8_encode) white_space) of
        [] \<Rightarrow> None
      | w # ws \<Rightarrow> Some (length w))"

lemma ws_suffix_pos: "ws_suffix s = Some n \<Longrightarrow> 0 < n \<and> n \<le> length s"
proof -
  assume "ws_suffix s = Some n"
  then obtain w ws where f: "filter (\<lambda>w. suffix w s) (map (str_of_bytes \<circ> utf8_encode) white_space) = w # ws"
    and n: "n = length w"
    by (auto simp: ws_suffix_def split: list.splits)
  then have "w \<in> set (filter (\<lambda>w. suffix w s) (map (str_of_bytes \<circ> utf8_encode) white_space))" by simp
  then obtain c where "w = str_of_bytes (utf8_encode c)" "suffix w s" by auto
  then show ?thesis using n by (auto simp: utf8_encode_def dest: suffix_length_le)
qed

function trim_end :: "string \<Rightarrow> string" where
  "trim_end s = (case ws_suffix s of None \<Rightarrow> s | Some n \<Rightarrow> trim_end (take (length s - n) s))"
  by auto
termination
  by (relation "measure length") (auto dest: ws_suffix_pos)

declare trim_end.simps [simp del]

lemma eq_ignore_ascii_case_refl [simp]: "eq_ignore_ascii_case s s"
  by (simp add: eq_ignore_ascii_case_def)

end
