(* ===== verification/Diskfs.thy ===== *)
theory Diskfs
  imports Block_Device Byte_Codec Rust_String Kernel_Monad Vfs_Base
begin

text \<open>
  The read-only disk file system of \<open>kernel/src/diskfs.rs\<close>: superblock, inodes with 28 direct
  blocks, directories as packed records. The device is a parameter (\<open>Block_Device\<close>); every read
  may fail and the error leaves the device state of the failed read behind. \<open>read_file\<close> also
  writes into the caller's buffer, which is part of its state.
\<close>

definition FS_MAGIC :: u32 where
  "FS_MAGIC = 0x50414E44"

definition FS_VERSION :: u32 where
  "FS_VERSION = 1"

definition MAX_DIRECT_BLOCKS :: nat where
  "MAX_DIRECT_BLOCKS = 28"

definition MAX_FILENAME_LEN :: nat where
  "MAX_FILENAME_LEN = 255"

definition DIRENT_HEADER_SIZE :: nat where
  "DIRENT_HEADER_SIZE = 5"

text \<open>The size of the packed structure \<open>Inode\<close>: 4 + 4 + 8 + 28 * 4 bytes.\<close>

definition INODE_SIZE :: nat where
  "INODE_SIZE = 128"

datatype inode_type = InodeFile | InodeDir

definition inode_type_from_u32 :: "u32 \<Rightarrow> inode_type option" where
  "inode_type_from_u32 v = (if v = 1 then Some InodeFile else if v = 2 then Some InodeDir else None)"

datatype diskfs_error = DfIoError | DfInvalidMagic | DfInvalidVersion | DfInvalidInode
  | DfInvalidInodeType | DfInvalidPath | DfNotFound | DfNotADirectory | DfNotAFile

record disk_file =
  dk_inode :: u32
  dk_file_type :: inode_type
  dk_size :: u64
  dk_blocks :: "u32 list"

record disk_dir_entry =
  de_inode :: u32
  de_name :: string

record 'd diskfs =
  df_device :: 'd
  df_root_inode :: u32
  df_total_inodes :: u32
  df_first_data_block :: u32

definition df_sector :: "'d rd_op \<Rightarrow> u64 \<Rightarrow> ('d diskfs, bytes, diskfs_error) prog" where
  "df_sector rd s fs =
     (case rd (df_device fs) s of
        (d, r) \<Rightarrow> Ret (fs\<lparr>df_device := d\<rparr>, map_err (\<lambda>_. DfIoError) r))"

definition diskfs_new :: "'d rd_op \<Rightarrow> 'd \<Rightarrow> ('d diskfs, diskfs_error) result outcome" where
  "diskfs_new rd device =
     (case rd device 0 of
        (d, Err e) \<Rightarrow> Ret (Err DfIoError)
      | (d, Ok sector) \<Rightarrow>
          bindO (le_at 4 sector 0) (\<lambda>magic.
          bindO (le_at 4 sector 4) (\<lambda>version.
          bindO (le_at 4 sector 8) (\<lambda>root_inode.
          bindO (le_at 4 sector 12) (\<lambda>total_inodes.
          bindO (le_at 4 sector 16) (\<lambda>first_data_block.
          if magic \<noteq> FS_MAGIC then Ret (Err DfInvalidMagic)
          else if version \<noteq> FS_VERSION then Ret (Err DfInvalidVersion)
          else Ret (Ok \<lparr>df_device = d, df_root_inode = root_inode, df_total_inodes = total_inodes,
                 df_first_data_block = first_data_block\<rparr>)))))))"

text \<open>The loop over the block pointers keeps the ones that are not zero.\<close>

fun inode_blocks :: "bytes \<Rightarrow> nat \<Rightarrow> nat list \<Rightarrow> u32 list outcome" where
  "inode_blocks sector base [] = Ret []"
| "inode_blocks sector base (i # is) =
     bindO (le_at 4 sector (base + i * 4)) (\<lambda>block.
     bindO (inode_blocks sector base is) (\<lambda>blocks.
     Ret (if block \<noteq> 0 then block # blocks else blocks)))"

definition df_read_inode :: "'d rd_op \<Rightarrow> u32 \<Rightarrow> ('d diskfs, disk_file, diskfs_error) prog" where
  "df_read_inode rd inode_num =
     bindP (getP df_total_inodes) (\<lambda>count.
     if count \<le> inode_num then failP DfInvalidInode
     else
       let inodes_per_sector = SECTOR_SIZE div INODE_SIZE;
           sector_num = 1 + of_nat (unat inode_num div inodes_per_sector);
           base = (unat inode_num mod inodes_per_sector) * INODE_SIZE
       in
       bindP (df_sector rd sector_num) (\<lambda>sector.
       bindP (liftO (le_at 4 sector base)) (\<lambda>inode_num_on_disk.
       bindP (liftO (le_at 4 sector (base + 4))) (\<lambda>file_type_raw.
       bindP (liftO (le_at 8 sector (base + 8))) (\<lambda>size.
       bindP (liftR (ok_or (inode_type_from_u32 file_type_raw) DfInvalidInodeType)) (\<lambda>file_type.
       bindP (liftO (inode_blocks sector (base + 16) [0..<MAX_DIRECT_BLOCKS])) (\<lambda>blocks.
       retP \<lparr>dk_inode = inode_num_on_disk, dk_file_type = file_type, dk_size = size,
         dk_blocks = blocks\<rparr>)))))))"

text \<open>The loop of \<open>read_dir\<close> over the records; \<open>(offset + 3) & !3\<close> rounds up to a multiple of four.\<close>

function parse_dirents :: "bytes \<Rightarrow> nat \<Rightarrow> nat \<Rightarrow> disk_dir_entry list outcome" where
  "parse_dirents buffer limit offset =
     (if limit \<le> offset then Ret []
      else if limit < offset + DIRENT_HEADER_SIZE then Ret []
      else
        bindO (le_at 4 buffer offset) (\<lambda>inode_num.
        bindO (arr_get buffer (offset + 4)) (\<lambda>b.
        let name_len = unat b; start = offset + DIRENT_HEADER_SIZE in
        if name_len = 0 \<or> MAX_FILENAME_LEN < name_len \<or> limit < start + name_len then Ret []
        else
          bindO (slice_at buffer start (start + name_len)) (\<lambda>name_bytes.
          bindO (parse_dirents buffer limit ((start + name_len + 3) div 4 * 4)) (\<lambda>entries.
          Ret (\<lparr>de_inode = inode_num, de_name = from_utf8_lossy name_bytes\<rparr> # entries))))))"
  by auto
termination
  by (relation "measure (\<lambda>(buffer, limit, offset). limit - offset)") (auto simp: DIRENT_HEADER_SIZE_def)

declare parse_dirents.simps [simp del]

definition df_read_dir :: "'d rd_op \<Rightarrow> u32 \<Rightarrow> ('d diskfs, disk_dir_entry list, diskfs_error) prog" where
  "df_read_dir rd inode_num =
     bindP (df_read_inode rd inode_num) (\<lambda>file.
     if dk_file_type file \<noteq> InodeDir then failP DfNotADirectory
     else
       bindP (foldP (\<lambda>buffer block_num. bindP (df_sector rd (ucast block_num)) (\<lambda>sector. retP (buffer @ sector)))
                [] (dk_blocks file)) (\<lambda>buffer.
       liftO (parse_dirents buffer (min (unat (dk_size file)) (length buffer)) 0)))"

fun find_entry :: "disk_dir_entry list \<Rightarrow> string \<Rightarrow> (u32, diskfs_error) result" where
  "find_entry [] name = Err DfNotFound"
| "find_entry (e # es) name = (if de_name e = name then Ok (de_inode e) else find_entry es name)"

definition df_lookup :: "'d rd_op \<Rightarrow> u32 \<Rightarrow> string \<Rightarrow> ('d diskfs, u32, diskfs_error) prog" where
  "df_lookup rd dir_inode name =
     bindP (df_read_dir rd dir_inode) (\<lambda>entries. liftR (find_entry entries name))"

definition df_resolve_path :: "'d rd_op \<Rightarrow> string \<Rightarrow> ('d diskfs, u32, diskfs_error) prog" where
  "df_resolve_path rd path =
     (if path = [] \<or> \<not> starts_with_slash path then failP DfInvalidPath
      else if path = ''/'' then getP df_root_inode
      else bindP (getP df_root_inode) (\<lambda>root. foldP (df_lookup rd) root (path_components path)))"

text \<open>The loop of \<open>read_file\<close> over the enumerated blocks from the first one on.\<close>

fun df_read_loop ::
  "'d rd_op \<Rightarrow> nat \<Rightarrow> nat \<Rightarrow> nat \<Rightarrow> (nat \<times> u32) list \<Rightarrow> nat \<Rightarrow> ('d diskfs \<times> bytes, nat, diskfs_error) prog" where
  "df_read_loop rd start_block_idx start_block_offset available [] bytes_read = retP bytes_read"
| "df_read_loop rd start_block_idx start_block_offset available ((i, block_num) # bs) bytes_read =
     (if available \<le> bytes_read then retP bytes_read
      else
        bindP (zoomP fst (\<lambda>fs (_, buffer). (fs, buffer)) (df_sector rd (ucast block_num))) (\<lambda>sector.
        let block_offset = (if i = start_block_idx then start_block_offset else 0);
            to_read = min (SECTOR_SIZE - block_offset) (available - bytes_read)
        in
        bindP (liftO (slice_at sector block_offset (block_offset + to_read))) (\<lambda>data.
        bindP (getP snd) (\<lambda>buffer.
        if length buffer < bytes_read + to_read then panicP
        else
          bindP (modP (\<lambda>(fs, buffer). (fs, overwrite buffer bytes_read data))) (\<lambda>_.
          df_read_loop rd start_block_idx start_block_offset available bs (bytes_read + to_read))))))"

definition df_read_file ::
  "'d rd_op \<Rightarrow> u32 \<Rightarrow> nat \<Rightarrow> ('d diskfs \<times> bytes, nat, diskfs_error) prog" where
  "df_read_file rd inode_num offset =
     bindP (zoomP fst (\<lambda>fs (_, buffer). (fs, buffer)) (df_read_inode rd inode_num)) (\<lambda>file.
     if dk_file_type file \<noteq> InodeFile then failP DfNotAFile
     else if unat (dk_size file) \<le> offset then retP 0
     else
       bindP (getP snd) (\<lambda>buffer.
       let available = min (unat (dk_size file) - offset) (length buffer);
           start_block_idx = offset div SECTOR_SIZE;
           start_block_offset = offset mod SECTOR_SIZE
       in
       df_read_loop rd start_block_idx start_block_offset available
         (drop start_block_idx (enumerate 0 (dk_blocks file))) 0))"

definition df_stat :: "'d rd_op \<Rightarrow> u32 \<Rightarrow> ('d diskfs, disk_file, diskfs_error) prog" where
  "df_stat rd inode_num = df_read_inode rd inode_num"

section \<open>What the disk holds\<close>

text \<open>The inode that an image of the disk holds, and the bytes of a file.\<close>

definition inode_sector :: "u32 \<Rightarrow> u64" where
  "inode_sector n = 1 + of_nat (unat n div 4)"

definition disk_inode :: "(u64 \<Rightarrow> bytes) \<Rightarrow> u32 \<Rightarrow> u32 \<Rightarrow> (disk_file, diskfs_error) result" where
  "disk_inode im tot n =
     (if tot \<le> n then Err DfInvalidInode
      else
        let sector = im (inode_sector n);
            at = (\<lambda>k off. subslice sector (unat n mod 4 * 128 + off) (unat n mod 4 * 128 + off + k))
        in
        case inode_type_from_u32 (from_le (at 4 4)) of
          None \<Rightarrow> Err DfInvalidInodeType
        | Some t \<Rightarrow> Ok \<lparr>dk_inode = from_le (at 4 0), dk_file_type = t, dk_size = from_le (at 8 8),
            dk_blocks = filter (\<lambda>b. b \<noteq> 0) (map (\<lambda>i. from_le (at 4 (16 + i * 4))) [0..<28])\<rparr>)"

text \<open>The sectors that hold an inode and its data.\<close>

definition inode_sectors :: "(u64 \<Rightarrow> bytes) \<Rightarrow> u32 \<Rightarrow> u32 \<Rightarrow> u64 list" where
  "inode_sectors im tot n =
     inode_sector n # (case disk_inode im tot n of Ok f \<Rightarrow> map ucast (dk_blocks f) | Err _ \<Rightarrow> [])"

definition disk_content :: "(u64 \<Rightarrow> bytes) \<Rightarrow> disk_file \<Rightarrow> bytes" where
  "disk_content im f = concat (map (\<lambda>b. im (ucast b)) (dk_blocks f))"

lemma inode_blocks_Ret:
  "\<forall>i \<in> set is. base + i * 4 + 4 \<le> length sector \<Longrightarrow>
   inode_blocks sector base is =
     Ret (filter (\<lambda>b. b \<noteq> 0) (map (\<lambda>i. from_le (subslice sector (base + i * 4) (base + i * 4 + 4))) is))"
  by (induction "is") (simp_all add: le_at_def)

lemma parse_dirents_total: "limit \<le> length buffer \<Longrightarrow> \<exists>es. parse_dirents buffer limit offset = Ret es"
proof (induction buffer limit offset rule: parse_dirents.induct)
  case (1 buffer limit offset)
  let ?nl = "unat (buffer ! (offset + 4))" and ?st = "offset + DIRENT_HEADER_SIZE"
  show ?case
  proof (cases "offset < limit \<and> ?st \<le> limit \<and> ?nl \<noteq> 0 \<and> ?nl \<le> MAX_FILENAME_LEN \<and> ?st + ?nl \<le> limit")
    case True
    then have "\<exists>es. parse_dirents buffer limit ((?st + ?nl + 3) div 4 * 4) = Ret es"
      using 1(2) by (intro 1(1)) (auto simp: DIRENT_HEADER_SIZE_def)
    then show ?thesis
      using True 1(2) by (subst parse_dirents.simps) (auto simp: DIRENT_HEADER_SIZE_def le_at_def arr_get_def slice_at_def Let_def)
  next
    case False
    then show ?thesis
      using 1(2) by (subst parse_dirents.simps) (auto simp: DIRENT_HEADER_SIZE_def le_at_def arr_get_def slice_at_def Let_def)
  qed
qed

section \<open>Directories as records\<close>

text \<open>The record of a directory entry as the comment on \<open>DIRENT_HEADER_SIZE\<close> in \<open>diskfs.rs\<close> describes it and
  \<open>DirEntry.to_bytes\<close> of \<open>scripts/mkdiskimg.py\<close> writes it: the inode number in little endian, the length of the
  name in a byte, the name, zeros up to a multiple of four. There is no terminator, unlike the
  module comment says.\<close>

definition dirent_bytes :: "disk_dir_entry \<Rightarrow> bytes" where
  "dirent_bytes e = le_bytes 4 (de_inode e) @ of_nat (length (de_name e)) # bytes_of_str (de_name e)"

definition dirent_record :: "disk_dir_entry \<Rightarrow> bytes" where
  "dirent_record e = dirent_bytes e @ replicate ((4 - length (dirent_bytes e) mod 4) mod 4) 0"

definition dirent_ok :: "disk_dir_entry \<Rightarrow> bool" where
  "dirent_ok e \<longleftrightarrow> de_name e \<noteq> [] \<and> length (de_name e) \<le> MAX_FILENAME_LEN \<and> utf8_valid (bytes_of_str (de_name e))"

lemma length_dirent_bytes: "length (dirent_bytes e) = 5 + length (de_name e)"
  by (simp add: dirent_bytes_def)

lemma round_up_4: "n + (4 - n mod 4) mod 4 = (n + 3) div 4 * (4 :: nat)"
proof -
  obtain q r where n: "n = 4 * q + r" "r < 4" by (metis mod_less_divisor mult_div_mod_eq zero_less_numeral)
  then consider "r = 0" | "r = 1" | "r = 2" | "r = 3" by linarith
  moreover have "n mod 4 = r" "n div 4 = q" using n by simp_all
  ultimately show ?thesis using n by cases (simp_all add: div_add1_eq [of _ 3])
qed

lemma length_dirent_record: "length (dirent_record e) = (5 + length (de_name e) + 3) div 4 * 4"
  using round_up_4 [of "5 + length (de_name e)"] by (simp add: dirent_record_def length_dirent_bytes)

lemma parse_dirent_step:
  assumes "dirent_ok e" "4 dvd length pre" "limit \<le> length (pre @ dirent_record e @ rest)"
    and "length pre + length (dirent_record e) \<le> limit"
  shows "parse_dirents (pre @ dirent_record e @ rest) limit (length pre) =
    bindO (parse_dirents (pre @ dirent_record e @ rest) limit (length (pre @ dirent_record e))) (\<lambda>es. Ret (e # es))"
proof -
  let ?b = "pre @ dirent_record e @ rest" and ?o = "length pre" and ?n = "length (de_name e)"
  have n: "0 < ?n" "?n \<le> 255" using assms(1) by (auto simp: dirent_ok_def MAX_FILENAME_LEN_def)
  have fit: "5 + ?n \<le> length (dirent_record e)" by (simp add: dirent_record_def length_dirent_bytes)
  have ino: "from_le (subslice ?b ?o (?o + 4)) = de_inode e"
    by (simp add: subslice_def dirent_record_def dirent_bytes_def)
  have len: "unat (?b ! (?o + 4)) = ?n"
    using n by (simp add: nth_append dirent_record_def dirent_bytes_def unat_of_nat)
  have name: "subslice ?b (?o + 5) (?o + 5 + ?n) = bytes_of_str (de_name e)"
    by (simp add: subslice_def dirent_record_def dirent_bytes_def)
  have utf: "from_utf8_lossy (bytes_of_str (de_name e)) = de_name e"
    using assms(1) by (simp add: dirent_ok_def from_utf8_lossy_valid)
  have al: "(?o + 5 + ?n + 3) div 4 * 4 = length (pre @ dirent_record e)"
  proof -
    obtain k where k: "?o = 4 * k" using assms(2) by (rule dvdE)
    have "(4 * k + (8 + ?n)) div 4 = k + (8 + ?n) div 4" by simp
    then show ?thesis by (simp add: k length_dirent_record add.left_commute)
  qed
  have eta: "\<lparr>de_inode = de_inode e, de_name = de_name e\<rparr> = e" by simp
  define b where "b = ?b"
  define o' where "o' = length (pre @ dirent_record e)"
  have "le_at 4 b ?o = Ret (de_inode e)" "arr_get b (?o + 4) = Ret (b ! (?o + 4))" "unat (b ! (?o + 4)) = ?n"
    "slice_at b (?o + 5) (?o + 5 + ?n) = Ret (bytes_of_str (de_name e))" "(?o + 5 + ?n + 3) div 4 * 4 = o'"
    "\<not> limit < ?o + 5" "\<not> limit < ?o + 5 + ?n"
    using ino len name al assms(3,4) fit unfolding b_def o'_def by (simp_all add: le_at_def arr_get_def slice_at_def)
  then show ?thesis
    using assms(4) fit n unfolding b_def [symmetric] o'_def [symmetric]
    by (subst parse_dirents.simps) (simp add: utf eta MAX_FILENAME_LEN_def DIRENT_HEADER_SIZE_def Let_def del: le_at_Ret arr_get_Ret slice_at_Ret)
qed

lemma parse_dirents_records:
  "\<forall>e \<in> set es. dirent_ok e \<Longrightarrow> 4 dvd length pre \<Longrightarrow>
   parse_dirents (pre @ concat (map dirent_record es) @ rest)
     (length pre + length (concat (map dirent_record es))) (length pre) = Ret es"
proof (induction es arbitrary: pre)
  case Nil
  then show ?case by (simp add: parse_dirents.simps)
next
  case (Cons e es)
  let ?tail = "concat (map dirent_record es) @ rest"
  have "4 dvd length (pre @ dirent_record e)" using Cons.prems(2) by (simp add: length_dirent_record)
  with Cons.IH [of "pre @ dirent_record e"] Cons.prems(1)
  have "parse_dirents (pre @ dirent_record e @ ?tail)
     (length pre + length (concat (map dirent_record (e # es)))) (length (pre @ dirent_record e)) = Ret es"
    by (simp add: add.assoc)
  then show ?case
    using parse_dirent_step [of e pre "length pre + length (concat (map dirent_record (e # es)))" ?tail] Cons.prems
    by simp
qed

text \<open>An inode is a directory with exactly these entries, in sectors that can be read.\<close>

definition dir_holds ::
  "'d rd_op \<Rightarrow> ('d \<Rightarrow> bool) \<Rightarrow> (u64 \<Rightarrow> bytes) \<Rightarrow> u32 \<Rightarrow> u32 \<Rightarrow> disk_dir_entry list \<Rightarrow> bool" where
  "dir_holds rd valid im tot n es \<longleftrightarrow> (\<exists>f rest. disk_inode im tot n = Ok f \<and> dk_file_type f = InodeDir
     \<and> disk_content im f = concat (map dirent_record es) @ rest
     \<and> unat (dk_size f) = length (concat (map dirent_record es)) \<and> (\<forall>e \<in> set es. dirent_ok e)
     \<and> (\<forall>s \<in> set (inode_sectors im tot n). sector_reads rd valid s))"

text \<open>The result of a walk along the components of a path, from the records on the disk alone: the
  first entry with the name leads on; a directory without it, a file in the way and an inode that
  is not valid end the walk.\<close>

inductive disk_walks ::
  "'d rd_op \<Rightarrow> ('d \<Rightarrow> bool) \<Rightarrow> (u64 \<Rightarrow> bytes) \<Rightarrow> u32 \<Rightarrow> u32 \<Rightarrow> string list \<Rightarrow> (u32, diskfs_error) result \<Rightarrow> bool"
  for rd valid im tot where
  arrive: "disk_walks rd valid im tot n [] (Ok n)"
| step: "dir_holds rd valid im tot n es \<Longrightarrow> map_of (map (\<lambda>e. (de_name e, de_inode e)) es) c = Some m \<Longrightarrow>
    disk_walks rd valid im tot m cs r \<Longrightarrow> disk_walks rd valid im tot n (c # cs) r"
| missing: "dir_holds rd valid im tot n es \<Longrightarrow> c \<notin> de_name ` set es \<Longrightarrow>
    disk_walks rd valid im tot n (c # cs) (Err DfNotFound)"
| not_dir: "sector_reads rd valid (inode_sector n) \<Longrightarrow> disk_inode im tot n = Ok f \<Longrightarrow> dk_file_type f = InodeFile \<Longrightarrow>
    disk_walks rd valid im tot n (c # cs) (Err DfNotADirectory)"
| bad_inode: "sector_reads rd valid (inode_sector n) \<Longrightarrow> disk_inode im tot n = Err e \<Longrightarrow>
    disk_walks rd valid im tot n (c # cs) (Err e)"

context block_device
begin

text \<open>Reading leaves everything but the device alone, and the contents of the device.\<close>

definition same_disk :: "'d diskfs \<Rightarrow> 'd diskfs \<Rightarrow> bool" where
  "same_disk fs fs' \<longleftrightarrow> valid (df_device fs') \<and> img (df_device fs') = img (df_device fs)
     \<and> fs' = fs\<lparr>df_device := df_device fs'\<rparr>"

lemma same_disk_fields:
  "same_disk fs fs' \<Longrightarrow> valid (df_device fs') \<and> img (df_device fs') = img (df_device fs)
     \<and> df_root_inode fs' = df_root_inode fs \<and> df_total_inodes fs' = df_total_inodes fs"
  by (cases fs; cases fs') (simp add: same_disk_def)

lemma same_disk_refl: "valid (df_device fs) \<Longrightarrow> same_disk fs fs"
  by (simp add: same_disk_def)

lemma same_disk_trans: "same_disk fs fs' \<Longrightarrow> same_disk fs' fs'' \<Longrightarrow> same_disk fs fs''"
  by (cases fs; cases fs'; cases fs'') (simp add: same_disk_def)

lemma df_sector_spec:
  assumes "valid (df_device fs)"
  shows "spec (df_sector rd s) fs (\<lambda>fs' r. same_disk fs fs'
     \<and> (r = Ok (img (df_device fs) s) \<or> r = Err DfIoError \<and> \<not> sector_reads rd valid s))"
proof -
  obtain d r where rd: "rd (df_device fs) s = (d, r)" by (cases "rd (df_device fs) s")
  then have "valid d" "img d = img (df_device fs)" using rd_img [OF assms] by auto
  moreover have "r = Ok b \<Longrightarrow> b = img (df_device fs) s" for b using rd_Ok [OF assms] rd by simp
  ultimately show ?thesis
    using rd assms by (cases r) (auto simp: spec_def df_sector_def same_disk_def sector_reads_def)
qed

lemma df_read_inode_spec:
  assumes "valid (df_device fs)"
  shows "spec (df_read_inode rd n) fs (\<lambda>fs' r. same_disk fs fs'
     \<and> (r = Err DfIoError \<and> \<not> sector_reads rd valid (inode_sector n)
        \<or> r = disk_inode (img (df_device fs)) (df_total_inodes fs) n))"
proof (cases "df_total_inodes fs \<le> n")
  case True
  then show ?thesis
    using assms by (simp add: df_read_inode_def spec_simps disk_inode_def same_disk_refl)
next
  case False
  let ?base = "unat n mod 4 * 128" and ?s = "inode_sector n"
  let ?sector = "img (df_device fs) ?s"
  have len: "length ?sector = 512" using sector_len [OF assms] by (simp add: SECTOR_SIZE_def)
  have base: "?base \<le> 384" using mod_less_divisor [of 4 "unat n"] by linarith
  then have bl: "inode_blocks ?sector (?base + 16) [0..<28] =
      Ret (filter (\<lambda>b. b \<noteq> 0) (map (\<lambda>i. from_le (subslice ?sector (?base + 16 + i * 4) (?base + 16 + i * 4 + 4))) [0..<28]))"
    using len by (intro inode_blocks_Ret) auto
  show ?thesis
    unfolding df_read_inode_def
    using False base len bl
    by (auto simp: spec_simps SECTOR_SIZE_def INODE_SIZE_def MAX_DIRECT_BLOCKS_def Let_def disk_inode_def inode_sector_def add.assoc
        intro!: spec_mono [OF df_sector_spec [OF assms]] split: option.splits)
qed

lemma df_blocks_len: "valid d \<Longrightarrow> \<forall>x \<in> set (map (\<lambda>b. img d (ucast b)) bs). length x = SECTOR_SIZE"
  by (simp add: sector_len)

lemma df_read_loop_spec:
  assumes "valid (df_device fs)" "content = concat (map (\<lambda>b. img (df_device fs) (ucast b)) blocks)"
    and "available \<le> length buf" "br \<le> available" "br \<le> length content - offset"
    and "buffer = take br (drop offset content) @ drop br buf"
    and "k \<le> length blocks \<or> br = 0" "k = offset div SECTOR_SIZE \<longrightarrow> br = 0" "offset div SECTOR_SIZE \<le> k"
    and "br < available \<longrightarrow> (offset + br) div SECTOR_SIZE = k
       \<and> (k \<noteq> offset div SECTOR_SIZE \<longrightarrow> (offset + br) mod SECTOR_SIZE = 0)"
  shows "spec (df_read_loop rd (offset div SECTOR_SIZE) (offset mod SECTOR_SIZE) available
      (drop k (enumerate 0 blocks)) br) (fs, buffer)
    (\<lambda>(fs', buf') r. same_disk fs fs' \<and> length buf' = length buf
       \<and> (case r of Ok m \<Rightarrow> m = min available (length content - offset) \<and> buf' = take m (drop offset content) @ drop m buf
          | Err e \<Rightarrow> e = DfIoError \<and> (\<exists>b \<in> set blocks. \<not> sector_reads rd valid (ucast b))))"
  using assms
proof (induction "length blocks - k" arbitrary: k br buffer fs)
  case 0
  have len: "length content = length blocks * SECTOR_SIZE"
    using length_concat_blocks [OF df_blocks_len [OF 0(2), of blocks]] 0(3) by simp
  have "br = min available (length content - offset)"
  proof (cases "br < available")
    case True
    then have "(offset + br) div SECTOR_SIZE = k" using 0 by simp
    then have "k * SECTOR_SIZE \<le> offset + br" using div_times_less_eq_dividend [of "offset + br" SECTOR_SIZE] by simp
    moreover have "length blocks * SECTOR_SIZE \<le> k * SECTOR_SIZE" using 0(1) by simp
    ultimately show ?thesis using 0(6) len True by linarith
  next
    case False
    then show ?thesis using 0 by simp
  qed
  moreover have "drop k (enumerate 0 blocks) = []" using 0(1) by simp
  ultimately show ?case using 0 by (simp add: spec_simps same_disk_refl)
next
  case (Suc x)
  then have k: "k < length blocks" by simp
  then have en: "drop k (enumerate 0 blocks) = (k, blocks ! k) # drop (Suc k) (enumerate 0 blocks)"
    by (simp add: Cons_nth_drop_Suc [symmetric] nth_enumerate_eq)
  have S: "0 < SECTOR_SIZE" by (simp add: SECTOR_SIZE_def)
  have len: "length content = length blocks * SECTOR_SIZE"
    using length_concat_blocks [OF df_blocks_len [OF Suc(3), of blocks]] Suc(4) by simp
  show ?case
  proof (cases "br < available")
    case False
    then show ?thesis using Suc by (simp add: en spec_simps same_disk_refl)
  next
    case True
    let ?pos = "offset + br"
    define bo where "bo = (if k = offset div SECTOR_SIZE then offset mod SECTOR_SIZE else 0)"
    define t where "t = min (SECTOR_SIZE - bo) (available - br)"
    have bo: "?pos = k * SECTOR_SIZE + bo" "bo < SECTOR_SIZE"
      using Suc(10,12) True S div_mult_mod_eq [of ?pos SECTOR_SIZE] by (auto simp: bo_def)
    have t: "0 < t" "bo + t \<le> SECTOR_SIZE" "br + t \<le> available" "t = SECTOR_SIZE - bo \<or> br + t = available"
      using bo(2) True by (auto simp: t_def)
    let ?sec = "img (df_device fs) (ucast (blocks ! k))"
    have sl: "length ?sec = SECTOR_SIZE" using sector_len [OF Suc(3)] by simp
    let ?buf = "overwrite buffer br (subslice ?sec bo (bo + t))"
    have buf': "?buf = take (br + t) (drop offset content) @ drop (br + t) buf" and fit: "br + t \<le> length content - offset"
      using copy_block_step [OF df_blocks_len [OF Suc(3), of blocks], of k offset br bo t buffer buf] k bo t Suc(4,7,8)
      by simp_all
    have lbuf: "length buffer = length buf" using Suc(5,6,7,8) by simp
    have step: "spec (df_read_loop rd (offset div SECTOR_SIZE) (offset mod SECTOR_SIZE) available
          (drop (Suc k) (enumerate 0 blocks)) (br + t)) (fs', ?buf)
        (\<lambda>(fs'', buf') r. same_disk fs fs'' \<and> length buf' = length buf
           \<and> (case r of Ok m \<Rightarrow> m = min available (length content - offset) \<and> buf' = take m (drop offset content) @ drop m buf
              | Err e \<Rightarrow> e = DfIoError \<and> (\<exists>b \<in> set blocks. \<not> sector_reads rd valid (ucast b))))" if "same_disk fs fs'" for fs'
    proof -
      have next_pos: "br + t < available \<Longrightarrow> (offset + (br + t)) = Suc k * SECTOR_SIZE"
        using t(4) bo by simp
      have "spec (df_read_loop rd (offset div SECTOR_SIZE) (offset mod SECTOR_SIZE) available
          (drop (Suc k) (enumerate 0 blocks)) (br + t)) (fs', ?buf)
        (\<lambda>(fs'', buf') r. same_disk fs' fs'' \<and> length buf' = length buf
           \<and> (case r of Ok m \<Rightarrow> m = min available (length content - offset) \<and> buf' = take m (drop offset content) @ drop m buf
              | Err e \<Rightarrow> e = DfIoError \<and> (\<exists>b \<in> set blocks. \<not> sector_reads rd valid (ucast b))))"
        using same_disk_fields [OF that] Suc(2,4,5,11) t fit buf' k S next_pos
        by (intro Suc(1)) auto
      then show ?thesis using that by (auto elim!: spec_mono intro: same_disk_trans)
    qed
    show ?thesis
      unfolding en using True
      by (simp add: spec_simps Let_def bo_def [symmetric] t_def [symmetric] del: result.case,
          intro spec_mono [OF df_sector_spec [OF Suc(3)]], elim conjE disjE)
        (use lbuf t sl Suc(5) step k in \<open>auto simp: spec_simps t_def [symmetric]\<close>)
  qed
qed

lemma df_read_file_spec:
  assumes "valid (df_device fs)"
  shows "spec (df_read_file rd n offset) (fs, buf) (\<lambda>(fs', buf') r. same_disk fs fs' \<and> length buf' = length buf
     \<and> (case r of
          Ok m \<Rightarrow> \<exists>f. disk_inode (img (df_device fs)) (df_total_inodes fs) n = Ok f \<and> dk_file_type f = InodeFile
            \<and> m = min (min (unat (dk_size f) - offset) (length buf)) (length (disk_content (img (df_device fs)) f) - offset)
            \<and> buf' = take m (drop offset (disk_content (img (df_device fs)) f)) @ drop m buf
        | Err e \<Rightarrow> e = DfIoError \<and> (\<exists>s \<in> set (inode_sectors (img (df_device fs)) (df_total_inodes fs) n). \<not> sector_reads rd valid s)
            \<or> disk_inode (img (df_device fs)) (df_total_inodes fs) n = Err e
            \<or> (\<exists>f. disk_inode (img (df_device fs)) (df_total_inodes fs) n = Ok f \<and> dk_file_type f = InodeDir \<and> e = DfNotAFile)))"
    (is "spec _ _ ?Q")
  unfolding df_read_file_def
proof (rule spec_bindI [where P = "\<lambda>(fs', b) r. b = buf \<and> same_disk fs fs'
      \<and> (r = Err DfIoError \<and> \<not> sector_reads rd valid (inode_sector n)
         \<or> r = disk_inode (img (df_device fs)) (df_total_inodes fs) n)"], goal_cases)
  case 1
  then show ?case using df_read_inode_spec [OF assms] by (auto simp: spec_zoom elim!: spec_mono)
next
  case (2 s f)
  then obtain fs' where s: "s = (fs', buf)" "same_disk fs fs'"
    and f: "disk_inode (img (df_device fs)) (df_total_inodes fs) n = Ok f" by (cases s) auto
  note s' = same_disk_fields [OF s(2)]
  let ?c = "disk_content (img (df_device fs)) f" and ?a = "min (unat (dk_size f) - offset) (length buf)"
  have "spec (df_read_loop rd (offset div SECTOR_SIZE) (offset mod SECTOR_SIZE)
        ?a (drop (offset div SECTOR_SIZE) (enumerate 0 (dk_blocks f))) 0) (fs', buf)
      (\<lambda>(fs'', buf') r. same_disk fs' fs'' \<and> length buf' = length buf
     \<and> (case r of Ok m \<Rightarrow> m = min ?a (length ?c - offset) \<and> buf' = take m (drop offset ?c) @ drop m buf
        | Err e \<Rightarrow> e = DfIoError \<and> (\<exists>b \<in> set (dk_blocks f). \<not> sector_reads rd valid (ucast b))))"
    using s' by (intro df_read_loop_spec) (auto simp: disk_content_def)
  then have "dk_file_type f = InodeFile \<Longrightarrow> spec (df_read_loop rd (offset div SECTOR_SIZE) (offset mod SECTOR_SIZE)
        ?a (drop (offset div SECTOR_SIZE) (enumerate 0 (dk_blocks f))) 0) (fs', buf) ?Q"
    using f s(2) by (auto elim!: spec_mono intro: same_disk_trans simp: inode_sectors_def split: result.splits)
  then show ?case using f s by (cases "dk_file_type f") (auto simp: spec_simps Let_def)
next
  case (3 s e)
  then show ?case by (cases s) (auto simp: inode_sectors_def)
qed

lemma df_blocks_spec:
  assumes "valid (df_device fs)"
  shows "spec (foldP (\<lambda>buffer block_num. bindP (df_sector rd (ucast block_num)) (\<lambda>sector. retP (buffer @ sector)))
            [] bs) fs
     (\<lambda>fs' r. case r of Ok buffer \<Rightarrow> same_disk fs fs' \<and> buffer = concat (map (\<lambda>b. img (df_device fs) (ucast b)) bs)
        | Err e \<Rightarrow> same_disk fs fs' \<and> e = DfIoError \<and> (\<exists>b \<in> set bs. \<not> sector_reads rd valid (ucast b)))"
proof -
  have "spec (foldP (\<lambda>buffer block_num. bindP (df_sector rd (ucast block_num)) (\<lambda>sector. retP (buffer @ sector)))
            [] bs) fs
     (\<lambda>fs' r. case r of Ok buffer \<Rightarrow> same_disk fs fs' \<and> buffer = concat (map (\<lambda>b. img (df_device fs) (ucast b)) (take (length bs) bs))
        | Err e \<Rightarrow> same_disk fs fs' \<and> e = DfIoError \<and> (\<exists>b \<in> set bs. \<not> sector_reads rd valid (ucast b)))"
  proof (rule spec_foldP)
    fix i acc fs1
    assume i: "i < length bs" and I: "same_disk fs fs1 \<and> acc = concat (map (\<lambda>b. img (df_device fs) (ucast b)) (take i bs))"
    have tr: "same_disk fs s" if "same_disk fs1 s" for s using I that same_disk_trans by blast
    have bad: "\<exists>b \<in> set bs. \<not> sector_reads rd valid (ucast b)" if "\<not> sector_reads rd valid (ucast (bs ! i))"
      using i that by (intro bexI [of _ "bs ! i"]) auto
    show "spec (bindP (df_sector rd (ucast (bs ! i))) (\<lambda>sector. retP (acc @ sector))) fs1
        (\<lambda>fs' r. case r of Ok buffer \<Rightarrow> same_disk fs fs' \<and> buffer = concat (map (\<lambda>b. img (df_device fs) (ucast b)) (take (Suc i) bs))
           | Err e \<Rightarrow> same_disk fs fs' \<and> e = DfIoError \<and> (\<exists>b \<in> set bs. \<not> sector_reads rd valid (ucast b)))"
      using same_disk_fields [of fs fs1] i I unfolding spec_bind
      by (intro spec_mono [OF df_sector_spec])
        (auto simp: spec_simps take_Suc_conv_app_nth dest: tr bad)
  qed (use assms in \<open>simp add: same_disk_refl\<close>)
  then show ?thesis by (auto elim!: spec_mono split: result.splits)
qed

text \<open>The listing of a directory that holds the records of a list of entries.\<close>

lemma df_read_dir_records:
  assumes "valid (df_device fs)" and dir: "dir_holds rd valid (img (df_device fs)) (df_total_inodes fs) n es"
  shows "spec (df_read_dir rd n) fs (\<lambda>fs' r. same_disk fs fs' \<and> r = Ok es)"
  unfolding df_read_dir_def
proof (rule spec_bindI [OF df_read_inode_spec [OF assms(1)]], goal_cases)
  case (1 fs' f)
  then have s: "same_disk fs fs'" and f: "disk_inode (img (df_device fs)) (df_total_inodes fs) n = Ok f" by auto
  note s' = same_disk_fields [OF s]
  let ?c = "disk_content (img (df_device fs)) f"
  from dir f obtain rest where d: "dk_file_type f = InodeDir" "?c = concat (map dirent_record es) @ rest"
      "unat (dk_size f) = length (concat (map dirent_record es))" "\<forall>e \<in> set es. dirent_ok e"
      "\<forall>b \<in> set (dk_blocks f). sector_reads rd valid (ucast b)"
    by (auto simp: dir_holds_def inode_sectors_def)
  then have es: "parse_dirents ?c (min (unat (dk_size f)) (length ?c)) 0 = Ret es"
    using parse_dirents_records [OF d(4), of "[]" rest] by simp
  have "spec (bindP (foldP (\<lambda>buffer block_num. bindP (df_sector rd (ucast block_num)) (\<lambda>sector. retP (buffer @ sector)))
          [] (dk_blocks f)) (\<lambda>buffer. liftO (parse_dirents buffer (min (unat (dk_size f)) (length buffer)) 0))) fs'
      (\<lambda>fs'' r. same_disk fs fs'' \<and> r = Ok es)"
    by (rule spec_bindI [OF df_blocks_spec])
      (use s s' es d(5) in \<open>auto simp: spec_simps disk_content_def dest: same_disk_trans\<close>)
  then show ?case using d(1) by simp
next
  case (2 fs' e)
  then show ?case using dir by (auto simp: dir_holds_def inode_sectors_def)
qed

lemma df_read_dir_error:
  assumes "valid (df_device fs)" "sector_reads rd valid (inode_sector n)"
    and "disk_inode (img (df_device fs)) (df_total_inodes fs) n = r"
    and "r = Err e \<or> (\<exists>f. r = Ok f \<and> dk_file_type f = InodeFile \<and> e = DfNotADirectory)"
  shows "spec (df_read_dir rd n) fs (\<lambda>fs' r. same_disk fs fs' \<and> r = Err e)"
  unfolding df_read_dir_def
  by (rule spec_bindI [OF df_read_inode_spec [OF assms(1)]]) (use assms(2-4) in \<open>auto simp: spec_simps\<close>)

lemma df_read_dir_total:
  assumes "valid (df_device fs)"
  shows "spec (df_read_dir rd n) fs (\<lambda>fs' r. same_disk fs fs')"
  unfolding df_read_dir_def
proof (rule spec_bindI [OF df_read_inode_spec [OF assms]], goal_cases)
  case (1 fs' f)
  then have s: "same_disk fs fs'" by auto
  note s' = same_disk_fields [OF s]
  have "spec (bindP (foldP (\<lambda>buffer block_num. bindP (df_sector rd (ucast block_num)) (\<lambda>sector. retP (buffer @ sector)))
          [] (dk_blocks f)) (\<lambda>buffer. liftO (parse_dirents buffer (min (unat (dk_size f)) (length buffer)) 0))) fs'
      (\<lambda>fs'' r. same_disk fs fs'')"
  proof (rule spec_bindI [OF df_blocks_spec], goal_cases)
    case (2 fs'' buffer)
    obtain es where "parse_dirents buffer (min (unat (dk_size f)) (length buffer)) 0 = Ret es"
      using parse_dirents_total [of "min (unat (dk_size f)) (length buffer)" buffer 0] by auto
    with 2 s show ?case by (auto simp: spec_simps dest: same_disk_trans)
  qed (use s s' in \<open>auto dest: same_disk_trans\<close>)
  with s show ?case by (auto simp: spec_simps)
qed auto

lemma df_lookup_total:
  assumes "valid (df_device fs)"
  shows "spec (df_lookup rd n c) fs (\<lambda>fs' r. same_disk fs fs')"
  unfolding df_lookup_def by (rule spec_bindI [OF df_read_dir_total [OF assms]]) (auto simp: spec_simps)

lemma find_entry_map_of:
  "find_entry es c = (case map_of (map (\<lambda>e. (de_name e, de_inode e)) es) c of Some m \<Rightarrow> Ok m | None \<Rightarrow> Err DfNotFound)"
  by (induction es) auto

lemma df_walk_total:
  assumes "valid (df_device fs)"
  shows "spec (foldP (df_lookup rd) n cs) fs (\<lambda>fs' r. same_disk fs fs')"
  using assms
proof (induction cs arbitrary: n fs)
  case Nil
  then show ?case by (simp add: spec_simps same_disk_refl)
next
  case (Cons c cs)
  show ?case
    unfolding foldP.simps
  proof (rule spec_bindI [OF df_lookup_total [OF Cons.prems]])
    fix fs' m assume s: "same_disk fs fs'"
    with Cons.IH [of fs' m] same_disk_fields [OF s] show "spec (foldP (df_lookup rd) m cs) fs' (\<lambda>fs'' r. same_disk fs fs'')"
      by (auto elim!: spec_mono intro: same_disk_trans)
  qed
qed

lemma df_walk_spec:
  assumes "disk_walks rd valid im tot n cs r" "valid (df_device fs)" "img (df_device fs) = im" "df_total_inodes fs = tot"
  shows "spec (foldP (df_lookup rd) n cs) fs (\<lambda>fs' r'. same_disk fs fs' \<and> r' = r)"
  using assms
proof (induction arbitrary: fs rule: disk_walks.induct)
  case (arrive n)
  then show ?case by (simp add: spec_simps same_disk_refl)
next
  case (step n es c m cs r)
  have look: "spec (df_lookup rd n c) fs (\<lambda>fs' x. same_disk fs fs' \<and> x = Ok m)"
    unfolding df_lookup_def
    by (rule spec_bindI [OF df_read_dir_records [of fs n es]])
      (use step.hyps step.prems in \<open>auto simp: spec_simps find_entry_map_of\<close>)
  show ?case
    unfolding foldP.simps
  proof (rule spec_bindI [OF look])
    fix fs' m' assume "same_disk fs fs' \<and> Ok m' = (Ok m :: (u32, diskfs_error) result)"
    then have s: "same_disk fs fs'" and m: "m' = m" by auto
    have "spec (foldP (df_lookup rd) m cs) fs' (\<lambda>fs'' r'. same_disk fs' fs'' \<and> r' = r)"
      using same_disk_fields [OF s] step.prems by (intro step.IH) auto
    then show "spec (foldP (df_lookup rd) m' cs) fs' (\<lambda>fs'' r'. same_disk fs fs'' \<and> r' = r)"
      using s m by (auto elim!: spec_mono intro: same_disk_trans)
  qed auto
next
  case (missing n es c cs)
  have "spec (df_lookup rd n c) fs (\<lambda>fs' x. same_disk fs fs' \<and> x = Err DfNotFound)"
    unfolding df_lookup_def
    by (rule spec_bindI [OF df_read_dir_records [of fs n es]])
      (use missing in \<open>auto simp: spec_simps find_entry_map_of map_of_eq_None_iff image_image split: option.splits\<close>)
  then show ?case by (auto simp: spec_simps elim!: spec_mono)
next
  case (not_dir n f c cs)
  have "spec (df_lookup rd n c) fs (\<lambda>fs' x. same_disk fs fs' \<and> x = Err DfNotADirectory)"
    unfolding df_lookup_def
    by (rule spec_bindI [OF df_read_dir_error [of fs n _ DfNotADirectory, OF _ _ refl]]) (use not_dir in auto)
  then show ?case by (auto simp: spec_simps elim!: spec_mono)
next
  case (bad_inode n e c cs)
  have "spec (df_lookup rd n c) fs (\<lambda>fs' x. same_disk fs fs' \<and> x = Err e)"
    unfolding df_lookup_def
    by (rule spec_bindI [OF df_read_dir_error [of fs n _ e, OF _ _ refl]]) (use bad_inode in auto)
  then show ?case by (auto simp: spec_simps elim!: spec_mono)
qed

lemma df_resolve_path_spec:
  assumes "valid (df_device fs)"
  shows "spec (df_resolve_path rd path) fs (\<lambda>fs' r. same_disk fs fs'
     \<and> (\<not> starts_with_slash path \<longrightarrow> r = Err DfInvalidPath)
     \<and> (\<forall>r'. starts_with_slash path \<longrightarrow>
          disk_walks rd valid (img (df_device fs)) (df_total_inodes fs) (df_root_inode fs) (path_components path) r' \<longrightarrow> r = r'))"
proof (cases "path = ''/'' \<or> \<not> starts_with_slash path")
  case True
  moreover have "path_components ''/'' = []" by (simp add: path_components_def)
  ultimately show ?thesis
    using assms by (auto simp: df_resolve_path_def spec_simps same_disk_refl starts_with_slash_def elim: disk_walks.cases)
next
  case False
  have "spec (foldP (df_lookup rd) (df_root_inode fs) (path_components path)) fs
      (\<lambda>fs' r. disk_walks rd valid (img (df_device fs)) (df_total_inodes fs) (df_root_inode fs) (path_components path) r' \<longrightarrow> r = r')" for r'
  proof (cases "disk_walks rd valid (img (df_device fs)) (df_total_inodes fs) (df_root_inode fs) (path_components path) r'")
    case True
    from spec_mono [OF df_walk_spec [OF True assms refl refl]] show ?thesis by simp
  next
    case False
    from spec_mono [OF df_walk_total [OF assms]] False show ?thesis by simp
  qed
  then show ?thesis
    using df_walk_total [OF assms, of "df_root_inode fs" "path_components path"] False
    by (auto simp: df_resolve_path_def spec_run bindP_def getP_def starts_with_slash_def)
qed

end

section \<open>Correctness\<close>

text \<open>C9: \<open>read_file\<close> on a device that meets its contract never panics. When it returns a
  count, the inode is a file and the count is what the file size, the caller's buffer and the
  blocks of the file allow from the offset on; exactly that many bytes of the file are in the
  buffer and the rest of the buffer is untouched. It fails only on an inode that is invalid or a
  directory, or when a sector of the inode or of its data cannot be read. The contents of the disk
  do not change.\<close>

theorem diskfs_read_file_correct:
  fixes n :: u32
  assumes "block_device rd wr img valid" "valid (df_device fs)"
  defines "inode \<equiv> disk_inode (img (df_device fs)) (df_total_inodes fs) n"
  shows "\<exists>fs' buf' r. df_read_file rd n offset (fs, buf) = Ret ((fs', buf'), r)
    \<and> img (df_device fs') = img (df_device fs) \<and> length buf' = length buf
    \<and> (case r of
         Ok m \<Rightarrow> \<exists>f. inode = Ok f \<and> dk_file_type f = InodeFile
           \<and> m = min (min (unat (dk_size f) - offset) (length buf)) (length (disk_content (img (df_device fs)) f) - offset)
           \<and> buf' = take m (drop offset (disk_content (img (df_device fs)) f)) @ drop m buf
       | Err e \<Rightarrow> e = DfIoError \<and> (\<exists>s \<in> set (inode_sectors (img (df_device fs)) (df_total_inodes fs) n). \<not> sector_reads rd valid s)
           \<or> inode = Err e \<or> (\<exists>f. inode = Ok f \<and> dk_file_type f = InodeDir \<and> e = DfNotAFile))"
  using block_device.df_read_file_spec [OF assms(1,2), of n offset buf] block_device.same_disk_fields [OF assms(1)]
  unfolding spec_run inode_def by fastforce

text \<open>A disk with the directories \<open>/\<close> and \<open>/d\<close> and the file \<open>/d/a\<close>, inodes 0, 1 and 2.\<close>

definition example_fs :: "bytes list diskfs" where
  "example_fs = \<lparr>df_device = [replicate 512 0,
       [0,0,0,0, 2,0,0,0, 8,0,0,0,0,0,0,0, 2,0,0,0] @ replicate 108 0
         @ [1,0,0,0, 2,0,0,0, 8,0,0,0,0,0,0,0, 3,0,0,0] @ replicate 108 0
         @ [2,0,0,0, 1,0,0,0, 3,0,0,0,0,0,0,0, 4,0,0,0] @ replicate 236 0,
       [1,0,0,0, 1, 100, 0, 0] @ replicate 504 0,
       [2,0,0,0, 1, 97, 0, 0] @ replicate 504 0,
       [65, 66, 67] @ replicate 509 0],
     df_root_inode = 0, df_total_inodes = 3, df_first_data_block = 2\<rparr>"

lemma example_valid: "ram_sized 5 (df_device example_fs)"
  by (simp add: example_fs_def ram_sized_def ram_valid_def SECTOR_SIZE_def)

lemma example_inodes:
  "disk_inode (ram_img (df_device example_fs)) (df_total_inodes example_fs) 0 =
     Ok \<lparr>dk_inode = 0, dk_file_type = InodeDir, dk_size = 8, dk_blocks = [2]\<rparr>"
  "disk_inode (ram_img (df_device example_fs)) (df_total_inodes example_fs) 1 =
     Ok \<lparr>dk_inode = 1, dk_file_type = InodeDir, dk_size = 8, dk_blocks = [3]\<rparr>"
  "disk_inode (ram_img (df_device example_fs)) (df_total_inodes example_fs) 2 =
     Ok \<lparr>dk_inode = 2, dk_file_type = InodeFile, dk_size = 3, dk_blocks = [4]\<rparr>"
  by (simp_all add: disk_inode_def inode_sector_def example_fs_def ram_img_def subslice_def
      inode_type_from_u32_def upt_rec word_le_nat_alt)

lemma example_sectors:
  "inode_sectors (ram_img (df_device example_fs)) (df_total_inodes example_fs) 0 = [1, 2]"
  "inode_sectors (ram_img (df_device example_fs)) (df_total_inodes example_fs) 1 = [1, 3]"
  "inode_sectors (ram_img (df_device example_fs)) (df_total_inodes example_fs) 2 = [1, 4]"
  by (simp_all add: inode_sectors_def example_inodes inode_sector_def)

lemma example_reads: "sector_reads ram_read (ram_sized 5) 1" "sector_reads ram_read (ram_sized 5) 2"
  "sector_reads ram_read (ram_sized 5) 3" "sector_reads ram_read (ram_sized 5) 4"
  by (simp_all add: ram_sized_reads)

theorem diskfs_read_file_correct_witness:
  "\<exists>fs'. df_read_file ram_read 2 1 (example_fs, [9, 9, 9, 9, 9]) = Ret ((fs', [66, 67, 9, 9, 9]), Ok 2)"
proof -
  have "disk_content (ram_img (df_device example_fs)) \<lparr>dk_inode = 2, dk_file_type = InodeFile, dk_size = 3, dk_blocks = [4]\<rparr>
      = [65, 66, 67] @ replicate 509 0"
    by (simp add: disk_content_def example_fs_def ram_img_def)
  then show ?thesis
    using diskfs_read_file_correct [OF ram_sized_device example_valid, of 2 1 "[9, 9, 9, 9, 9]"]
    by (elim exE conjE) (auto simp: example_inodes example_sectors example_reads split: result.splits)
qed

text \<open>C28: a directory whose data are the records of a list of entries (inode number, length of the
  name, name, padding to four bytes) is listed as exactly that list, when the sectors of its inode
  and of its data can be read.\<close>

theorem diskfs_dir_roundtrip:
  assumes "block_device rd wr img valid" "valid (df_device fs)"
    and "disk_inode (img (df_device fs)) (df_total_inodes fs) n = Ok f" "dk_file_type f = InodeDir"
    and "disk_content (img (df_device fs)) f = concat (map dirent_record es) @ rest"
    and "unat (dk_size f) = length (concat (map dirent_record es))" "\<forall>e \<in> set es. dirent_ok e"
    and "\<forall>s \<in> set (inode_sectors (img (df_device fs)) (df_total_inodes fs) n). sector_reads rd valid s"
  shows "\<exists>fs'. df_read_dir rd n fs = Ret (fs', Ok es) \<and> img (df_device fs') = img (df_device fs)"
proof -
  have "dir_holds rd valid (img (df_device fs)) (df_total_inodes fs) n es"
    using assms(3-8) by (auto simp: dir_holds_def)
  from block_device.df_read_dir_records [OF assms(1,2) this] block_device.same_disk_fields [OF assms(1)] show ?thesis
    by (auto simp: spec_run)
qed

lemma example_records: "dirent_record \<lparr>de_inode = 1, de_name = ''d''\<rparr> = [1,0,0,0, 1, 100, 0, 0]"
  "dirent_record \<lparr>de_inode = 2, de_name = ''a''\<rparr> = [2,0,0,0, 1, 97, 0, 0]"
proof -
  have "le_bytes 4 (1 :: u32) = [1, 0, 0, 0]" "le_bytes 4 (2 :: u32) = [2, 0, 0, 0]" by (simp_all add: le_bytes_def upt_rec)
  then show "dirent_record \<lparr>de_inode = 1, de_name = ''d''\<rparr> = [1,0,0,0, 1, 100, 0, 0]"
    "dirent_record \<lparr>de_inode = 2, de_name = ''a''\<rparr> = [2,0,0,0, 1, 97, 0, 0]"
    by (simp_all add: dirent_record_def dirent_bytes_def bytes_of_str_def byte_of_def numeral_2_eq_2)
qed

lemma example_dirents_ok: "dirent_ok \<lparr>de_inode = 1, de_name = ''d''\<rparr>" "dirent_ok \<lparr>de_inode = 2, de_name = ''a''\<rparr>"
  by (simp_all add: dirent_ok_def MAX_FILENAME_LEN_def bytes_of_str_def byte_of_def ascii_valid is_ascii_def)

lemma example_contents:
  "disk_content (ram_img (df_device example_fs)) \<lparr>dk_inode = 0, dk_file_type = InodeDir, dk_size = 8, dk_blocks = [2]\<rparr>
     = concat (map dirent_record [\<lparr>de_inode = 1, de_name = ''d''\<rparr>]) @ replicate 504 0"
  "disk_content (ram_img (df_device example_fs)) \<lparr>dk_inode = 1, dk_file_type = InodeDir, dk_size = 8, dk_blocks = [3]\<rparr>
     = concat (map dirent_record [\<lparr>de_inode = 2, de_name = ''a''\<rparr>]) @ replicate 504 0"
  by (simp_all add: disk_content_def example_records example_fs_def ram_img_def)

theorem diskfs_dir_roundtrip_witness:
  "\<exists>fs'. df_read_dir ram_read 1 example_fs = Ret (fs', Ok [\<lparr>de_inode = 2, de_name = ''a''\<rparr>])"
  using diskfs_dir_roundtrip [OF ram_sized_device example_valid example_inodes(2) _ example_contents(2)]
  by (auto simp: example_records example_dirents_ok example_sectors example_reads)

text \<open>C29: \<open>resolve_path\<close> walks the directories on the disk. It never panics and changes no sector. A
  path that does not start with a slash is invalid. An absolute path gives the inode at the end of
  the walk through the records on the disk from the root, each component found as the first entry
  of that name; a component that the directory does not hold is \<open>NotFound\<close>, a file in the way
  \<open>NotADirectory\<close>, and an inode that is not valid gives its error. The directories of the walk are in
  sectors that can be read.\<close>

theorem diskfs_resolve_walks:
  assumes "block_device rd wr img valid" "valid (df_device fs)"
  shows "\<exists>fs' r. df_resolve_path rd path fs = Ret (fs', r) \<and> img (df_device fs') = img (df_device fs)
    \<and> (\<not> starts_with_slash path \<longrightarrow> r = Err DfInvalidPath)
    \<and> (\<forall>r'. starts_with_slash path \<longrightarrow>
         disk_walks rd valid (img (df_device fs)) (df_total_inodes fs) (df_root_inode fs) (path_components path) r' \<longrightarrow> r = r')"
  using block_device.df_resolve_path_spec [OF assms, of path] block_device.same_disk_fields [OF assms(1)]
  unfolding spec_run by blast

lemma example_dirs:
  "dir_holds ram_read (ram_sized 5) (ram_img (df_device example_fs)) (df_total_inodes example_fs) 0 [\<lparr>de_inode = 1, de_name = ''d''\<rparr>]"
  "dir_holds ram_read (ram_sized 5) (ram_img (df_device example_fs)) (df_total_inodes example_fs) 1 [\<lparr>de_inode = 2, de_name = ''a''\<rparr>]"
  using example_inodes example_contents example_sectors example_reads example_dirents_ok example_records
  by (simp_all add: dir_holds_def)

lemma example_walks:
  "disk_walks ram_read (ram_sized 5) (ram_img (df_device example_fs)) (df_total_inodes example_fs) 0 [''d'', ''a''] (Ok 2)"
  "disk_walks ram_read (ram_sized 5) (ram_img (df_device example_fs)) (df_total_inodes example_fs) 0 [''d'', ''b''] (Err DfNotFound)"
  "disk_walks ram_read (ram_sized 5) (ram_img (df_device example_fs)) (df_total_inodes example_fs) 0 [''d'', ''a'', ''x''] (Err DfNotADirectory)"
proof -
  let ?w = "disk_walks ram_read (ram_sized 5) (ram_img (df_device example_fs)) (df_total_inodes example_fs)"
  have d: "?w 0 (''d'' # cs) r" if "?w 1 cs r" for cs r by (rule step [OF example_dirs(1) _ that]) simp
  have a: "?w 1 (''a'' # cs) r" if "?w 2 cs r" for cs r by (rule step [OF example_dirs(2) _ that]) simp
  show "?w 0 [''d'', ''a''] (Ok 2)" by (intro d a arrive)
  show "?w 0 [''d'', ''b''] (Err DfNotFound)" by (intro d missing [OF example_dirs(2)]) simp
  have "sector_reads ram_read (ram_sized 5) (inode_sector 2)" using example_reads(1) by (simp add: inode_sector_def)
  then show "?w 0 [''d'', ''a'', ''x''] (Err DfNotADirectory)" by (intro d a not_dir [OF _ example_inodes(3)]) auto
qed

theorem diskfs_resolve_walks_witness:
  "(\<exists>fs'. df_resolve_path ram_read ''/d/a'' example_fs = Ret (fs', Ok 2))
   \<and> (\<exists>fs'. df_resolve_path ram_read ''/d/b'' example_fs = Ret (fs', Err DfNotFound))
   \<and> (\<exists>fs'. df_resolve_path ram_read ''/d/a/x'' example_fs = Ret (fs', Err DfNotADirectory))
   \<and> (\<exists>fs'. df_resolve_path ram_read ''x'' example_fs = Ret (fs', Err DfInvalidPath))"
proof -
  note R = diskfs_resolve_walks [OF ram_sized_device example_valid]
  have root: "df_root_inode example_fs = 0" by (simp add: example_fs_def)
  have p: "path_components ''/d/a'' = [''d'', ''a'']" "path_components ''/d/b'' = [''d'', ''b'']"
    "path_components ''/d/a/x'' = [''d'', ''a'', ''x'']" by (simp_all add: path_components_def)
  show ?thesis
    using R [of "''/d/a''"] R [of "''/d/b''"] R [of "''/d/a/x''"] R [of "''x''"] example_walks
    unfolding p root by (fastforce simp: starts_with_slash_def)
qed

end
