(* ===== verification/Fat32.thy ===== *)
theory Fat32
  imports Block_Device Byte_Codec Rust_String Kernel_Monad Vfs_Base
begin

unbundle bit_operations_syntax

text \<open>
  The read-only FAT32 driver of \<open>kernel/src/fat32.rs\<close>: the BIOS parameter block, the cluster
  chains of the file allocation table, short and long directory entries, path resolution and file
  reads. The device is a parameter (\<open>Block_Device\<close>). Sector numbers are sums and products of
  fields of at most 32 bits in 64-bit arithmetic and cannot overflow; the 32-bit arithmetic on the
  parameter block can, and panics.
\<close>

section \<open>The parameter block\<close>

definition FAT32_SIGNATURE :: u16 where
  "FAT32_SIGNATURE = 0xAA55"

definition EOC_MARKER :: u32 where
  "EOC_MARKER = 0x0FFFFFF8"

definition BAD_CLUSTER :: u32 where
  "BAD_CLUSTER = 0x0FFFFFF7"

definition MAX_CLUSTER :: u32 where
  "MAX_CLUSTER = 0x0FFFFFFF"

definition DIRENT_SIZE :: nat where
  "DIRENT_SIZE = 32"

definition MAX_CHAIN_LENGTH :: nat where
  "MAX_CHAIN_LENGTH = 65536"

definition ATTR_READ_ONLY :: u8 where
  "ATTR_READ_ONLY = 0x01"

definition ATTR_HIDDEN :: u8 where
  "ATTR_HIDDEN = 0x02"

definition ATTR_SYSTEM :: u8 where
  "ATTR_SYSTEM = 0x04"

definition ATTR_VOLUME_ID :: u8 where
  "ATTR_VOLUME_ID = 0x08"

definition ATTR_DIRECTORY :: u8 where
  "ATTR_DIRECTORY = 0x10"

definition ATTR_LONG_NAME :: u8 where
  "ATTR_LONG_NAME = ATTR_READ_ONLY OR ATTR_HIDDEN OR ATTR_SYSTEM OR ATTR_VOLUME_ID"

datatype fat32_error = F32IoError | F32InvalidSignature | F32InvalidBpb | F32UnsupportedSectorSize
  | F32InvalidCluster | F32BadCluster | F32NotFound | F32NotADirectory | F32InvalidPath

record bpb =
  bytes_per_sector :: u16
  sectors_per_cluster :: u8
  reserved_sectors :: u16
  num_fats :: u8
  total_sectors :: u32
  sectors_per_fat :: u32
  root_cluster :: u32
  fat_start_sector :: u32
  data_start_sector :: u32

definition is_power_of_two :: "u8 \<Rightarrow> bool" where
  "is_power_of_two v \<longleftrightarrow> v \<in> set [1, 2, 4, 8, 16, 32, 64, 128]"

definition bpb_parse :: "bytes \<Rightarrow> (bpb, fat32_error) result outcome" where
  "bpb_parse boot_sector =
     bindO (le_at 2 boot_sector 510) (\<lambda>signature.
     if signature \<noteq> FAT32_SIGNATURE then Ret (Err F32InvalidSignature)
     else
       bindO (le_at 2 boot_sector 11) (\<lambda>bps.
       bindO (arr_get boot_sector 13) (\<lambda>spc.
       bindO (le_at 2 boot_sector 14) (\<lambda>reserved.
       bindO (arr_get boot_sector 16) (\<lambda>fats.
       bindO (le_at 4 boot_sector 32) (\<lambda>tot.
       bindO (le_at 4 boot_sector 36) (\<lambda>spf.
       bindO (le_at 4 boot_sector 44) (\<lambda>root.
       if 2 ^ 32 \<le> unat fats * unat spf \<or> 2 ^ 32 \<le> unat reserved + unat fats * unat spf then Panic
       else if bps \<noteq> of_nat SECTOR_SIZE then Ret (Err F32UnsupportedSectorSize)
       else if spc = 0 \<or> \<not> is_power_of_two spc then Ret (Err F32InvalidBpb)
       else if fats = 0 \<or> reserved = 0 then Ret (Err F32InvalidBpb)
       else Ret (Ok \<lparr>bytes_per_sector = bps, sectors_per_cluster = spc, reserved_sectors = reserved,
              num_fats = fats, total_sectors = tot, sectors_per_fat = spf, root_cluster = root,
              fat_start_sector = ucast reserved,
              data_start_sector = ucast reserved + ucast fats * spf\<rparr>)))))))))"

definition cluster_to_sector :: "bpb \<Rightarrow> u32 \<Rightarrow> u64" where
  "cluster_to_sector b cluster =
     (let cluster_offset = (if 2 \<le> cluster then cluster - 2 else 0) in
      ucast (data_start_sector b) + ucast cluster_offset * ucast (sectors_per_cluster b))"

definition bytes_per_cluster :: "bpb \<Rightarrow> nat" where
  "bytes_per_cluster b = unat (bytes_per_sector b) * unat (sectors_per_cluster b)"

section \<open>Directory entries\<close>

record dir_entry =
  d_name :: string
  d_attributes :: u8
  d_first_cluster :: u32
  d_file_size :: u32

text \<open>\<open>ulower\<close> stands for lower case outside ASCII.\<close>

definition parse_short_name :: "(string \<Rightarrow> string) \<Rightarrow> bytes \<Rightarrow> string" where
  "parse_short_name ulower name_bytes =
     (let name_part = trim_end (case from_utf8 (subslice name_bytes 0 8) of Some s \<Rightarrow> s | None \<Rightarrow> ''????????'');
          ext_part = trim_end (case from_utf8 (subslice name_bytes 8 11) of Some s \<Rightarrow> s | None \<Rightarrow> ''???'')
      in
      if ext_part = [] then to_lowercase ulower name_part
      else to_lowercase ulower name_part @ ''.'' @ to_lowercase ulower ext_part)"

definition dir_entry_parse :: "(string \<Rightarrow> string) \<Rightarrow> bytes \<Rightarrow> dir_entry option" where
  "dir_entry_parse ulower dat =
     (if length dat < DIRENT_SIZE then None
      else if dat ! 0 = 0x00 \<or> dat ! 0 = 0xE5 then None
      else
        let attributes = dat ! 11 in
        if attributes AND ATTR_VOLUME_ID \<noteq> 0 \<and> attributes AND ATTR_DIRECTORY = 0 then None
        else
          let high = (from_le [dat ! 20, dat ! 21] :: u32);
              low = (from_le [dat ! 26, dat ! 27] :: u32)
          in
          Some \<lparr>d_name = parse_short_name ulower (subslice dat 0 11), d_attributes = attributes,
            d_first_cluster = push_bit 16 high OR low,
            d_file_size = from_le [dat ! 28, dat ! 29, dat ! 30, dat ! 31]\<rparr>)"

definition is_directory :: "dir_entry \<Rightarrow> bool" where
  "is_directory e \<longleftrightarrow> d_attributes e AND ATTR_DIRECTORY \<noteq> 0"

record lfn_entry =
  lfn_sequence :: u8
  name_part :: string

text \<open>The characters at the byte offsets given, without the padding values.\<close>

definition lfn_chars :: "bytes \<Rightarrow> nat list \<Rightarrow> u16 list" where
  "lfn_chars dat offs =
     filter (\<lambda>ch. ch \<noteq> 0 \<and> ch \<noteq> 0xFFFF) (map (\<lambda>off. from_le [dat ! off, dat ! (off + 1)]) offs)"

definition lfn_parse :: "bytes \<Rightarrow> lfn_entry option" where
  "lfn_parse dat =
     (if length dat < DIRENT_SIZE then None
      else if dat ! 11 \<noteq> ATTR_LONG_NAME then None
      else if dat ! 0 = 0x00 \<or> dat ! 0 = 0xE5 then None
      else
        let name_chars = lfn_chars dat (map (\<lambda>i. 1 + i * 2) [0..<5])
               @ lfn_chars dat (map (\<lambda>i. 14 + i * 2) [0..<6])
               @ lfn_chars dat (map (\<lambda>i. 28 + i * 2) [0..<2])
        in Some \<lparr>lfn_sequence = dat ! 0, name_part = from_utf16_lossy name_chars\<rparr>)"

section \<open>The file system\<close>

record 'd fat32 =
  f_device :: 'd
  f_bpb :: bpb

definition fat_sector :: "'d rd_op \<Rightarrow> u64 \<Rightarrow> ('d fat32, bytes, fat32_error) prog" where
  "fat_sector rd s fs =
     (case rd (f_device fs) s of (d, r) \<Rightarrow> Ret (fs\<lparr>f_device := d\<rparr>, map_err (\<lambda>_. F32IoError) r))"

definition fat32_new :: "'d rd_op \<Rightarrow> 'd \<Rightarrow> ('d fat32, fat32_error) result outcome" where
  "fat32_new rd device =
     (case rd device 0 of
        (d, Err e) \<Rightarrow> Ret (Err F32IoError)
      | (d, Ok boot_sector) \<Rightarrow>
          bindO (bpb_parse boot_sector) (\<lambda>r. Ret (bindR r (\<lambda>b. Ok \<lparr>f_device = d, f_bpb = b\<rparr>))))"

definition read_fat_entry :: "'d rd_op \<Rightarrow> u32 \<Rightarrow> ('d fat32, u32, fat32_error) prog" where
  "read_fat_entry rd cluster =
     (if cluster < 2 \<or> MAX_CLUSTER \<le> cluster then failP F32InvalidCluster
      else
        bindP (getP f_bpb) (\<lambda>b.
        let fat_offset = unat cluster * 4;
            fat_sec = ucast (fat_start_sector b) + of_nat (fat_offset div SECTOR_SIZE);
            entry_offset = fat_offset mod SECTOR_SIZE
        in
        bindP (fat_sector rd fat_sec) (\<lambda>sector.
        bindP (liftO (le_at 4 sector entry_offset)) (\<lambda>entry.
        retP (entry AND 0x0FFFFFFF)))))"

text \<open>The loop over the chain; \<open>n\<close> counts down from the limit on its length.\<close>

fun chain_loop :: "'d rd_op \<Rightarrow> nat \<Rightarrow> u32 \<Rightarrow> ('d fat32, u32 list, fat32_error) prog" where
  "chain_loop rd n current_cluster =
     (if \<not> (current_cluster < EOC_MARKER \<and> 0 < n) then retP []
      else if current_cluster = BAD_CLUSTER then failP F32BadCluster
      else
        bindP (read_fat_entry rd current_cluster) (\<lambda>next_cluster.
        bindP (chain_loop rd (n - 1) next_cluster) (\<lambda>chain.
        retP (current_cluster # chain))))"

declare chain_loop.simps [simp del]

definition get_cluster_chain :: "'d rd_op \<Rightarrow> u32 \<Rightarrow> ('d fat32, u32 list, fat32_error) prog" where
  "get_cluster_chain rd start_cluster =
     (if start_cluster = 0 then retP [] else chain_loop rd MAX_CHAIN_LENGTH start_cluster)"

text \<open>\<open>read_cluster\<close> appends the sectors of a cluster to the buffer.\<close>

definition read_cluster :: "'d rd_op \<Rightarrow> u32 \<Rightarrow> bytes \<Rightarrow> ('d fat32, bytes, fat32_error) prog" where
  "read_cluster rd cluster buffer =
     bindP (getP f_bpb) (\<lambda>b.
     let start_sector = cluster_to_sector b cluster in
     bindP (foldP (\<lambda>buf i. bindP (fat_sector rd (start_sector + of_nat i)) (\<lambda>sector. retP (buf @ sector)))
             buffer [0..<unat (sectors_per_cluster b)]) (\<lambda>buf.
     if length buf - length buffer \<noteq> bytes_per_cluster b then panicP else retP buf))"

function dir_loop :: "(string \<Rightarrow> string) \<Rightarrow> bytes \<Rightarrow> lfn_entry list \<Rightarrow> dir_entry list" where
  "dir_loop ulower buffer lfn_entries =
     (if length buffer < DIRENT_SIZE then []
      else
        let entry_data = take DIRENT_SIZE buffer; rest = drop DIRENT_SIZE buffer in
        if entry_data ! 0 = 0x00 then []
        else case lfn_parse entry_data of
          Some lfn \<Rightarrow> dir_loop ulower rest (lfn_entries @ [lfn])
        | None \<Rightarrow>
            (case dir_entry_parse ulower entry_data of
               Some dir_entry \<Rightarrow>
                 (let e = (if lfn_entries \<noteq> []
                           then dir_entry\<lparr>d_name := concat (map name_part (rev lfn_entries))\<rparr>
                           else dir_entry);
                      entries = dir_loop ulower rest []
                  in if d_name e \<noteq> ''.'' \<and> d_name e \<noteq> ''..'' then e # entries else entries)
             | None \<Rightarrow> dir_loop ulower rest []))"
  by pat_completeness auto
termination
  by (relation "measure (\<lambda>(ulower, buffer, lfns). length buffer)") (auto simp: DIRENT_SIZE_def)

declare dir_loop.simps [simp del]

definition read_directory :: "'d rd_op \<Rightarrow> (string \<Rightarrow> string) \<Rightarrow> u32 \<Rightarrow> ('d fat32, dir_entry list, fat32_error) prog" where
  "read_directory rd ulower cluster =
     bindP (get_cluster_chain rd cluster) (\<lambda>chain.
     bindP (foldP (\<lambda>buffer c. read_cluster rd c buffer) [] chain) (\<lambda>buffer.
     retP (dir_loop ulower buffer [])))"

fun find_ignore_case :: "dir_entry list \<Rightarrow> string \<Rightarrow> (dir_entry, fat32_error) result" where
  "find_ignore_case [] name = Err F32NotFound"
| "find_ignore_case (e # es) name =
     (if eq_ignore_ascii_case (d_name e) name then Ok e else find_ignore_case es name)"

definition fat_lookup :: "'d rd_op \<Rightarrow> (string \<Rightarrow> string) \<Rightarrow> u32 \<Rightarrow> string \<Rightarrow> ('d fat32, dir_entry, fat32_error) prog" where
  "fat_lookup rd ulower dir_cluster name =
     bindP (read_directory rd ulower dir_cluster) (\<lambda>entries. liftR (find_ignore_case entries name))"

fun fat_walk ::
  "'d rd_op \<Rightarrow> (string \<Rightarrow> string) \<Rightarrow> u32 \<Rightarrow> dir_entry option \<Rightarrow> string list \<Rightarrow> ('d fat32, dir_entry, fat32_error) prog" where
  "fat_walk rd ulower current_cluster current_entry [] = liftR (ok_or current_entry F32NotFound)"
| "fat_walk rd ulower current_cluster current_entry (component # cs) =
     bindP (fat_lookup rd ulower current_cluster component) (\<lambda>entry.
     if \<not> is_directory entry \<and> current_entry \<noteq> None then failP F32NotADirectory
     else fat_walk rd ulower (d_first_cluster entry) (Some entry) cs)"

definition fat_resolve_path :: "'d rd_op \<Rightarrow> (string \<Rightarrow> string) \<Rightarrow> string \<Rightarrow> ('d fat32, dir_entry, fat32_error) prog" where
  "fat_resolve_path rd ulower path =
     (if path = [] \<or> \<not> starts_with_slash path then failP F32InvalidPath
      else
        bindP (getP (root_cluster \<circ> f_bpb)) (\<lambda>root.
        if path = ''/'' then
          retP \<lparr>d_name = ''/'', d_attributes = ATTR_DIRECTORY, d_first_cluster = root, d_file_size = 0\<rparr>
        else fat_walk rd ulower root None (path_components path)))"

fun fat_read_loop ::
  "'d rd_op \<Rightarrow> nat \<Rightarrow> nat \<Rightarrow> nat \<Rightarrow> (nat \<times> u32) list \<Rightarrow> nat \<Rightarrow> ('d fat32 \<times> bytes, nat, fat32_error) prog" where
  "fat_read_loop rd start_cluster_idx cluster_offset max_read [] bytes_read = retP bytes_read"
| "fat_read_loop rd start_cluster_idx cluster_offset max_read ((i, cluster_num) # cs) bytes_read =
     (if max_read \<le> bytes_read then retP bytes_read
      else
        bindP (zoomP fst (\<lambda>fs (_, buffer). (fs, buffer)) (read_cluster rd cluster_num [])) (\<lambda>cluster_data.
        let copy_start = (if i = start_cluster_idx then cluster_offset else 0);
            copy_end = min (length cluster_data) (copy_start + (max_read - bytes_read))
        in
        bindP (liftO (usub copy_end copy_start)) (\<lambda>copy_len.
        bindP (if copy_len = 0 then retP ()
               else
                 bindP (liftO (slice_at cluster_data copy_start copy_end)) (\<lambda>data.
                 bindP (getP snd) (\<lambda>buffer.
                 if length buffer < bytes_read + copy_len then panicP
                 else modP (\<lambda>(fs, buffer). (fs, overwrite buffer bytes_read data))))) (\<lambda>_.
        fat_read_loop rd start_cluster_idx cluster_offset max_read cs (bytes_read + copy_len)))))"

definition fat_read_file ::
  "'d rd_op \<Rightarrow> u32 \<Rightarrow> u32 \<Rightarrow> nat \<Rightarrow> ('d fat32 \<times> bytes, nat, fat32_error) prog" where
  "fat_read_file rd start_cluster file_size offset =
     (if start_cluster = 0 \<or> file_size = 0 then retP 0
      else if unat file_size \<le> offset then retP 0
      else
        bindP (zoomP fst (\<lambda>fs (_, buffer). (fs, buffer)) (get_cluster_chain rd start_cluster)) (\<lambda>chain.
        if chain = [] then retP 0
        else
          bindP (getP (\<lambda>(fs, buffer). (bytes_per_cluster (f_bpb fs), length buffer))) (\<lambda>(bpc, len).
          let max_read = min (unat file_size - offset) len in
          if bpc = 0 then panicP
          else
            fat_read_loop rd (offset div bpc) (offset mod bpc) max_read
              (drop (offset div bpc) (enumerate 0 chain)) 0)))"

section \<open>What the disk holds\<close>

definition bpb_ok :: "bpb \<Rightarrow> bool" where
  "bpb_ok b \<longleftrightarrow> unat (bytes_per_sector b) = SECTOR_SIZE \<and> sectors_per_cluster b \<noteq> 0"

lemma bpb_parse_ok: "bpb_parse bs = Ret (Ok b) \<Longrightarrow> bpb_ok b"
  by (auto simp: bpb_parse_def bpb_ok_def SECTOR_SIZE_def split: if_splits)

text \<open>The entry of the allocation table for a cluster and the bytes of a cluster.\<close>

definition fat_entry_sector :: "bpb \<Rightarrow> u32 \<Rightarrow> u64" where
  "fat_entry_sector b c = ucast (fat_start_sector b) + of_nat (unat c * 4 div 512)"

definition fat_next :: "(u64 \<Rightarrow> bytes) \<Rightarrow> bpb \<Rightarrow> u32 \<Rightarrow> u32" where
  "fat_next im b c =
     from_le (subslice (im (fat_entry_sector b c))
       (unat c * 4 mod 512) (unat c * 4 mod 512 + 4)) AND 0x0FFFFFFF"

definition cluster_sectors :: "bpb \<Rightarrow> u32 \<Rightarrow> u64 list" where
  "cluster_sectors b c =
     map (\<lambda>i. of_nat (unat (data_start_sector b) + (unat c - 2) * unat (sectors_per_cluster b) + i))
       [0..<unat (sectors_per_cluster b)]"

definition cluster_bytes :: "(u64 \<Rightarrow> bytes) \<Rightarrow> bpb \<Rightarrow> u32 \<Rightarrow> bytes" where
  "cluster_bytes im b c = concat (map im (cluster_sectors b c))"

lemma cluster_to_sector_eq:
  "cluster_to_sector b c = of_nat (unat (data_start_sector b) + (unat c - 2) * unat (sectors_per_cluster b))"
proof (cases "2 \<le> c")
  case True
  then have "unat (c - 2) = unat c - 2" by (simp add: unat_sub)
  then have "(of_nat (unat c - 2) :: u64) = ucast (c - 2)" by (metis of_nat_unat)
  with True show ?thesis by (simp add: cluster_to_sector_def)
next
  case False
  then have "unat c - 2 = 0" by (simp add: word_le_nat_alt)
  with False show ?thesis by (simp add: cluster_to_sector_def)
qed

lemma cluster_sectors_eq:
  "cluster_sectors b c = map (\<lambda>i. cluster_to_sector b c + of_nat i) [0..<unat (sectors_per_cluster b)]"
  by (simp add: cluster_sectors_def cluster_to_sector_eq)

lemma cluster_bytes_eq:
  "cluster_bytes im b c = concat (map (\<lambda>i. im (cluster_to_sector b c + of_nat i)) [0..<unat (sectors_per_cluster b)])"
  by (simp add: cluster_bytes_def cluster_sectors_eq comp_def)

text \<open>The clusters that can hold data, and the \<open>k\<close>-th cluster after \<open>c\<close> in the table.\<close>

definition data_cluster :: "u32 \<Rightarrow> bool" where
  "data_cluster c \<longleftrightarrow> 2 \<le> c \<and> c < BAD_CLUSTER"

definition fat_nth :: "(u64 \<Rightarrow> bytes) \<Rightarrow> bpb \<Rightarrow> u32 \<Rightarrow> nat \<Rightarrow> u32" where
  "fat_nth im b c k = (fat_next im b ^^ k) c"

lemma fat_nth_0 [simp]: "fat_nth im b c 0 = c"
  by (simp add: fat_nth_def)

lemma fat_nth_Suc: "fat_nth im b c (Suc k) = fat_nth im b (fat_next im b c) k"
  by (simp add: fat_nth_def funpow_swap1)

lemma map_fat_nth_Suc: "map (fat_nth im b c) [0..<Suc k] = c # map (fat_nth im b (fat_next im b c)) [0..<k]"
  by (simp add: map_upt_Suc fat_nth_Suc del: upt_Suc)

text \<open>The list of the clusters from \<open>c\<close> to the end marker.\<close>

primrec fat_list :: "(u64 \<Rightarrow> bytes) \<Rightarrow> bpb \<Rightarrow> u32 \<Rightarrow> u32 list \<Rightarrow> bool" where
  "fat_list im b c [] \<longleftrightarrow> EOC_MARKER \<le> c"
| "fat_list im b c (x # xs) \<longleftrightarrow> x = c \<and> data_cluster c \<and> fat_list im b (fat_next im b c) xs"

lemma not_data_cluster: "\<not> data_cluster c \<Longrightarrow> \<not> EOC_MARKER \<le> c \<Longrightarrow> c \<noteq> BAD_CLUSTER \<Longrightarrow> c < 2"
  by (auto simp: data_cluster_def EOC_MARKER_def BAD_CLUSTER_def not_le not_less word_less_nat_alt word_le_nat_alt word_unat_eq_iff)

lemma data_cluster_continues: "data_cluster c \<Longrightarrow> c < EOC_MARKER \<and> c \<noteq> BAD_CLUSTER \<and> \<not> c < 2 \<and> \<not> MAX_CLUSTER \<le> c"
  by (auto simp: data_cluster_def EOC_MARKER_def BAD_CLUSTER_def MAX_CLUSTER_def word_less_nat_alt word_le_nat_alt)

lemma end_not_data: "EOC_MARKER \<le> c \<Longrightarrow> \<not> data_cluster c"
  using data_cluster_continues [of c] by auto

lemma fat_list_nth:
  "fat_list im b c xs \<longleftrightarrow> xs = map (fat_nth im b c) [0..<length xs] \<and> (\<forall>i < length xs. data_cluster (fat_nth im b c i))
     \<and> EOC_MARKER \<le> fat_nth im b c (length xs)"
proof (induction xs arbitrary: c)
  case Nil
  then show ?case by simp
next
  case (Cons x xs)
  show ?case
    by (simp only: fat_list.simps Cons.IH [of "fat_next im b c"] length_Cons map_fat_nth_Suc All_less_Suc2 fat_nth_Suc)
      (auto simp: fat_nth_Suc)
qed

lemma fat_list_det: "fat_list im b c xs \<Longrightarrow> fat_list im b c ys \<Longrightarrow> xs = ys"
proof (induction xs arbitrary: c ys)
  case Nil
  then show ?case by (cases ys) (auto dest: end_not_data)
next
  case (Cons x xs)
  then show ?case by (cases ys) (auto dest: end_not_data)
qed

lemma fat_list_suffix: "fat_list im b c xs \<Longrightarrow> i < length xs \<Longrightarrow> fat_list im b (xs ! i) (drop i xs)"
proof (induction xs arbitrary: c i)
  case Nil
  then show ?case by simp
next
  case (Cons x xs)
  then show ?case by (cases i) auto
qed

text \<open>A list that ends visits no cluster twice.\<close>

lemma fat_list_distinct:
  assumes "fat_list im b c xs"
  shows "distinct xs"
  unfolding distinct_conv_nth
proof (intro allI impI)
  fix i j assume ij: "i < length xs" "j < length xs" "i \<noteq> j"
  have "length (drop i xs) = length (drop j xs)" if "xs ! i = xs ! j"
    using fat_list_det [OF fat_list_suffix [OF assms ij(1)] fat_list_suffix [OF assms ij(2), folded that]] by simp
  with ij show "xs ! i \<noteq> xs ! j" by auto
qed

context block_device
begin

definition same_fat :: "'d fat32 \<Rightarrow> 'd fat32 \<Rightarrow> bool" where
  "same_fat fs fs' \<longleftrightarrow> valid (f_device fs') \<and> img (f_device fs') = img (f_device fs) \<and> f_bpb fs' = f_bpb fs"

lemma same_fat_refl: "valid (f_device fs) \<Longrightarrow> same_fat fs fs"
  by (simp add: same_fat_def)

lemma same_fat_trans: "same_fat fs fs' \<Longrightarrow> same_fat fs' fs'' \<Longrightarrow> same_fat fs fs''"
  by (simp add: same_fat_def)

lemma fat_sector_spec:
  assumes "valid (f_device fs)"
  shows "spec (fat_sector rd s) fs (\<lambda>fs' r. same_fat fs fs'
     \<and> (r = Ok (img (f_device fs) s) \<or> r = Err F32IoError \<and> \<not> sector_reads rd valid s))"
proof -
  obtain d r where rd: "rd (f_device fs) s = (d, r)" by (cases "rd (f_device fs) s")
  then have "valid d" "img d = img (f_device fs)" using rd_img [OF assms] by auto
  moreover have "r = Ok b \<Longrightarrow> b = img (f_device fs) s" for b using rd_Ok [OF assms] rd by simp
  ultimately show ?thesis
    using rd assms by (cases r) (auto simp: spec_def fat_sector_def same_fat_def sector_reads_def)
qed

lemma read_fat_entry_spec:
  assumes "valid (f_device fs)"
  shows "spec (read_fat_entry rd c) fs (\<lambda>fs' r. same_fat fs fs'
     \<and> (r = Err F32IoError \<and> \<not> sector_reads rd valid (fat_entry_sector (f_bpb fs) c) \<and> 2 \<le> c
         \<or> r = (if c < 2 \<or> MAX_CLUSTER \<le> c then Err F32InvalidCluster
           else Ok (fat_next (img (f_device fs)) (f_bpb fs) c))))"
proof (cases "c < 2 \<or> MAX_CLUSTER \<le> c")
  case True
  then show ?thesis using assms by (simp add: read_fat_entry_def spec_simps same_fat_refl)
next
  case False
  have "unat c * 4 mod (128 * 4) = unat c mod 128 * 4" by (rule mod_mult_mult2)
  then have "unat c * 4 mod 512 \<le> 508" using mod_less_divisor [of 128 "unat c"] by simp
  then show ?thesis
    unfolding read_fat_entry_def if_not_P [OF False]
    using sector_len [OF assms] False
    by (auto simp: spec_simps SECTOR_SIZE_def Let_def fat_next_def fat_entry_sector_def intro!: spec_mono [OF fat_sector_spec [OF assms]])
qed

lemma chain_loop_total:
  assumes "valid (f_device fs)"
  shows "spec (chain_loop rd n c) fs (\<lambda>fs' r. same_fat fs fs')"
  using assms
proof (induction n arbitrary: c fs)
  case 0
  then show ?case by (subst chain_loop.simps) (simp add: spec_simps same_fat_refl)
next
  case (Suc n)
  have "spec (bindP (read_fat_entry rd c) (\<lambda>nx. bindP (chain_loop rd n nx) (\<lambda>chain. retP (c # chain)))) fs
      (\<lambda>fs' r. same_fat fs fs')"
  proof (rule spec_bindI [OF read_fat_entry_spec [OF Suc.prems]], goal_cases)
    case (1 fs' x)
    then have s: "same_fat fs fs'" by auto
    have "spec (chain_loop rd n x) fs' (\<lambda>fs'' r. same_fat fs fs'')"
      using Suc.IH [of fs' x] s by (auto simp: same_fat_def elim!: spec_mono)
    then show ?case by (rule spec_bindI) (auto simp: spec_simps)
  qed auto
  then show ?case using Suc.prems by (subst chain_loop.simps) (simp add: spec_ret spec_fail same_fat_refl)
qed

text \<open>The loop, exactly: the first \<open>k\<close> clusters are data clusters whose entries can be read, and then
  the limit is reached or the next one is not a data cluster.\<close>

lemma chain_loop_exact:
  assumes "valid (f_device fs)" "im = img (f_device fs)" "b = f_bpb fs" "k \<le> n" "k = n \<or> \<not> data_cluster (fat_nth im b c k)"
    and "\<forall>i < k. data_cluster (fat_nth im b c i) \<and> sector_reads rd valid (fat_entry_sector b (fat_nth im b c i))"
  shows "spec (chain_loop rd n c) fs (\<lambda>fs' r. same_fat fs fs'
     \<and> r = (if k = n \<or> EOC_MARKER \<le> fat_nth im b c k then Ok (map (fat_nth im b c) [0..<k])
            else if fat_nth im b c k = BAD_CLUSTER then Err F32BadCluster else Err F32InvalidCluster))"
  using assms
proof (induction k arbitrary: n c fs)
  case 0
  consider "n = 0" | "EOC_MARKER \<le> c" | "c = BAD_CLUSTER" "\<not> EOC_MARKER \<le> c" "n \<noteq> 0"
    | "c < 2" "\<not> EOC_MARKER \<le> c" "c \<noteq> BAD_CLUSTER" "n \<noteq> 0"
    using 0(5) not_data_cluster [of c] by auto
  then show ?case
  proof cases
    case 4
    have "spec (read_fat_entry rd c) fs (\<lambda>fs' r. same_fat fs fs' \<and> r = Err F32InvalidCluster)"
      using 4(1) 0(1) by (simp add: read_fat_entry_def spec_simps same_fat_refl)
    with 4 show ?thesis by (auto simp: chain_loop.simps [of rd n c] spec_simps elim!: spec_mono)
  qed (use 0 in \<open>auto simp: chain_loop.simps [of rd n c] chain_loop.simps [of rd 0 c] chain_loop.simps [of rd n BAD_CLUSTER]
      spec_simps same_fat_refl\<close>)
next
  case (Suc k)
  then obtain n' where n: "n = Suc n'" by (cases n) auto
  let ?next = "fat_next im b c"
  have c: "data_cluster c" "sector_reads rd valid (fat_entry_sector b c)" using Suc.prems(6) [rule_format, of 0] by auto
  note d = data_cluster_continues [OF c(1)]
  have rd: "spec (read_fat_entry rd c) fs (\<lambda>fs' r. same_fat fs fs' \<and> r = Ok ?next)"
    using c(2) d Suc.prems(2,3) by (intro spec_mono [OF read_fat_entry_spec [OF Suc.prems(1)]]) auto
  have IH: "spec (chain_loop rd n' ?next) fs' (\<lambda>fs'' r. same_fat fs fs''
     \<and> r = (if k = n' \<or> EOC_MARKER \<le> fat_nth im b ?next k then Ok (map (fat_nth im b ?next) [0..<k])
            else if fat_nth im b ?next k = BAD_CLUSTER then Err F32BadCluster else Err F32InvalidCluster))"
    if s: "same_fat fs fs'" for fs'
  proof -
    have "spec (chain_loop rd n' ?next) fs' (\<lambda>fs'' r. same_fat fs' fs''
     \<and> r = (if k = n' \<or> EOC_MARKER \<le> fat_nth im b ?next k then Ok (map (fat_nth im b ?next) [0..<k])
            else if fat_nth im b ?next k = BAD_CLUSTER then Err F32BadCluster else Err F32InvalidCluster))"
      using s Suc.prems n by (intro Suc.IH) (auto simp: same_fat_def fat_nth_Suc [symmetric])
    then show ?thesis using s by (auto elim!: spec_mono intro: same_fat_trans)
  qed
  have "spec (bindP (read_fat_entry rd c) (\<lambda>nx. bindP (chain_loop rd n' nx) (\<lambda>chain. retP (c # chain)))) fs
    (\<lambda>fs' r. same_fat fs fs' \<and> r = (if Suc k = n \<or> EOC_MARKER \<le> fat_nth im b c (Suc k) then Ok (map (fat_nth im b c) [0..<Suc k])
            else if fat_nth im b c (Suc k) = BAD_CLUSTER then Err F32BadCluster else Err F32InvalidCluster))"
  proof (rule spec_bindI [OF rd], goal_cases)
    case (1 fs' x)
    then have x: "x = ?next" "same_fat fs fs'" by auto
    show ?case
      unfolding x(1)
      by (rule spec_bindI [OF IH [OF x(2)]]) (auto simp: spec_simps n map_fat_nth_Suc fat_nth_Suc simp del: upt_Suc split: if_splits)
  qed auto
  moreover have "chain_loop rd n c = bindP (read_fat_entry rd c) (\<lambda>nx. bindP (chain_loop rd n' nx) (\<lambda>chain. retP (c # chain)))"
    using chain_loop.simps [of rd "Suc n'" c] d by (simp add: n)
  ultimately show ?case by (simp only:)
qed

lemma get_cluster_chain_exact:
  assumes "valid (f_device fs)" "im = img (f_device fs)" "b = f_bpb fs" "c \<noteq> 0" "k \<le> MAX_CHAIN_LENGTH"
    and "k = MAX_CHAIN_LENGTH \<or> \<not> data_cluster (fat_nth im b c k)"
    and "\<forall>i < k. data_cluster (fat_nth im b c i) \<and> sector_reads rd valid (fat_entry_sector b (fat_nth im b c i))"
  shows "spec (get_cluster_chain rd c) fs (\<lambda>fs' r. same_fat fs fs'
     \<and> r = (if k = MAX_CHAIN_LENGTH \<or> EOC_MARKER \<le> fat_nth im b c k then Ok (map (fat_nth im b c) [0..<k])
            else if fat_nth im b c k = BAD_CLUSTER then Err F32BadCluster else Err F32InvalidCluster))"
  using chain_loop_exact [OF assms(1-3,5-7)] assms(4) by (simp add: get_cluster_chain_def)

lemma get_cluster_chain_total:
  assumes "valid (f_device fs)"
  shows "spec (get_cluster_chain rd c) fs (\<lambda>fs' r. same_fat fs fs')"
  using chain_loop_total [OF assms, of MAX_CHAIN_LENGTH c] assms
  by (simp add: get_cluster_chain_def spec_simps same_fat_refl)

lemma get_cluster_chain_list:
  assumes "valid (f_device fs)" "fat_list (img (f_device fs)) (f_bpb fs) c xs" "c \<noteq> 0" "length xs \<le> MAX_CHAIN_LENGTH"
    and "\<forall>x \<in> set xs. sector_reads rd valid (fat_entry_sector (f_bpb fs) x)"
  shows "spec (get_cluster_chain rd c) fs (\<lambda>fs' r. same_fat fs fs' \<and> r = Ok xs)"
proof -
  let ?nth = "fat_nth (img (f_device fs)) (f_bpb fs) c"
  have l: "xs = map ?nth [0..<length xs]" "\<forall>i < length xs. data_cluster (?nth i)" "EOC_MARKER \<le> ?nth (length xs)"
    using assms(2) unfolding fat_list_nth by blast+
  have "?nth i \<in> set xs" if "i < length xs" for i using that by (subst l(1)) auto
  then have "spec (get_cluster_chain rd c) fs (\<lambda>fs' r. same_fat fs fs' \<and> r = Ok (map ?nth [0..<length xs]))"
    using get_cluster_chain_exact [OF assms(1) refl refl assms(3,4)] l(2,3) end_not_data assms(5) by auto
  then show ?thesis using l(1) by simp
qed

lemma length_cluster_bytes:
  "valid d \<Longrightarrow> bpb_ok b \<Longrightarrow> length (cluster_bytes (img d) b c) = bytes_per_cluster b"
  using length_concat_blocks [of "map (\<lambda>i. img d (cluster_to_sector b c + of_nat i)) [0..<unat (sectors_per_cluster b)]" SECTOR_SIZE]
  by (simp add: cluster_bytes_eq bytes_per_cluster_def bpb_ok_def sector_len)

lemma read_cluster_spec:
  assumes "valid (f_device fs)" "bpb_ok (f_bpb fs)"
  shows "spec (read_cluster rd c buffer) fs (\<lambda>fs' r. same_fat fs fs'
     \<and> (r = Ok (buffer @ cluster_bytes (img (f_device fs)) (f_bpb fs) c)
        \<or> r = Err F32IoError \<and> (\<exists>s \<in> set (cluster_sectors (f_bpb fs) c). \<not> sector_reads rd valid s)))"
proof -
  let ?b = "f_bpb fs" and ?s = "cluster_to_sector (f_bpb fs) c"
  let ?n = "unat (sectors_per_cluster ?b)"
  let ?data = "\<lambda>k. concat (map (\<lambda>i. img (f_device fs) (?s + of_nat i)) [0..<k])"
  let ?bad = "\<exists>s \<in> set (cluster_sectors ?b c). \<not> sector_reads rd valid s"
  have "spec (foldP (\<lambda>buf i. bindP (fat_sector rd (?s + of_nat i)) (\<lambda>sector. retP (buf @ sector))) buffer [0..<?n]) fs
    (\<lambda>fs' r. case r of Ok buf \<Rightarrow> same_fat fs fs' \<and> buf = buffer @ ?data (length [0..<?n])
       | Err e \<Rightarrow> same_fat fs fs' \<and> e = F32IoError \<and> ?bad)"
  proof (rule spec_foldP)
    fix i acc fs1
    assume i: "i < length [0..<?n]" and I: "same_fat fs fs1 \<and> acc = buffer @ ?data i"
    have "?s + of_nat i \<in> set (cluster_sectors ?b c)" using i by (simp add: cluster_sectors_eq)
    with i I show "spec (bindP (fat_sector rd (?s + of_nat ([0..<?n] ! i))) (\<lambda>sector. retP (acc @ sector))) fs1
        (\<lambda>fs' r. case r of Ok buf \<Rightarrow> same_fat fs fs' \<and> buf = buffer @ ?data (Suc i)
           | Err e \<Rightarrow> same_fat fs fs' \<and> e = F32IoError \<and> ?bad)"
      by (intro spec_bindI [OF fat_sector_spec]) (auto simp: spec_simps same_fat_def)
  qed (use assms in \<open>simp add: same_fat_refl\<close>)
  moreover have "length (?data ?n) = bytes_per_cluster ?b"
    using length_cluster_bytes [OF assms, of c] by (simp add: cluster_bytes_eq)
  ultimately show ?thesis
    unfolding read_cluster_def
    by (auto simp: spec_simps Let_def cluster_bytes_eq elim!: spec_mono split: result.splits)
qed

lemma fat_clusters_len:
  "valid d \<Longrightarrow> bpb_ok b \<Longrightarrow> \<forall>x \<in> set (map (cluster_bytes (img d) b) cs). length x = bytes_per_cluster b"
  by (simp add: length_cluster_bytes)

lemma fat_read_loop_spec:
  assumes "valid (f_device fs)" "bpb_ok (f_bpb fs)"
    and "content = concat (map (cluster_bytes (img (f_device fs)) (f_bpb fs)) chain)"
    and "available \<le> length buf" "br \<le> available" "br \<le> length content - offset"
    and "buffer = take br (drop offset content) @ drop br buf"
    and "k \<le> length chain \<or> br = 0" "S = bytes_per_cluster (f_bpb fs)" "k = offset div S \<longrightarrow> br = 0" "offset div S \<le> k"
    and "br < available \<longrightarrow> (offset + br) div S = k \<and> (k \<noteq> offset div S \<longrightarrow> (offset + br) mod S = 0)" "B = f_bpb fs"
  shows "spec (fat_read_loop rd (offset div S) (offset mod S) available (drop k (enumerate 0 chain)) br) (fs, buffer)
    (\<lambda>(fs', buf') r. same_fat fs fs' \<and> length buf' = length buf
       \<and> (case r of Ok m \<Rightarrow> m = min available (length content - offset) \<and> buf' = take m (drop offset content) @ drop m buf
          | Err e \<Rightarrow> e = F32IoError \<and> (\<exists>x \<in> set chain. \<exists>s \<in> set (cluster_sectors B x). \<not> sector_reads rd valid s)))"
  using assms
proof (induction "length chain - k" arbitrary: k br buffer fs)
  case 0
  have len: "length content = length chain * S"
    using length_concat_blocks [OF fat_clusters_len [OF 0(2,3), of chain]] 0(4,10) by simp
  have "br = min available (length content - offset)"
  proof (cases "br < available")
    case True
    then have "(offset + br) div S = k" using 0 by simp
    then have "k * S \<le> offset + br" using div_times_less_eq_dividend [of "offset + br" S] by simp
    moreover have "length chain * S \<le> k * S" using 0(1) by simp
    ultimately show ?thesis using 0(7) len True by linarith
  next
    case False
    then show ?thesis using 0 by simp
  qed
  moreover have "drop k (enumerate 0 chain) = []" using 0(1) by simp
  ultimately show ?case using 0 by (simp add: spec_simps same_fat_refl)
next
  case (Suc x)
  then have k: "k < length chain" by simp
  then have en: "drop k (enumerate 0 chain) = (k, chain ! k) # drop (Suc k) (enumerate 0 chain)"
    by (simp add: Cons_nth_drop_Suc [symmetric] nth_enumerate_eq)
  have S: "0 < S" using Suc(4,11) by (simp add: bpb_ok_def bytes_per_cluster_def SECTOR_SIZE_def unat_gt_0)
  show ?case
  proof (cases "br < available")
    case False
    then show ?thesis using Suc by (simp add: en spec_simps same_fat_refl)
  next
    case True
    let ?pos = "offset + br"
    define bo where "bo = (if k = offset div S then offset mod S else 0)"
    define t where "t = min (S - bo) (available - br)"
    have bo: "?pos = k * S + bo" "bo < S"
      using Suc(12,14) True S div_mult_mod_eq [of ?pos S] by (auto simp: bo_def)
    have t: "0 < t" "bo + t \<le> S" "br + t \<le> available" "t = S - bo \<or> br + t = available"
      using bo(2) True by (auto simp: t_def)
    let ?cl = "cluster_bytes (img (f_device fs)) (f_bpb fs) (chain ! k)"
    have sl: "length ?cl = S" using length_cluster_bytes [OF Suc(3,4)] Suc(11) by simp
    let ?buf = "overwrite buffer br (subslice ?cl bo (bo + t))"
    have buf': "?buf = take (br + t) (drop offset content) @ drop (br + t) buf" and fit: "br + t \<le> length content - offset"
      using copy_block_step [OF fat_clusters_len [OF Suc(3,4), of chain], of k offset br bo t buffer buf] k bo t Suc(5,8,9,11)
      by simp_all
    have lbuf: "length buffer = length buf" using Suc(6,7,8,9) by simp
    have e: "min S (bo + (available - br)) = bo + t" using bo(2) by (auto simp: t_def min_def)
    have step: "spec (fat_read_loop rd (offset div S) (offset mod S) available
          (drop (Suc k) (enumerate 0 chain)) (br + t)) (fs', ?buf)
        (\<lambda>(fs'', buf') r. same_fat fs fs'' \<and> length buf' = length buf
           \<and> (case r of Ok m \<Rightarrow> m = min available (length content - offset) \<and> buf' = take m (drop offset content) @ drop m buf
              | Err e \<Rightarrow> e = F32IoError \<and> (\<exists>x \<in> set chain. \<exists>s \<in> set (cluster_sectors B x). \<not> sector_reads rd valid s)))" if "same_fat fs fs'" for fs'
    proof -
      have next_pos: "br + t < available \<Longrightarrow> (offset + (br + t)) = Suc k * S"
        using t(4) bo by simp
      have "spec (fat_read_loop rd (offset div S) (offset mod S) available
          (drop (Suc k) (enumerate 0 chain)) (br + t)) (fs', ?buf)
        (\<lambda>(fs'', buf') r. same_fat fs' fs'' \<and> length buf' = length buf
           \<and> (case r of Ok m \<Rightarrow> m = min available (length content - offset) \<and> buf' = take m (drop offset content) @ drop m buf
              | Err e \<Rightarrow> e = F32IoError \<and> (\<exists>x \<in> set chain. \<exists>s \<in> set (cluster_sectors B x). \<not> sector_reads rd valid s)))"
        using that Suc(2,4,5,6,11,13,15) t fit buf' k S next_pos
        by (intro Suc(1)) (auto simp: same_fat_def)
      then show ?thesis using that by (auto elim!: spec_mono intro: same_fat_trans)
    qed
    show ?thesis
      unfolding en using True
      by (simp add: spec_simps Let_def bo_def [symmetric] del: result.case,
          intro spec_mono [OF read_cluster_spec [OF Suc(3,4)]], elim conjE disjE)
        (use lbuf t sl Suc(6,15) step e k in \<open>auto simp: spec_simps\<close>)
  qed
qed

lemma fat_read_file_spec:
  assumes "valid (f_device fs)" "bpb_ok (f_bpb fs)"
    and chain: "spec (get_cluster_chain rd c) fs (\<lambda>fs' r. same_fat fs fs' \<and> P r)"
  shows "spec (fat_read_file rd c fsize offset) (fs, buf) (\<lambda>(fs', buf') r. same_fat fs fs' \<and> length buf' = length buf
    \<and> (if c = 0 \<or> unat fsize \<le> offset then r = Ok 0 \<and> buf' = buf
       else (\<exists>e. P (Err e) \<and> r = Err e)
         \<or> (\<exists>chain. P (Ok chain) \<and>
              (case r of
                 Ok m \<Rightarrow> m = min (min (unat fsize - offset) (length buf))
                       (length (concat (map (cluster_bytes (img (f_device fs)) (f_bpb fs)) chain)) - offset)
                   \<and> buf' = take m (drop offset (concat (map (cluster_bytes (img (f_device fs)) (f_bpb fs)) chain))) @ drop m buf
               | Err e \<Rightarrow> e = F32IoError \<and> (\<exists>x \<in> set chain. \<exists>s \<in> set (cluster_sectors (f_bpb fs) x). \<not> sector_reads rd valid s)))))"
    (is "spec _ _ ?Q")
proof (cases "c = 0 \<or> unat fsize \<le> offset")
  case True
  then show ?thesis using assms by (auto simp: fat_read_file_def spec_simps same_fat_refl)
next
  case False
  let ?b = "f_bpb fs" and ?im = "img (f_device fs)"
  let ?S = "bytes_per_cluster ?b" and ?av = "min (unat fsize - offset) (length buf)"
  have S: "?S \<noteq> 0" using assms(2) by (simp add: bpb_ok_def bytes_per_cluster_def SECTOR_SIZE_def unat_eq_0)
  have nz: "fsize \<noteq> 0" using False by auto
  have "spec (bindP (zoomP fst (\<lambda>fs (_, buffer). (fs, buffer)) (get_cluster_chain rd c)) (\<lambda>chain.
        if chain = [] then retP 0
        else
          bindP (getP (\<lambda>(fs, buffer). (bytes_per_cluster (f_bpb fs), length buffer))) (\<lambda>(bpc, len).
          let max_read = min (unat fsize - offset) len in
          if bpc = 0 then panicP
          else fat_read_loop rd (offset div bpc) (offset mod bpc) max_read
              (drop (offset div bpc) (enumerate 0 chain)) 0))) (fs, buf) ?Q"
  proof (rule spec_bindI [where P = "\<lambda>(fs', b) r. b = buf \<and> same_fat fs fs' \<and> P r"], goal_cases)
    case 1
    show ?case using chain by (auto simp: spec_zoom elim!: spec_mono)
  next
    case (2 s chain)
    then obtain fs' where s: "s = (fs', buf)" "same_fat fs fs'" and ch: "P (Ok chain)" by (cases s) auto
    let ?content = "concat (map (cluster_bytes ?im ?b) chain)"
    have "spec (fat_read_loop rd (offset div ?S) (offset mod ?S) ?av (drop (offset div ?S) (enumerate 0 chain)) 0) (fs', buf)
      (\<lambda>(fs'', buf') r. same_fat fs' fs'' \<and> length buf' = length buf
         \<and> (case r of Ok m \<Rightarrow> m = min ?av (length ?content - offset) \<and> buf' = take m (drop offset ?content) @ drop m buf
          | Err e \<Rightarrow> e = F32IoError \<and> (\<exists>x \<in> set chain. \<exists>s \<in> set (cluster_sectors ?b x). \<not> sector_reads rd valid s)))"
      using s assms by (intro fat_read_loop_spec) (auto simp: same_fat_def)
    then have "spec (fat_read_loop rd (offset div ?S) (offset mod ?S) ?av (drop (offset div ?S) (enumerate 0 chain)) 0) (fs', buf) ?Q"
      by (rule spec_mono) (use ch s(2) False in \<open>auto intro: same_fat_trans exI [of _ chain]\<close>)
    moreover have "chain = [] \<Longrightarrow> ?Q (fs', buf) (Ok 0)" using ch s False by (auto intro: exI [of _ chain])
    ultimately show ?case using s S by (auto simp: spec_simps Let_def same_fat_def)
  next
    case (3 s e)
    then show ?case using False by (cases s) auto
  qed
  with False nz show ?thesis by (simp add: fat_read_file_def)
qed

lemma fat_read_file_list:
  fixes fsize :: u32 and offset :: nat and buf :: bytes
  assumes "valid (f_device fs)" "bpb_ok (f_bpb fs)" "c \<noteq> 0"
    and "fat_list (img (f_device fs)) (f_bpb fs) c chain" "length chain \<le> 65536"
    and reads: "\<forall>x \<in> set chain. sector_reads rd valid (fat_entry_sector (f_bpb fs) x)
      \<and> (\<forall>s \<in> set (cluster_sectors (f_bpb fs) x). sector_reads rd valid s)"
  defines "content \<equiv> concat (map (cluster_bytes (img (f_device fs)) (f_bpb fs)) chain)"
  defines "m \<equiv> min (min (unat fsize - offset) (length buf)) (length content - offset)"
  shows "spec (fat_read_file rd c fsize offset) (fs, buf) (\<lambda>(fs', buf') r. r = Ok m \<and> buf' = take m (drop offset content) @ drop m buf)"
proof -
  have "spec (get_cluster_chain rd c) fs (\<lambda>fs' r. same_fat fs fs' \<and> r = Ok chain)"
    using assms(1-5) reads by (intro get_cluster_chain_list) (auto simp: MAX_CHAIN_LENGTH_def)
  note R = fat_read_file_spec [OF assms(1,2) this, of fsize offset buf, folded content_def m_def]
  show ?thesis
  proof (rule spec_mono [OF R], clarify)
    fix fs' buf' r
    assume "if c = 0 \<or> unat fsize \<le> offset then r = Ok 0 \<and> buf' = buf
       else (\<exists>e. Err e = (Ok chain :: (u32 list, fat32_error) result) \<and> r = Err e)
         \<or> (\<exists>chain'. Ok chain' = (Ok chain :: (u32 list, fat32_error) result) \<and>
              (case r of
                 Ok m \<Rightarrow> m = min (min (unat fsize - offset) (length buf))
                       (length (concat (map (cluster_bytes (img (f_device fs)) (f_bpb fs)) chain')) - offset)
                   \<and> buf' = take m (drop offset (concat (map (cluster_bytes (img (f_device fs)) (f_bpb fs)) chain'))) @ drop m buf
               | Err e \<Rightarrow> e = F32IoError \<and> (\<exists>x \<in> set chain'. \<exists>s \<in> set (cluster_sectors (f_bpb fs) x). \<not> sector_reads rd valid s)))"
    then show "r = Ok m \<and> buf' = take m (drop offset content) @ drop m buf"
      using assms(3) reads by (cases r) (auto simp: m_def content_def split: if_splits)
  qed
qed

lemma fat_read_file_run:
  assumes "valid (f_device fs)" "bpb_ok (f_bpb fs)"
  shows "\<exists>fs' buf' r. fat_read_file rd c fsize offset (fs, buf) = Ret ((fs', buf'), r)
    \<and> img (f_device fs') = img (f_device fs) \<and> length buf' = length buf
    \<and> (c = 0 \<or> unat fsize \<le> offset \<longrightarrow> r = Ok 0 \<and> buf' = buf)"
proof -
  have "spec (get_cluster_chain rd c) fs (\<lambda>fs' r. same_fat fs fs' \<and> True)"
    using get_cluster_chain_total [OF assms(1)] by simp
  from fat_read_file_spec [OF assms this, of fsize offset buf] show ?thesis
    by (auto simp: spec_run same_fat_def split: if_splits)
qed

lemma get_cluster_chain_run:
  assumes "valid (f_device fs)"
  shows "\<exists>fs' r. get_cluster_chain rd c fs = Ret (fs', r) \<and> img (f_device fs') = img (f_device fs)"
  using get_cluster_chain_total [OF assms, of c] by (auto simp: spec_run same_fat_def)

end

section \<open>Correctness\<close>

text \<open>C30: \<open>read_file\<close> on a device that meets its contract never panics when the parameter block
  passed the checks of \<open>Bpb::parse\<close>, and changes no sector. A file without clusters, or an offset
  at or behind the file size, gives zero bytes. Otherwise, when the clusters of the file form a
  list that ends at an end marker within 65536 clusters and the sectors of their table entries and
  of their data can be read, the call succeeds: the count is what the file size, the buffer and
  the clusters allow from the offset on, exactly those bytes of the clusters are in the buffer and
  the rest of the buffer is untouched.\<close>

theorem fat32_read_file_correct:
  fixes c fsize :: u32
  assumes "block_device rd wr img valid" "valid (f_device fs)" "bpb_ok (f_bpb fs)"
  shows "\<exists>fs' buf' r. fat_read_file rd c fsize offset (fs, buf) = Ret ((fs', buf'), r)
    \<and> img (f_device fs') = img (f_device fs) \<and> length buf' = length buf
    \<and> (c = 0 \<or> unat fsize \<le> offset \<longrightarrow> r = Ok 0 \<and> buf' = buf)
    \<and> (\<forall>chain m. c \<noteq> 0 \<longrightarrow> fat_list (img (f_device fs)) (f_bpb fs) c chain \<longrightarrow> length chain \<le> 65536 \<longrightarrow>
         (\<forall>x \<in> set chain. sector_reads rd valid (fat_entry_sector (f_bpb fs) x)
            \<and> (\<forall>s \<in> set (cluster_sectors (f_bpb fs) x). sector_reads rd valid s)) \<longrightarrow>
         m = min (min (unat fsize - offset) (length buf))
               (length (concat (map (cluster_bytes (img (f_device fs)) (f_bpb fs)) chain)) - offset) \<longrightarrow>
         r = Ok m \<and> buf' = take m (drop offset (concat (map (cluster_bytes (img (f_device fs)) (f_bpb fs)) chain))) @ drop m buf)"
proof -
  obtain fs' buf' r where r: "fat_read_file rd c fsize offset (fs, buf) = Ret ((fs', buf'), r)"
      "img (f_device fs') = img (f_device fs)" "length buf' = length buf"
      "c = 0 \<or> unat fsize \<le> offset \<longrightarrow> r = Ok 0 \<and> buf' = buf"
    using block_device.fat_read_file_run [OF assms, of c fsize offset buf] by blast
  show ?thesis
  proof (intro exI [of _ fs'] exI [of _ buf'] exI [of _ r] conjI allI impI)
    fix chain m
    let ?content = "concat (map (cluster_bytes (img (f_device fs)) (f_bpb fs)) chain)"
    assume c: "c \<noteq> 0" "fat_list (img (f_device fs)) (f_bpb fs) c chain" "length chain \<le> 65536"
      "\<forall>x \<in> set chain. sector_reads rd valid (fat_entry_sector (f_bpb fs) x)
         \<and> (\<forall>s \<in> set (cluster_sectors (f_bpb fs) x). sector_reads rd valid s)"
      and m: "m = min (min (unat fsize - offset) (length buf)) (length ?content - offset)"
    from block_device.fat_read_file_list [OF assms c, of fsize offset buf] r(1)
    show "r = Ok m" "buf' = take m (drop offset ?content) @ drop m buf" unfolding m by (simp_all add: spec_def)
  qed (use r in auto)
qed

text \<open>A disk with one file, in the clusters 2 and 4.\<close>

definition example_fat :: "bytes list fat32" where
  "example_fat = \<lparr>f_device = [replicate 512 0,
       replicate 8 0 @ [4, 0, 0, 0, 247, 255, 255, 15, 255, 255, 255, 15, 1, 0, 0, 0] @ replicate 488 0,
       replicate 510 65 @ [66, 67], replicate 512 0, [68, 69, 70] @ replicate 509 0],
     f_bpb = \<lparr>bytes_per_sector = 512, sectors_per_cluster = 1, reserved_sectors = 1, num_fats = 1, total_sectors = 5,
       sectors_per_fat = 1, root_cluster = 2, fat_start_sector = 1, data_start_sector = 2\<rparr>\<rparr>"

lemma example_fat_valid: "ram_sized 5 (f_device example_fat)" "bpb_ok (f_bpb example_fat)"
  by (simp_all add: example_fat_def ram_sized_def ram_valid_def bpb_ok_def SECTOR_SIZE_def)

lemma example_fat_next:
  "fat_next (ram_img (f_device example_fat)) (f_bpb example_fat) 2 = 4"
  "fat_next (ram_img (f_device example_fat)) (f_bpb example_fat) 3 = 0x0FFFFFF7"
  "fat_next (ram_img (f_device example_fat)) (f_bpb example_fat) 4 = 0x0FFFFFFF"
  "fat_next (ram_img (f_device example_fat)) (f_bpb example_fat) 5 = 1"
  by (simp_all add: fat_next_def fat_entry_sector_def example_fat_def ram_img_def subslice_def)

lemma example_fat_list: "fat_list (ram_img (f_device example_fat)) (f_bpb example_fat) 2 [2, 4]"
  by (simp add: example_fat_next data_cluster_def EOC_MARKER_def BAD_CLUSTER_def word_le_nat_alt word_less_nat_alt)

lemma example_fat_reads:
  "sector_reads ram_read (ram_sized 5) (fat_entry_sector (f_bpb example_fat) 2)"
  "sector_reads ram_read (ram_sized 5) (fat_entry_sector (f_bpb example_fat) 3)"
  "sector_reads ram_read (ram_sized 5) (fat_entry_sector (f_bpb example_fat) 4)"
  "sector_reads ram_read (ram_sized 5) (fat_entry_sector (f_bpb example_fat) 5)"
  "cluster_sectors (f_bpb example_fat) 2 = [2]" "cluster_sectors (f_bpb example_fat) 4 = [4]"
  "sector_reads ram_read (ram_sized 5) 2" "sector_reads ram_read (ram_sized 5) 4"
  by (simp_all add: ram_sized_reads fat_entry_sector_def cluster_sectors_def example_fat_def)

theorem fat32_read_file_correct_witness:
  "\<exists>fs'. fat_read_file ram_read 2 515 510 (example_fat, [9, 9, 9, 9, 9, 9]) = Ret ((fs', [66, 67, 68, 69, 70, 9]), Ok 5)"
proof -
  let ?chain = "[2, 4] :: u32 list"
  have "concat (map (cluster_bytes (ram_img (f_device example_fat)) (f_bpb example_fat)) ?chain)
      = replicate 510 65 @ [66, 67, 68, 69, 70] @ replicate 509 0"
    by (simp add: cluster_bytes_def example_fat_reads) (simp add: example_fat_def ram_img_def)
  moreover have "(5 :: nat) = Suc (Suc (Suc (Suc (Suc 0))))" by simp
  ultimately show ?thesis
    using fat32_read_file_correct [OF ram_sized_device example_fat_valid, of 2 515 510 "[9, 9, 9, 9, 9, 9]"]
      example_fat_list example_fat_reads
    by (elim exE conjE) (drule spec [of _ ?chain], simp add: example_fat_next)
qed

text \<open>C10: following a cluster chain always ends and never panics, whatever the allocation table holds,
  and changes no sector. Cluster zero has the empty chain. From any other cluster \<open>c\<close>, take the clusters
  that the table lists after it and as many of them, \<open>k\<close>, as are data clusters whose table entries can
  be read. If the next one is an end marker, or \<open>k\<close> is the limit of 65536, the result is exactly these
  \<open>k\<close> clusters in order; if it is the marker of a bad cluster or below two, it is the error for that.
  A chain that ends in a marker visits no cluster twice.\<close>

theorem fat32_chain_correct:
  fixes c :: u32
  assumes "block_device rd wr img valid" "valid (f_device fs)"
  defines "nth_cluster \<equiv> fat_nth (img (f_device fs)) (f_bpb fs) c"
  shows "\<exists>fs' r. get_cluster_chain rd c fs = Ret (fs', r) \<and> img (f_device fs') = img (f_device fs)
    \<and> (c = 0 \<longrightarrow> r = Ok [])
    \<and> (\<forall>k \<le> 65536. c \<noteq> 0 \<longrightarrow>
         (\<forall>i < k. data_cluster (nth_cluster i) \<and> sector_reads rd valid (fat_entry_sector (f_bpb fs) (nth_cluster i))) \<longrightarrow>
           (k = 65536 \<or> EOC_MARKER \<le> nth_cluster k \<longrightarrow> r = Ok (map nth_cluster [0..<k]))
         \<and> (k < 65536 \<and> nth_cluster k = BAD_CLUSTER \<longrightarrow> r = Err F32BadCluster)
         \<and> (k < 65536 \<and> nth_cluster k < 2 \<longrightarrow> r = Err F32InvalidCluster)
         \<and> (EOC_MARKER \<le> nth_cluster k \<longrightarrow> distinct (map nth_cluster [0..<k])))"
proof -
  obtain fs' r where r: "get_cluster_chain rd c fs = Ret (fs', r)" "img (f_device fs') = img (f_device fs)"
    using block_device.get_cluster_chain_run [OF assms(1,2)] by blast
  have exact: "r = (if k = 65536 \<or> EOC_MARKER \<le> nth_cluster k then Ok (map nth_cluster [0..<k])
            else if nth_cluster k = BAD_CLUSTER then Err F32BadCluster else Err F32InvalidCluster)"
    if "k \<le> 65536" "c \<noteq> 0" "\<forall>i < k. data_cluster (nth_cluster i) \<and> sector_reads rd valid (fat_entry_sector (f_bpb fs) (nth_cluster i))"
      "k = 65536 \<or> \<not> data_cluster (nth_cluster k)" for k
    using block_device.get_cluster_chain_exact [OF assms(1,2) refl refl that(2), of k] that r(1)
    by (simp add: spec_def nth_cluster_def MAX_CHAIN_LENGTH_def)
  show ?thesis
  proof (intro exI [of _ fs'] exI [of _ r] conjI allI impI)
    show "r = Ok []" if "c = 0" using r(1) that by (simp add: get_cluster_chain_def retP_def)
  next
    fix k assume k: "k \<le> 65536" "c \<noteq> 0"
      "\<forall>i < k. data_cluster (nth_cluster i) \<and> sector_reads rd valid (fat_entry_sector (f_bpb fs) (nth_cluster i))"
    show "r = Ok (map nth_cluster [0..<k])" if "k = 65536 \<or> EOC_MARKER \<le> nth_cluster k"
      using exact [OF k] that end_not_data by auto
    show "r = Err F32BadCluster" if b: "k < 65536 \<and> nth_cluster k = BAD_CLUSTER"
    proof -
      have "\<not> EOC_MARKER \<le> BAD_CLUSTER" by (simp add: EOC_MARKER_def BAD_CLUSTER_def word_le_nat_alt)
      with exact [OF k] b show ?thesis by (simp add: data_cluster_def)
    qed
    show "r = Err F32InvalidCluster" if b: "k < 65536 \<and> nth_cluster k < 2"
    proof -
      have "\<not> EOC_MARKER \<le> nth_cluster k" "nth_cluster k \<noteq> BAD_CLUSTER" "\<not> data_cluster (nth_cluster k)"
        using b by (auto simp: EOC_MARKER_def BAD_CLUSTER_def data_cluster_def word_le_nat_alt word_less_nat_alt)
      with exact [OF k] b show ?thesis by simp
    qed
    show "distinct (map nth_cluster [0..<k])" if "EOC_MARKER \<le> nth_cluster k"
      by (rule fat_list_distinct [of "img (f_device fs)" "f_bpb fs" c]) (use k that in \<open>simp add: fat_list_nth nth_cluster_def\<close>)
  qed (use r in auto)
qed

theorem fat32_chain_correct_witness:
  "(\<exists>fs'. get_cluster_chain ram_read 2 example_fat = Ret (fs', Ok [2, 4]))
   \<and> (\<exists>fs'. get_cluster_chain ram_read 3 example_fat = Ret (fs', Err F32BadCluster))
   \<and> (\<exists>fs'. get_cluster_chain ram_read 5 example_fat = Ret (fs', Err F32InvalidCluster))
   \<and> (\<exists>fs'. get_cluster_chain ram_read 0 example_fat = Ret (fs', Ok []))"
proof -
  let ?nth = "fat_nth (ram_img (f_device example_fat)) (f_bpb example_fat)"
  note C = fat32_chain_correct [OF ram_sized_device example_fat_valid(1)]
  have data: "data_cluster 2" "data_cluster 3" "data_cluster 4" "data_cluster 5"
    by (simp_all add: data_cluster_def BAD_CLUSTER_def word_le_nat_alt word_less_nat_alt)
  have nth: "?nth 2 1 = 4" "?nth 2 2 = 0x0FFFFFFF" "?nth 3 1 = 0x0FFFFFF7" "?nth 5 1 = 1"
    by (simp_all add: fat_nth_def example_fat_next numeral_2_eq_2)
  have "\<exists>fs'. get_cluster_chain ram_read 2 example_fat = Ret (fs', Ok [2, 4])"
  proof -
    have "\<forall>i < 2. data_cluster (?nth 2 i) \<and> sector_reads ram_read (ram_sized 5) (fat_entry_sector (f_bpb example_fat) (?nth 2 i))"
      using data example_fat_reads nth by (auto simp: less_2_cases_iff)
    moreover have "EOC_MARKER \<le> ?nth 2 2" using nth by (simp add: EOC_MARKER_def word_le_nat_alt)
    moreover have "map (?nth 2) [0..<2] = [2, 4]" using nth by (simp add: numeral_2_eq_2)
    ultimately show ?thesis using C [of 2] by (elim exE conjE) (drule spec [of _ 2], simp)
  qed
  moreover have "\<exists>fs'. get_cluster_chain ram_read 3 example_fat = Ret (fs', Err F32BadCluster)"
  proof -
    have "?nth 3 1 = BAD_CLUSTER" using nth by (simp add: BAD_CLUSTER_def)
    then show ?thesis using C [of 3] data(2) example_fat_reads(2) by (elim exE conjE) (drule spec [of _ 1], simp)
  qed
  moreover have "\<exists>fs'. get_cluster_chain ram_read 5 example_fat = Ret (fs', Err F32InvalidCluster)"
    using C [of 5] data(4) example_fat_reads(4) nth(4) by (elim exE conjE) (drule spec [of _ 1], simp)
  moreover have "\<exists>fs'. get_cluster_chain ram_read 0 example_fat = Ret (fs', Ok [])" using C [of 0] by auto
  ultimately show ?thesis by blast
qed

section \<open>Paths\<close>

lemma fat_walk_below_root:
  "fat_walk rd ulower c (Some e0) cs fs = Ret (fs', Ok e) \<Longrightarrow> cs \<noteq> [] \<Longrightarrow> is_directory e"
proof (induction cs arbitrary: c e0 fs)
  case Nil
  then show ?case by simp
next
  case (Cons x cs)
  then show ?case
    by (cases cs) (auto simp: bindP_def liftR_def failP_def split: outcome.splits result.splits if_splits)
qed

text \<open>C31: a path with more than one component never resolves to a file: \<open>resolve_path\<close> rejects an
  entry that is not a directory everywhere below the root, also as the last component, so only
  files in the root directory can be opened.\<close>

theorem fat32_files_only_in_root:
  "case fat_resolve_path rd ulower path fs of
     Ret (fs', Ok e) \<Rightarrow> is_directory e \<or> length (path_components path) = 1
   | _ \<Rightarrow> True"
proof (cases "fat_resolve_path rd ulower path fs")
  case Panic
  then show ?thesis by simp
next
  case (Ret x)
  obtain fs' r where x: "x = (fs', r)" by (cases x)
  show ?thesis
  proof (cases r)
    case (Err e)
    with Ret x show ?thesis by simp
  next
    case (Ok e)
    show ?thesis
    proof (cases "path = ''/''")
      case True
      with Ret x Ok show ?thesis
        by (auto simp: fat_resolve_path_def bindP_def getP_def retP_def failP_def is_directory_def ATTR_DIRECTORY_def split: if_splits)
    next
      case False
      with Ret x Ok have w: "fat_walk rd ulower (root_cluster (f_bpb fs)) None (path_components path) fs = Ret (fs', Ok e)"
        by (auto simp: fat_resolve_path_def bindP_def getP_def failP_def split: if_splits)
      show ?thesis
      proof (cases "path_components path")
        case Nil
        with w show ?thesis by (simp add: liftR_def)
      next
        case (Cons c cs)
        with w Ret x Ok fat_walk_below_root [of rd ulower _ _ cs _ fs' e] show ?thesis
          by (cases cs) (auto simp: bindP_def failP_def simp del: fat_walk.simps(2) simp: fat_walk.simps(2) [of rd ulower "root_cluster (f_bpb fs)"] split: outcome.splits result.splits if_splits)
      qed
    qed
  qed
qed

end
