(* ===== verification/Ring_Buffer.thy ===== *)
theory Ring_Buffer
  imports Panda_Prelude
begin

text \<open>
  Circular buffers. The generic part relates a buffer that is read at \<open>head\<close> and written at
  \<open>head + count\<close>, both modulo its length, to the list of the values it holds, and states
  the first-in-first-out interface as the locale \<open>fifo\<close>. The ring buffer of
  \<open>hal/src/ringbuffer.rs\<close>, which overwrites its oldest item when full, is the first
  interpretation; the pipes of \<open>kernel/src/pipe.rs\<close> are the second one.
\<close>

section \<open>The ring buffer of the source\<close>

record 'a ring =
  rb_data :: "'a option list"
  rb_head :: nat
  rb_tail :: nat
  rb_count :: nat

definition rb_new :: "nat \<Rightarrow> 'a ring" where
  "rb_new n = \<lparr>rb_data = replicate n None, rb_head = 0, rb_tail = 0, rb_count = 0\<rparr>"

definition rb_push :: "'a ring \<Rightarrow> 'a \<Rightarrow> 'a ring outcome" where
  "rb_push r item =
     (let n = length (rb_data r) in
      bindO (arr_set (rb_data r) (rb_tail r) (Some item)) (\<lambda>d.
        let r1 = r\<lparr>rb_data := d, rb_tail := (rb_tail r + 1) mod n\<rparr> in
        if rb_count r = n then Ret (r1\<lparr>rb_head := (rb_head r + 1) mod n\<rparr>)
        else Ret (r1\<lparr>rb_count := rb_count r + 1\<rparr>)))"

definition rb_pop :: "'a ring \<Rightarrow> ('a ring \<times> 'a option) outcome" where
  "rb_pop r =
     (if rb_count r = 0 then Ret (r, None)
      else bindO (arr_get (rb_data r) (rb_head r)) (\<lambda>item.
        Ret (r\<lparr>rb_data := (rb_data r)[rb_head r := None],
               rb_head := (rb_head r + 1) mod length (rb_data r),
               rb_count := rb_count r - 1\<rparr>, item)))"

definition rb_len :: "'a ring \<Rightarrow> nat" where
  "rb_len r = rb_count r"

definition rb_is_empty :: "'a ring \<Rightarrow> bool" where
  "rb_is_empty r \<longleftrightarrow> rb_count r = 0"

definition rb_is_full :: "'a ring \<Rightarrow> bool" where
  "rb_is_full r \<longleftrightarrow> rb_count r = length (rb_data r)"

definition rb_capacity :: "'a ring \<Rightarrow> nat" where
  "rb_capacity r = length (rb_data r)"

definition rb_peek :: "'a ring \<Rightarrow> 'a option outcome" where
  "rb_peek r = (if rb_count r = 0 then Ret None else arr_get (rb_data r) (rb_head r))"

lemma rb_pop_count: "rb_pop r = Ret (r', Some x) \<Longrightarrow> rb_count r' < rb_count r"
  by (auto simp: rb_pop_def split: if_splits)

text \<open>\<open>while self.pop().is_some() {}\<close>\<close>

function rb_clear :: "'a ring \<Rightarrow> 'a ring outcome" where
  "rb_clear r =
     (case rb_pop r of
        Panic \<Rightarrow> Panic
      | Ret (r', None) \<Rightarrow> Ret r'
      | Ret (r', Some x) \<Rightarrow> rb_clear r')"
  by pat_completeness auto
termination
  by (relation "measure rb_count") (auto dest: rb_pop_count)

declare rb_clear.simps [simp del]

section \<open>Circular buffers as lists\<close>

definition circ :: "'a list \<Rightarrow> nat \<Rightarrow> nat \<Rightarrow> 'a list" where
  "circ buf head n = map (\<lambda>k. buf ! ((head + k) mod length buf)) [0..<n]"

lemma length_circ [simp]: "length (circ buf head n) = n"
  by (simp add: circ_def)

lemma nth_circ: "k < n \<Longrightarrow> circ buf head n ! k = buf ! ((head + k) mod length buf)"
  by (simp add: circ_def)

lemma mod_shift_inj:
  assumes "(h + k) mod n = (h + m) mod n" "k < n" "m < (n::nat)"
  shows "k = m"
proof -
  have "k mod n = m mod n" using assms(1) by (simp add: nat_mod_eq_iff)
  with assms show ?thesis by simp
qed

lemma circ_put:
  assumes "n < length buf"
  shows "circ (buf[(head + n) mod length buf := x]) head (Suc n) = circ buf head n @ [x]"
proof (rule nth_equalityI)
  fix k assume "k < length (circ (buf[(head + n) mod length buf := x]) head (Suc n))"
  then consider "k < n" | "k = n" by (auto simp: less_Suc_eq)
  then show "circ (buf[(head + n) mod length buf := x]) head (Suc n) ! k = (circ buf head n @ [x]) ! k"
  proof cases
    case 1
    then have "(head + n) mod length buf \<noteq> (head + k) mod length buf"
      using mod_shift_inj [of head n "length buf" k] assms by auto
    with 1 show ?thesis by (simp add: nth_circ nth_append)
  next
    case 2
    have "(head + n) mod length buf < length buf" using assms by (intro mod_less_divisor) linarith
    with 2 show ?thesis by (simp add: nth_circ nth_append)
  qed
qed simp

lemma circ_get: "circ buf head (Suc n) = buf ! (head mod length buf) # circ buf ((head + 1) mod length buf) n"
proof (rule nth_equalityI)
  fix k assume "k < length (circ buf head (Suc n))"
  then show "circ buf head (Suc n) ! k
      = (buf ! (head mod length buf) # circ buf ((head + 1) mod length buf) n) ! k"
    by (cases k) (simp_all add: nth_circ mod_add_left_eq)
qed simp

lemma circ_update_other:
  assumes "head < length buf" "n < length buf"
  shows "circ (buf[head := x]) ((head + 1) mod length buf) n = circ buf ((head + 1) mod length buf) n"
proof (rule nth_equalityI)
  fix k assume "k < length (circ (buf[head := x]) ((head + 1) mod length buf) n)"
  then have k: "k < n" by simp
  have "(head + Suc k) mod length buf \<noteq> (head + 0) mod length buf"
    using mod_shift_inj [of head "Suc k" "length buf" 0] assms k by fastforce
  then have "Suc (head + k) mod length buf \<noteq> head" using assms(1) by simp
  with k show "circ (buf[head := x]) ((head + 1) mod length buf) n ! k
      = circ buf ((head + 1) mod length buf) n ! k"
    by (simp add: nth_circ mod_add_left_eq)
qed simp

section \<open>The interface of a bounded queue\<close>

locale fifo =
  fixes ok :: "'q \<Rightarrow> bool"
    and cap :: "'q \<Rightarrow> nat"
    and contents :: "'q \<Rightarrow> 'a list"
    and put :: "'q \<Rightarrow> 'a \<Rightarrow> 'q"
    and get :: "'q \<Rightarrow> 'a \<times> 'q"
  assumes bounded: "ok q \<Longrightarrow> length (contents q) \<le> cap q"
    and put_law: "ok q \<Longrightarrow> length (contents q) < cap q \<Longrightarrow>
          ok (put q x) \<and> cap (put q x) = cap q \<and> contents (put q x) = contents q @ [x]"
    and get_law: "ok q \<Longrightarrow> contents q \<noteq> [] \<Longrightarrow>
          ok (snd (get q)) \<and> cap (snd (get q)) = cap q
          \<and> contents q = fst (get q) # contents (snd (get q))"
begin

primrec gets :: "nat \<Rightarrow> 'q \<Rightarrow> 'a list \<times> 'q" where
  "gets 0 q = ([], q)"
| "gets (Suc n) q = (let (x, q') = get q; (xs, q'') = gets n q' in (x # xs, q''))"

lemma puts_law:
  "ok q \<Longrightarrow> length (contents q) + length xs \<le> cap q \<Longrightarrow>
   ok (foldl put q xs) \<and> cap (foldl put q xs) = cap q \<and> contents (foldl put q xs) = contents q @ xs"
proof (induction xs arbitrary: q)
  case Nil
  then show ?case by simp
next
  case (Cons x xs)
  then show ?case using put_law [of q x] by simp
qed

lemma gets_law:
  "ok q \<Longrightarrow> n \<le> length (contents q) \<Longrightarrow>
   ok (snd (gets n q)) \<and> cap (snd (gets n q)) = cap q
   \<and> fst (gets n q) = take n (contents q) \<and> contents (snd (gets n q)) = drop n (contents q)"
proof (induction n arbitrary: q)
  case 0
  then show ?case by simp
next
  case (Suc n)
  then have "contents q \<noteq> []" by auto
  with Suc.prems get_law [of q] have g: "ok (snd (get q))" "cap (snd (get q)) = cap q"
    "contents q = fst (get q) # contents (snd (get q))" by auto
  moreover have "n \<le> length (contents (snd (get q)))" using Suc.prems(2) g(3)
    by (metis Suc_le_mono length_Cons)
  ultimately show ?case
    using Suc.IH [of "snd (get q)"] by (simp add: split_beta Let_def)
qed

end

section \<open>The ring buffer is a bounded queue\<close>

definition ring_ok :: "'a ring \<Rightarrow> bool" where
  "ring_ok r \<longleftrightarrow> rb_head r < length (rb_data r) \<and> rb_count r \<le> length (rb_data r)
     \<and> rb_tail r = (rb_head r + rb_count r) mod length (rb_data r)
     \<and> None \<notin> set (circ (rb_data r) (rb_head r) (rb_count r))"

definition ring_contents :: "'a ring \<Rightarrow> 'a list" where
  "ring_contents r = map the (circ (rb_data r) (rb_head r) (rb_count r))"

lemma rb_new_ok:
  "0 < n \<Longrightarrow> ring_ok (rb_new n :: 'a ring) \<and> ring_contents (rb_new n :: 'a ring) = []
     \<and> rb_capacity (rb_new n :: 'a ring) = n"
  by (simp add: rb_new_def ring_ok_def ring_contents_def rb_capacity_def circ_def)

lemma rb_push_room:
  assumes "ring_ok r" "\<not> rb_is_full r"
  shows "\<exists>r'. rb_push r x = Ret r' \<and> ring_ok r' \<and> rb_capacity r' = rb_capacity r
    \<and> ring_contents r' = ring_contents r @ [x]"
proof -
  let ?n = "length (rb_data r)"
  have c: "rb_count r < ?n" "rb_tail r = (rb_head r + rb_count r) mod ?n" "0 < ?n"
    using assms by (auto simp: ring_ok_def rb_is_full_def)
  then have "rb_tail r < ?n" by simp
  show ?thesis
    using assms(1) c \<open>rb_tail r < ?n\<close> circ_put [OF c(1), of "rb_head r" "Some x"]
    by (auto simp: rb_push_def ring_ok_def ring_contents_def rb_capacity_def Let_def mod_Suc_eq)
qed

lemma ring_contents_length: "length (ring_contents r) = rb_count r"
  by (simp add: ring_contents_def)

lemma rb_pop_some:
  assumes "ring_ok r" "ring_contents r \<noteq> []"
  shows "\<exists>r'. rb_pop r = Ret (r', Some (hd (ring_contents r))) \<and> ring_ok r' \<and> rb_capacity r' = rb_capacity r
    \<and> ring_contents r' = tl (ring_contents r)"
proof -
  let ?n = "length (rb_data r)" and ?h = "rb_head r"
  from assms(2) obtain m where m: "rb_count r = Suc m"
    using ring_contents_length [of r] by (cases "rb_count r") auto
  have b: "?h < ?n" "m < ?n" using assms(1) m by (auto simp: ring_ok_def)
  then have "Suc ?h mod ?n < ?n" by (intro mod_less_divisor) linarith
  have g: "circ (rb_data r) ?h (rb_count r) = rb_data r ! ?h # circ (rb_data r) ((?h + 1) mod ?n) m"
    using circ_get [of "rb_data r" ?h m] b m by simp
  have some: "rb_data r ! ?h = Some (the (rb_data r ! ?h))"
    using assms(1) g by (auto simp: ring_ok_def)
  show ?thesis
    using assms(1) g m b \<open>Suc ?h mod ?n < ?n\<close> some circ_update_other [OF b, of None]
    by (auto simp: rb_pop_def ring_ok_def ring_contents_def rb_capacity_def mod_add_left_eq)
qed

lemma rb_push_full:
  assumes "ring_ok r" "rb_is_full r"
  shows "\<exists>r'. rb_push r x = Ret r' \<and> ring_ok r' \<and> rb_capacity r' = rb_capacity r
    \<and> ring_contents r' = tl (ring_contents r) @ [x]"
proof -
  let ?n = "length (rb_data r)" and ?h = "rb_head r"
  have n: "?h < ?n" "rb_count r = ?n" "rb_tail r = ?h" "rb_count r = Suc (?n - 1)"
    using assms by (auto simp: ring_ok_def rb_is_full_def)
  have g: "circ (rb_data r) ?h (rb_count r) = rb_data r ! ?h # circ (rb_data r) ((?h + 1) mod ?n) (?n - 1)"
    using circ_get [of "rb_data r" ?h "?n - 1"] n by simp
  have "((?h + 1) mod ?n + (?n - 1)) mod ?n = ?h"
  proof -
    have "((?h + 1) mod ?n + (?n - 1)) mod ?n = (?h + 1 + (?n - 1)) mod ?n"
      by (rule mod_add_left_eq)
    moreover have "?h + 1 + (?n - 1) = ?h + ?n" using n(1) by linarith
    ultimately have "((?h + 1) mod ?n + (?n - 1)) mod ?n = (?h + ?n) mod ?n" by (simp only:)
    then show ?thesis using n(1) by simp
  qed
  then have p: "circ ((rb_data r)[?h := Some x]) ((?h + 1) mod ?n) ?n
      = circ (rb_data r) ((?h + 1) mod ?n) (?n - 1) @ [Some x]"
    using circ_put [of "?n - 1" "rb_data r" "(?h + 1) mod ?n" "Some x"] n by simp
  have "Suc ?h mod ?n < ?n" using n(1) by (intro mod_less_divisor) linarith
  then show ?thesis
    using assms(1) g p n
    by (auto simp: rb_push_def ring_ok_def ring_contents_def rb_capacity_def Let_def)
qed

text \<open>\<open>push\<close> below the capacity and \<open>pop\<close> of a non-empty buffer, which do not panic.\<close>

definition ring_put :: "'a ring \<Rightarrow> 'a \<Rightarrow> 'a ring" where
  "ring_put r x = (case rb_push r x of Ret r' \<Rightarrow> r' | Panic \<Rightarrow> r)"

definition ring_get :: "'a ring \<Rightarrow> 'a \<times> 'a ring" where
  "ring_get r = (case rb_pop r of Ret (r', x) \<Rightarrow> (the x, r') | Panic \<Rightarrow> (undefined, r))"

interpretation ring: fifo ring_ok rb_capacity ring_contents ring_put ring_get
proof
  show "length (ring_contents r) \<le> rb_capacity r" if "ring_ok r" for r :: "'a ring"
    using that by (simp add: ring_ok_def ring_contents_length rb_capacity_def)
next
  fix r :: "'a ring" and x
  assume r: "ring_ok r" "length (ring_contents r) < rb_capacity r"
  then have "\<not> rb_is_full r" by (simp add: ring_contents_length rb_is_full_def rb_capacity_def)
  with rb_push_room [OF r(1), of x] show "ring_ok (ring_put r x) \<and> rb_capacity (ring_put r x) = rb_capacity r
      \<and> ring_contents (ring_put r x) = ring_contents r @ [x]"
    by (auto simp: ring_put_def)
next
  fix r :: "'a ring"
  assume r: "ring_ok r" "ring_contents r \<noteq> []"
  with rb_pop_some [OF r] show "ring_ok (snd (ring_get r)) \<and> rb_capacity (snd (ring_get r)) = rb_capacity r
      \<and> ring_contents r = fst (ring_get r) # ring_contents (snd (ring_get r))"
    by (auto simp: ring_get_def)
qed

section \<open>Properties\<close>

lemma rb_clear_spec:
  "ring_ok r \<Longrightarrow> \<exists>r'. rb_clear r = Ret r' \<and> ring_ok r' \<and> rb_capacity r' = rb_capacity r \<and> ring_contents r' = []"
proof (induction r rule: rb_clear.induct)
  case (1 r)
  show ?case
  proof (cases "ring_contents r = []")
    case True
    then have "rb_pop r = Ret (r, None)" using ring_contents_length [of r] by (simp add: rb_pop_def)
    with 1(2) True show ?thesis by (subst rb_clear.simps) simp
  next
    case False
    then obtain r' where "rb_pop r = Ret (r', Some (hd (ring_contents r)))" "ring_ok r'" "rb_capacity r' = rb_capacity r"
      using rb_pop_some 1(2) by blast
    with 1(1) [of "(r', Some (hd (ring_contents r)))" r' "Some (hd (ring_contents r))" "hd (ring_contents r)"] show ?thesis
      by (subst rb_clear.simps) simp
  qed
qed

text \<open>A history of calls of the methods, and the answers of each.\<close>

datatype 'a rb_op = RbPush 'a | RbPop | RbPeek | RbClear | RbLen | RbIsEmpty | RbIsFull

datatype 'a rb_out = RbUnit | RbItem "'a option" | RbSize nat | RbBool bool

fun rb_step :: "'a rb_op \<Rightarrow> 'a ring \<Rightarrow> ('a ring \<times> 'a rb_out) outcome" where
  "rb_step (RbPush x) r = bindO (rb_push r x) (\<lambda>r'. Ret (r', RbUnit))"
| "rb_step RbPop r = bindO (rb_pop r) (\<lambda>(r', x). Ret (r', RbItem x))"
| "rb_step RbPeek r = bindO (rb_peek r) (\<lambda>x. Ret (r, RbItem x))"
| "rb_step RbClear r = bindO (rb_clear r) (\<lambda>r'. Ret (r', RbUnit))"
| "rb_step RbLen r = Ret (r, RbSize (rb_len r))"
| "rb_step RbIsEmpty r = Ret (r, RbBool (rb_is_empty r))"
| "rb_step RbIsFull r = Ret (r, RbBool (rb_is_full r))"

fun rb_run :: "'a rb_op list \<Rightarrow> 'a ring \<Rightarrow> ('a ring \<times> 'a rb_out list) outcome" where
  "rb_run [] r = Ret (r, [])"
| "rb_run (op # ops) r =
     bindO (rb_step op r) (\<lambda>(r', out). bindO (rb_run ops r') (\<lambda>(r'', outs). Ret (r'', out # outs)))"

text \<open>The specification: a list of at most \<open>n\<close> items, the oldest first. A push to a full one drops
  the oldest.\<close>

fun queue_step :: "nat \<Rightarrow> 'a rb_op \<Rightarrow> 'a list \<Rightarrow> 'a list \<times> 'a rb_out" where
  "queue_step n (RbPush x) q = (if length q < n then q @ [x] else tl q @ [x], RbUnit)"
| "queue_step n RbPop q = (case q of [] \<Rightarrow> ([], RbItem None) | x # q' \<Rightarrow> (q', RbItem (Some x)))"
| "queue_step n RbPeek q = (q, RbItem (case q of [] \<Rightarrow> None | x # _ \<Rightarrow> Some x))"
| "queue_step n RbClear q = ([], RbUnit)"
| "queue_step n RbLen q = (q, RbSize (length q))"
| "queue_step n RbIsEmpty q = (q, RbBool (q = []))"
| "queue_step n RbIsFull q = (q, RbBool (length q = n))"

fun queue_run :: "nat \<Rightarrow> 'a rb_op list \<Rightarrow> 'a list \<Rightarrow> 'a list \<times> 'a rb_out list" where
  "queue_run n [] q = (q, [])"
| "queue_run n (op # ops) q =
     (let (q', out) = queue_step n op q; (q'', outs) = queue_run n ops q' in (q'', out # outs))"

lemma rb_step_refines:
  assumes "ring_ok r"
  shows "\<exists>r'. rb_step op r = Ret (r', snd (queue_step (rb_capacity r) op (ring_contents r))) \<and> ring_ok r'
    \<and> rb_capacity r' = rb_capacity r \<and> ring_contents r' = fst (queue_step (rb_capacity r) op (ring_contents r))"
proof -
  note len = ring_contents_length [of r]
  have le: "rb_count r \<le> rb_capacity r" using assms by (simp add: ring_ok_def rb_capacity_def)
  have peek: "rb_peek r = Ret (case ring_contents r of [] \<Rightarrow> None | x # _ \<Rightarrow> Some x)"
  proof (cases "ring_contents r")
    case Nil
    with len show ?thesis by (simp add: rb_peek_def)
  next
    case (Cons x q)
    with rb_pop_some [OF assms] obtain r' where "rb_pop r = Ret (r', Some x)" by auto
    with Cons len show ?thesis by (auto simp: rb_pop_def rb_peek_def split: if_splits)
  qed
  show ?thesis
  proof (cases op)
    case (RbPush x)
    show ?thesis
    proof (cases "rb_is_full r")
      case True
      with rb_push_full [OF assms True, of x] RbPush len show ?thesis by (auto simp: rb_is_full_def rb_capacity_def)
    next
      case False
      then have "rb_count r < rb_capacity r" using le by (simp add: rb_is_full_def rb_capacity_def)
      with rb_push_room [OF assms False, of x] RbPush len show ?thesis by auto
    qed
  next
    case RbPop
    show ?thesis
    proof (cases "ring_contents r")
      case Nil
      with len have "rb_pop r = Ret (r, None)" by (simp add: rb_pop_def)
      with Nil RbPop assms show ?thesis by simp
    next
      case (Cons x q)
      with rb_pop_some [OF assms] RbPop show ?thesis by auto
    qed
  next
    case RbPeek
    with peek assms show ?thesis by simp
  next
    case RbClear
    with rb_clear_spec [OF assms] show ?thesis by auto
  qed (use assms len in \<open>auto simp: rb_len_def rb_is_empty_def rb_is_full_def rb_capacity_def\<close>)
qed

lemma rb_run_refines:
  assumes "ring_ok r"
  shows "\<exists>r'. rb_run ops r = Ret (r', snd (queue_run (rb_capacity r) ops (ring_contents r))) \<and> ring_ok r'
    \<and> rb_capacity r' = rb_capacity r \<and> ring_contents r' = fst (queue_run (rb_capacity r) ops (ring_contents r))"
  using assms
proof (induction ops arbitrary: r)
  case Nil
  then show ?case by simp
next
  case (Cons op ops)
  from rb_step_refines [OF Cons.prems, of op] obtain r1 where
    r1: "rb_step op r = Ret (r1, snd (queue_step (rb_capacity r) op (ring_contents r)))" "ring_ok r1"
      "rb_capacity r1 = rb_capacity r" "ring_contents r1 = fst (queue_step (rb_capacity r) op (ring_contents r))"
    by blast
  with Cons.IH [OF r1(2)] show ?case by (auto simp: split_beta Let_def)
qed

text \<open>C15: the ring buffer refines a bounded queue that forgets its oldest item. Through any history of
  \<open>push\<close>, \<open>pop\<close>, \<open>peek\<close>, \<open>clear\<close>, \<open>len\<close>, \<open>is_empty\<close> and \<open>is_full\<close>, in any order, on a new buffer of
  capacity \<open>n > 0\<close>, nothing panics and every answer is the one of the queue of at most \<open>n\<close> items; the
  buffer ends up holding the items of the queue.\<close>

theorem ring_buffer_refines_queue:
  assumes "0 < n"
  shows "\<exists>r. rb_run ops (rb_new n) = Ret (r, snd (queue_run n ops [])) \<and> ring_contents r = fst (queue_run n ops [])
    \<and> length (ring_contents r) \<le> n \<and> rb_capacity r = n"
proof -
  note new = rb_new_ok [OF assms, where 'a = 'a]
  from rb_run_refines [of "rb_new n" ops] new obtain r where
    r: "rb_run ops (rb_new n) = Ret (r, snd (queue_run n ops []))" "ring_ok r" "rb_capacity r = n"
      "ring_contents r = fst (queue_run n ops [])" by auto
  with ring.bounded [OF r(2)] show ?thesis by auto
qed

theorem ring_buffer_refines_queue_witness:
  "\<exists>r. rb_run [RbPush 1, RbPush 2, RbPop, RbPop, RbPop, RbPush 3, RbPush 4, RbPush 5, RbIsFull, RbPeek, RbPop, RbLen]
      (rb_new 2 :: nat ring)
    = Ret (r, [RbUnit, RbUnit, RbItem (Some 1), RbItem (Some 2), RbItem None, RbUnit, RbUnit, RbUnit, RbBool True,
        RbItem (Some 4), RbItem (Some 4), RbSize 1]) \<and> ring_contents r = [5]"
  using ring_buffer_refines_queue [of 2 "[RbPush 1, RbPush 2, RbPop, RbPop, RbPop, RbPush 3, RbPush 4, RbPush 5, RbIsFull,
      RbPeek, RbPop, RbLen] :: nat rb_op list"] by auto

end
