(* ===== verification/Pipe.thy ===== *)
theory Pipe
  imports Ring_Buffer Kernel_Errors
begin

text \<open>
  Pipes, \<open>kernel/src/pipe.rs\<close>: a pool of sixteen 4096-byte circular buffers with counted read
  and write ends. A pipe refines the byte queue of its buffer, through the locale \<open>fifo\<close>;
  the properties state the order of the bytes and the errors at the ends of a pipe's life.
\<close>

section \<open>One pipe\<close>

definition PIPE_BUFFER_SIZE :: nat where
  "PIPE_BUFFER_SIZE = 4096"

definition MAX_PIPES :: nat where
  "MAX_PIPES = 16"

record pipe =
  p_buffer :: bytes
  read_pos :: nat
  write_pos :: nat
  p_count :: nat
  read_refcount :: nat
  write_refcount :: nat

definition pipe_new :: pipe where
  "pipe_new = \<lparr>p_buffer = replicate PIPE_BUFFER_SIZE 0, read_pos = 0, write_pos = 0, p_count = 0,
               read_refcount = 0, write_refcount = 0\<rparr>"

definition pipe_is_allocated :: "pipe \<Rightarrow> bool" where
  "pipe_is_allocated p \<longleftrightarrow> read_refcount p > 0 \<or> write_refcount p > 0"

definition pipe_is_empty :: "pipe \<Rightarrow> bool" where
  "pipe_is_empty p \<longleftrightarrow> p_count p = 0"

definition pipe_is_full :: "pipe \<Rightarrow> bool" where
  "pipe_is_full p \<longleftrightarrow> p_count p = PIPE_BUFFER_SIZE"

definition pipe_open_read :: "pipe \<Rightarrow> pipe" where
  "pipe_open_read p = p\<lparr>read_refcount := min usize_max (read_refcount p + 1)\<rparr>"

definition pipe_open_write :: "pipe \<Rightarrow> pipe" where
  "pipe_open_write p = p\<lparr>write_refcount := min usize_max (write_refcount p + 1)\<rparr>"

definition pipe_close_read_ref :: "pipe \<Rightarrow> pipe" where
  "pipe_close_read_ref p = p\<lparr>read_refcount := read_refcount p - 1\<rparr>"

definition pipe_close_write_ref :: "pipe \<Rightarrow> pipe" where
  "pipe_close_write_ref p = p\<lparr>write_refcount := write_refcount p - 1\<rparr>"

text \<open>\<open>for i in 0..to_write\<close>: store the bytes one by one. A store out of the buffer panics.\<close>

fun pipe_write_loop :: "pipe \<Rightarrow> bytes \<Rightarrow> pipe outcome" where
  "pipe_write_loop p [] = Ret p"
| "pipe_write_loop p (b # bs) =
     bindO (arr_set (p_buffer p) (write_pos p) b) (\<lambda>buf.
       pipe_write_loop (p\<lparr>p_buffer := buf, write_pos := (write_pos p + 1) mod PIPE_BUFFER_SIZE\<rparr>) bs)"

definition pipe_write_data :: "pipe \<Rightarrow> bytes \<Rightarrow> (pipe \<times> (nat, error_code) result) outcome" where
  "pipe_write_data p data =
     (if read_refcount p = 0 then Ret (p, Err EPIPE)
      else if pipe_is_full p then Ret (p, Err EAGAIN)
      else
        bindO (usub PIPE_BUFFER_SIZE (p_count p)) (\<lambda>available_space.
          let to_write = min (length data) available_space in
          bindO (pipe_write_loop p (take to_write data)) (\<lambda>p'.
            Ret (p'\<lparr>p_count := p_count p' + to_write\<rparr>, Ok to_write))))"

text \<open>\<open>for i in 0..to_read\<close>: the bytes read, in order.\<close>

fun pipe_read_loop :: "pipe \<Rightarrow> nat \<Rightarrow> (pipe \<times> bytes) outcome" where
  "pipe_read_loop p 0 = Ret (p, [])"
| "pipe_read_loop p (Suc n) =
     bindO (arr_get (p_buffer p) (read_pos p)) (\<lambda>b.
       bindO (pipe_read_loop (p\<lparr>read_pos := (read_pos p + 1) mod PIPE_BUFFER_SIZE\<rparr>) n) (\<lambda>(p', bs).
         Ret (p', b # bs)))"

text \<open>\<open>read\<close> returns the pipe, the caller's buffer and the result.\<close>

definition pipe_read_data :: "pipe \<Rightarrow> bytes \<Rightarrow> (pipe \<times> bytes \<times> (nat, error_code) result) outcome" where
  "pipe_read_data p buf =
     (if write_refcount p = 0 \<and> pipe_is_empty p then Ret (p, buf, Ok 0)
      else if pipe_is_empty p then Ret (p, buf, Err EAGAIN)
      else
        let to_read = min (length buf) (p_count p) in
        bindO (pipe_read_loop p to_read) (\<lambda>(p', bs).
          Ret (p'\<lparr>p_count := p_count p' - to_read\<rparr>, bs @ drop to_read buf, Ok to_read)))"

section \<open>The pool\<close>

type_synonym pipe_pool = "pipe list"

definition pool_new :: pipe_pool where
  "pool_new = replicate MAX_PIPES pipe_new"

fun pool_allocate_loop :: "pipe_pool \<Rightarrow> nat list \<Rightarrow> pipe_pool \<times> (nat, error_code) result" where
  "pool_allocate_loop pool [] = (pool, Err EMFILE)"
| "pool_allocate_loop pool (i # is) =
     (if \<not> pipe_is_allocated (pool ! i)
      then (pool[i := pipe_open_write (pipe_open_read (pool ! i))], Ok i)
      else pool_allocate_loop pool is)"

definition pool_allocate :: "pipe_pool \<Rightarrow> pipe_pool \<times> (nat, error_code) result" where
  "pool_allocate pool = pool_allocate_loop pool [0..<length pool]"

definition pool_get :: "pipe_pool \<Rightarrow> nat \<Rightarrow> pipe option" where
  "pool_get pool i = (if i < length pool \<and> pipe_is_allocated (pool ! i) then Some (pool ! i) else None)"

definition pool_update :: "pipe_pool \<Rightarrow> nat \<Rightarrow> (pipe \<Rightarrow> pipe) \<Rightarrow> pipe_pool \<times> (unit, error_code) result" where
  "pool_update pool i f =
     (case pool_get pool i of None \<Rightarrow> (pool, Err EBADF) | Some p \<Rightarrow> (pool[i := f p], Ok ()))"

definition pipe_create :: "pipe_pool \<Rightarrow> pipe_pool \<times> (nat \<times> nat, error_code) result" where
  "pipe_create pool =
     (case pool_allocate pool of
        (pool', Ok i) \<Rightarrow> (pool', Ok (i, i)) | (pool', Err e) \<Rightarrow> (pool', Err e))"

definition pipe_open_read_end :: "pipe_pool \<Rightarrow> nat \<Rightarrow> pipe_pool \<times> (unit, error_code) result" where
  "pipe_open_read_end pool i = pool_update pool i pipe_open_read"

definition pipe_open_write_end :: "pipe_pool \<Rightarrow> nat \<Rightarrow> pipe_pool \<times> (unit, error_code) result" where
  "pipe_open_write_end pool i = pool_update pool i pipe_open_write"

definition pipe_close_read :: "pipe_pool \<Rightarrow> nat \<Rightarrow> pipe_pool \<times> (unit, error_code) result" where
  "pipe_close_read pool i = pool_update pool i pipe_close_read_ref"

definition pipe_close_write :: "pipe_pool \<Rightarrow> nat \<Rightarrow> pipe_pool \<times> (unit, error_code) result" where
  "pipe_close_write pool i = pool_update pool i pipe_close_write_ref"

definition pipe_write :: "pipe_pool \<Rightarrow> nat \<Rightarrow> bytes \<Rightarrow> (pipe_pool \<times> (nat, error_code) result) outcome" where
  "pipe_write pool i data =
     (case pool_get pool i of
        None \<Rightarrow> Ret (pool, Err EBADF)
      | Some p \<Rightarrow> bindO (pipe_write_data p data) (\<lambda>(p', r). Ret (pool[i := p'], r)))"

definition pipe_read :: "pipe_pool \<Rightarrow> nat \<Rightarrow> bytes \<Rightarrow> (pipe_pool \<times> bytes \<times> (nat, error_code) result) outcome" where
  "pipe_read pool i buf =
     (case pool_get pool i of
        None \<Rightarrow> Ret (pool, buf, Err EBADF)
      | Some p \<Rightarrow> bindO (pipe_read_data p buf) (\<lambda>(p', buf', r). Ret (pool[i := p'], buf', r)))"

section \<open>A pipe as a queue of bytes\<close>

definition pipe_ok :: "pipe \<Rightarrow> bool" where
  "pipe_ok p \<longleftrightarrow> length (p_buffer p) = PIPE_BUFFER_SIZE \<and> read_pos p < PIPE_BUFFER_SIZE
     \<and> p_count p \<le> PIPE_BUFFER_SIZE
     \<and> write_pos p = (read_pos p + p_count p) mod PIPE_BUFFER_SIZE"

definition pipe_bytes :: "pipe \<Rightarrow> bytes" where
  "pipe_bytes p = circ (p_buffer p) (read_pos p) (p_count p)"

text \<open>One step of the loops together with the change of \<open>count\<close> that the source makes once,
  after the loop.\<close>

definition pipe_put :: "pipe \<Rightarrow> u8 \<Rightarrow> pipe" where
  "pipe_put p b = p\<lparr>p_buffer := (p_buffer p)[write_pos p := b],
                    write_pos := (write_pos p + 1) mod PIPE_BUFFER_SIZE, p_count := p_count p + 1\<rparr>"

definition pipe_get :: "pipe \<Rightarrow> u8 \<times> pipe" where
  "pipe_get p = (p_buffer p ! read_pos p,
                 p\<lparr>read_pos := (read_pos p + 1) mod PIPE_BUFFER_SIZE, p_count := p_count p - 1\<rparr>)"

lemma pipe_size_pos [simp]: "0 < PIPE_BUFFER_SIZE" "x mod PIPE_BUFFER_SIZE < PIPE_BUFFER_SIZE"
  by (simp_all add: PIPE_BUFFER_SIZE_def)

lemma length_pipe_bytes [simp]: "length (pipe_bytes p) = p_count p"
  by (simp add: pipe_bytes_def)

interpretation pipeq: fifo pipe_ok "\<lambda>p. PIPE_BUFFER_SIZE" pipe_bytes pipe_put pipe_get
proof
  show "length (pipe_bytes p) \<le> PIPE_BUFFER_SIZE" if "pipe_ok p" for p
    using that by (simp add: pipe_ok_def)
next
  fix p b assume "pipe_ok p" "length (pipe_bytes p) < PIPE_BUFFER_SIZE"
  then show "pipe_ok (pipe_put p b) \<and> PIPE_BUFFER_SIZE = PIPE_BUFFER_SIZE
      \<and> pipe_bytes (pipe_put p b) = pipe_bytes p @ [b]"
    using circ_put [of "p_count p" "p_buffer p" "read_pos p" b]
    by (simp add: pipe_ok_def pipe_bytes_def pipe_put_def mod_Suc_eq)
next
  fix p assume p: "pipe_ok p" "pipe_bytes p \<noteq> []"
  then obtain n where n: "p_count p = Suc n" by (cases "p_count p") (auto simp: pipe_bytes_def circ_def)
  with p show "pipe_ok (snd (pipe_get p)) \<and> PIPE_BUFFER_SIZE = PIPE_BUFFER_SIZE
      \<and> pipe_bytes p = fst (pipe_get p) # pipe_bytes (snd (pipe_get p))"
    using circ_get [of "p_buffer p" "read_pos p" n]
    by (simp add: pipe_ok_def pipe_bytes_def pipe_get_def mod_add_left_eq)
qed

lemma puts_count: "p_count (foldl pipe_put p bs) = p_count p + length bs"
  by (induction bs arbitrary: p) (simp_all add: pipe_put_def)

lemma puts_refs:
  "read_refcount (foldl pipe_put p bs) = read_refcount p \<and> write_refcount (foldl pipe_put p bs) = write_refcount p"
  by (induction bs arbitrary: p) (simp_all add: pipe_put_def)

lemma puts_recount: "(foldl pipe_put (p\<lparr>p_count := n\<rparr>) bs)\<lparr>p_count := c\<rparr> = (foldl pipe_put p bs)\<lparr>p_count := c\<rparr>"
proof (induction bs arbitrary: p n)
  case Nil
  then show ?case by simp
next
  case (Cons b bs)
  have "pipe_put (p\<lparr>p_count := n\<rparr>) b = (pipe_put p b)\<lparr>p_count := n + 1\<rparr>"
    by (simp add: pipe_put_def)
  with Cons show ?case by simp
qed

lemma pipe_write_loop_puts:
  "length (p_buffer p) = PIPE_BUFFER_SIZE \<Longrightarrow> write_pos p < PIPE_BUFFER_SIZE \<Longrightarrow>
   pipe_write_loop p bs = Ret ((foldl pipe_put p bs)\<lparr>p_count := p_count p\<rparr>)"
proof (induction bs arbitrary: p)
  case Nil
  then show ?case by simp
next
  case (Cons b bs)
  let ?p = "p\<lparr>p_buffer := (p_buffer p)[write_pos p := b],
              write_pos := (write_pos p + 1) mod PIPE_BUFFER_SIZE\<rparr>"
  have "pipe_put p b = ?p\<lparr>p_count := p_count p + 1\<rparr>" by (simp add: pipe_put_def)
  moreover have "pipe_write_loop ?p bs = Ret ((foldl pipe_put ?p bs)\<lparr>p_count := p_count p\<rparr>)"
    using Cons.IH [of ?p] Cons.prems by simp
  ultimately show ?case
    using Cons.prems puts_recount [where p = ?p and n = "p_count p + 1" and bs = bs and c = "p_count p"] by simp
qed

lemma gets_count: "p_count (snd (pipeq.gets n p)) = p_count p - n"
  by (induction n arbitrary: p) (simp_all add: pipe_get_def split_beta Let_def)

lemma gets_refs:
  "read_refcount (snd (pipeq.gets n p)) = read_refcount p \<and> write_refcount (snd (pipeq.gets n p)) = write_refcount p"
  by (induction n arbitrary: p) (simp_all add: pipe_get_def split_beta Let_def)

lemma gets_recount:
  "fst (pipeq.gets n (p\<lparr>p_count := m\<rparr>)) = fst (pipeq.gets n p)
   \<and> (snd (pipeq.gets n (p\<lparr>p_count := m\<rparr>)))\<lparr>p_count := c\<rparr> = (snd (pipeq.gets n p))\<lparr>p_count := c\<rparr>"
proof (induction n arbitrary: p m)
  case 0
  then show ?case by simp
next
  case (Suc n)
  have "pipe_get (p\<lparr>p_count := m\<rparr>) = (fst (pipe_get p), (snd (pipe_get p))\<lparr>p_count := m - 1\<rparr>)"
    by (simp add: pipe_get_def)
  with Suc show ?case by (simp add: split_beta Let_def)
qed

lemma pipe_read_loop_gets:
  "length (p_buffer p) = PIPE_BUFFER_SIZE \<Longrightarrow> read_pos p < PIPE_BUFFER_SIZE \<Longrightarrow>
   pipe_read_loop p n = Ret ((snd (pipeq.gets n p))\<lparr>p_count := p_count p\<rparr>, fst (pipeq.gets n p))"
proof (induction n arbitrary: p)
  case 0
  then show ?case by simp
next
  case (Suc n)
  let ?p = "p\<lparr>read_pos := (read_pos p + 1) mod PIPE_BUFFER_SIZE\<rparr>"
  have "pipe_get p = (p_buffer p ! read_pos p, ?p\<lparr>p_count := p_count p - 1\<rparr>)" by (simp add: pipe_get_def)
  moreover have "pipe_read_loop ?p n
      = Ret ((snd (pipeq.gets n ?p))\<lparr>p_count := p_count p\<rparr>, fst (pipeq.gets n ?p))"
    using Suc.IH [of ?p] Suc.prems by simp
  ultimately show ?case
    using Suc.prems gets_recount [where n = n and p = ?p and m = "p_count p - 1" and c = "p_count p"]
    by (simp add: split_beta Let_def)
qed

lemma pipe_write_data_spec:
  fixes data :: bytes
  assumes ok: "pipe_ok p" and r: "read_refcount p \<noteq> 0" and nf: "\<not> pipe_is_full p"
  defines "n \<equiv> min (length data) (PIPE_BUFFER_SIZE - p_count p)"
  shows "\<exists>p'. pipe_write_data p data = Ret (p', Ok n) \<and> pipe_ok p' \<and> pipe_bytes p' = pipe_bytes p @ take n data
    \<and> read_refcount p' = read_refcount p \<and> write_refcount p' = write_refcount p"
proof (intro exI conjI)
  let ?p = "foldl pipe_put p (take n data)"
  have "p_count p \<le> PIPE_BUFFER_SIZE" "length (p_buffer p) = PIPE_BUFFER_SIZE" "write_pos p < PIPE_BUFFER_SIZE"
    using ok by (auto simp: pipe_ok_def)
  moreover have "?p\<lparr>p_count := p_count p + n\<rparr> = ?p"
    using puts_count [of p "take n data"] by (simp add: n_def)
  ultimately show "pipe_write_data p data = Ret (?p, Ok n)"
    using r nf pipe_write_loop_puts [of p "take n data"]
    by (simp add: pipe_write_data_def n_def Let_def)
  have "length (pipe_bytes p) + length (take n data) \<le> PIPE_BUFFER_SIZE"
    using ok by (auto simp: n_def pipe_ok_def)
  from pipeq.puts_law [OF ok this]
  show "pipe_ok ?p" "pipe_bytes ?p = pipe_bytes p @ take n data" by auto
qed (simp_all add: puts_refs)

lemma pipe_read_data_spec:
  fixes buf :: bytes
  assumes ok: "pipe_ok p" and ne: "\<not> pipe_is_empty p"
  defines "n \<equiv> min (length buf) (p_count p)"
  shows "\<exists>p'. pipe_read_data p buf = Ret (p', take n (pipe_bytes p) @ drop n buf, Ok n)
    \<and> pipe_ok p' \<and> pipe_bytes p' = drop n (pipe_bytes p)
    \<and> read_refcount p' = read_refcount p \<and> write_refcount p' = write_refcount p"
proof (intro exI conjI)
  let ?p = "snd (pipeq.gets n p)"
  have "length (p_buffer p) = PIPE_BUFFER_SIZE" "read_pos p < PIPE_BUFFER_SIZE"
    using ok by (auto simp: pipe_ok_def)
  moreover have "?p\<lparr>p_count := p_count p - n\<rparr> = ?p" using gets_count [of n p] by simp
  moreover have g: "pipe_ok ?p \<and> fst (pipeq.gets n p) = take n (pipe_bytes p) \<and> pipe_bytes ?p = drop n (pipe_bytes p)"
    using pipeq.gets_law [OF ok, of n] by (simp add: n_def)
  ultimately show "pipe_read_data p buf = Ret (?p, take n (pipe_bytes p) @ drop n buf, Ok n)"
    using ne pipe_read_loop_gets [of p n] by (simp add: pipe_read_data_def n_def Let_def)
  show "pipe_ok ?p" "pipe_bytes ?p = drop n (pipe_bytes p)" using g by auto
qed (simp_all add: gets_refs)

section \<open>Properties\<close>

definition pool_ok :: "pipe_pool \<Rightarrow> bool" where
  "pool_ok pool \<longleftrightarrow> length pool = MAX_PIPES \<and> (\<forall>p \<in> set pool. pipe_ok p)"

text \<open>A use of pipe \<open>i\<close>: a sequence of writes and of reads into buffers of given sizes. The
  result has the pool, the bytes that the writes accepted and the bytes that the reads
  delivered.\<close>

datatype pipe_use = PWrite bytes | PRead nat

definition accepted :: "('a list) \<Rightarrow> (nat, error_code) result \<Rightarrow> 'a list" where
  "accepted data r = (case r of Ok n \<Rightarrow> take n data | Err e \<Rightarrow> [])"

fun pipe_session :: "pipe_pool \<Rightarrow> nat \<Rightarrow> pipe_use list \<Rightarrow> (pipe_pool \<times> bytes \<times> bytes) outcome" where
  "pipe_session pool i [] = Ret (pool, [], [])"
| "pipe_session pool i (PWrite data # us) =
     bindO (pipe_write pool i data) (\<lambda>(pool1, r).
     bindO (pipe_session pool1 i us) (\<lambda>(pool2, ws, rs). Ret (pool2, accepted data r @ ws, rs)))"
| "pipe_session pool i (PRead n # us) =
     bindO (pipe_read pool i (replicate n 0)) (\<lambda>(pool1, buf, r).
     bindO (pipe_session pool1 i us) (\<lambda>(pool2, ws, rs). Ret (pool2, ws, accepted buf r @ rs)))"

lemma pipe_write_stream:
  assumes "pool_ok pool" "pool_get pool i = Some p"
  shows "\<exists>p' r. pipe_write pool i data = Ret (pool[i := p'], r) \<and> pipe_ok p' \<and> pipe_is_allocated p'
     \<and> pipe_bytes p' = pipe_bytes p @ accepted data r"
proof -
  have ok: "pipe_ok p" "pipe_is_allocated p"
    using assms by (auto simp: pool_ok_def pool_get_def split: if_splits)
  have "\<exists>p' r. pipe_write_data p data = Ret (p', r) \<and> pipe_ok p' \<and> pipe_is_allocated p'
     \<and> pipe_bytes p' = pipe_bytes p @ accepted data r"
  proof (cases "read_refcount p = 0 \<or> pipe_is_full p")
    case True
    with ok show ?thesis by (auto simp: pipe_write_data_def accepted_def)
  next
    case False
    with pipe_write_data_spec [OF ok(1), of data] ok(2) show ?thesis
      by (fastforce simp: accepted_def pipe_is_allocated_def)
  qed
  with assms(2) show ?thesis by (auto simp: pipe_write_def)
qed

lemma pipe_read_stream:
  assumes "pool_ok pool" "pool_get pool i = Some p"
  shows "\<exists>p' buf r. pipe_read pool i (replicate n 0) = Ret (pool[i := p'], buf, r) \<and> pipe_ok p'
     \<and> pipe_is_allocated p' \<and> pipe_bytes p = accepted buf r @ pipe_bytes p'"
proof -
  have ok: "pipe_ok p" "pipe_is_allocated p"
    using assms by (auto simp: pool_ok_def pool_get_def split: if_splits)
  have "\<exists>p' buf r. pipe_read_data p (replicate n 0) = Ret (p', buf, r) \<and> pipe_ok p'
     \<and> pipe_is_allocated p' \<and> pipe_bytes p = accepted buf r @ pipe_bytes p'"
  proof (cases "pipe_is_empty p")
    case True
    with ok show ?thesis by (auto simp: pipe_read_data_def accepted_def)
  next
    case False
    with pipe_read_data_spec [OF ok(1) False, of "replicate n 0"] ok(2) show ?thesis
      by (fastforce simp: accepted_def pipe_is_allocated_def)
  qed
  with assms(2) show ?thesis by (auto simp: pipe_read_def)
qed

lemma pool_ok_update: "pool_ok pool \<Longrightarrow> pipe_ok p \<Longrightarrow> pool_ok (pool[i := p])"
  using set_update_subset_insert [of pool i p] by (auto simp: pool_ok_def)

lemma pool_get_update:
  "pool_get pool i = Some p \<Longrightarrow> pipe_is_allocated p' \<Longrightarrow> pool_get (pool[i := p']) i = Some p'"
  by (auto simp: pool_get_def split: if_splits)

text \<open>C3: the bytes of a pipe stay in order and none is lost, duplicated or made up: for every
  sequence of writes to and reads from an allocated pipe, which never panics, what the pipe held
  before followed by what the writes accepted is what the reads delivered followed by what the
  pipe holds at the end. No other pipe of the pool changes.\<close>

theorem pipe_stream:
  assumes "pool_ok pool" "pool_get pool i = Some p"
  shows "\<exists>p' ws rs. pipe_session pool i us = Ret (pool[i := p'], ws, rs) \<and> pool_ok (pool[i := p'])
     \<and> pool_get (pool[i := p']) i = Some p' \<and> pipe_bytes p @ ws = rs @ pipe_bytes p'"
  using assms
proof (induction us arbitrary: pool p)
  case Nil
  then have "pool[i := p] = pool" by (auto simp: pool_get_def split: if_splits)
  with Nil show ?case by (intro exI [of _ p]) simp
next
  case (Cons u us)
  show ?case
  proof (cases u)
    case (PWrite data)
    obtain p1 r where 1: "pipe_write pool i data = Ret (pool[i := p1], r)" "pipe_ok p1" "pipe_is_allocated p1"
        "pipe_bytes p1 = pipe_bytes p @ accepted data r"
      using pipe_write_stream [OF Cons.prems] by blast
    obtain p' ws rs where "pipe_session (pool[i := p1]) i us = Ret (pool[i := p1, i := p'], ws, rs)"
        "pool_ok (pool[i := p1, i := p'])" "pool_get (pool[i := p1, i := p']) i = Some p'"
        "pipe_bytes p1 @ ws = rs @ pipe_bytes p'"
      using Cons.IH [OF pool_ok_update pool_get_update] Cons.prems 1 by blast
    with 1 PWrite show ?thesis by (intro exI [of _ p']) simp
  next
    case (PRead n)
    obtain p1 buf r where 1: "pipe_read pool i (replicate n 0) = Ret (pool[i := p1], buf, r)" "pipe_ok p1"
        "pipe_is_allocated p1" "pipe_bytes p = accepted buf r @ pipe_bytes p1"
      using pipe_read_stream [OF Cons.prems] by blast
    obtain p' ws rs where "pipe_session (pool[i := p1]) i us = Ret (pool[i := p1, i := p'], ws, rs)"
        "pool_ok (pool[i := p1, i := p'])" "pool_get (pool[i := p1, i := p']) i = Some p'"
        "pipe_bytes p1 @ ws = rs @ pipe_bytes p'"
      using Cons.IH [OF pool_ok_update pool_get_update] Cons.prems 1 by blast
    with 1 PRead show ?thesis by (intro exI [of _ p']) simp
  qed
qed

lemma pool_new_ok: "pool_ok pool_new"
  by (simp add: pool_ok_def pool_new_def pipe_ok_def pipe_new_def)

lemma pool_example: "pool_get (pool_new[0 := pipe_open_write (pipe_open_read pipe_new)]) 0
    = Some (pipe_open_write (pipe_open_read pipe_new))"
  by (simp add: pool_get_def pool_new_def MAX_PIPES_def pipe_is_allocated_def pipe_open_read_def
      pipe_open_write_def pipe_new_def)

lemma open_ok: "pipe_ok p \<Longrightarrow> pipe_ok (pipe_open_write (pipe_open_read p))"
  by (simp add: pipe_ok_def pipe_open_read_def pipe_open_write_def)

theorem pipe_stream_witness:
  "\<exists>p' ws rs. pipe_session (pool_new[0 := pipe_open_write (pipe_open_read pipe_new)]) 0
       [PWrite [1, 2, 3], PRead 2] = Ret (pool_new[0 := p'], ws, rs) \<and> ws = rs @ pipe_bytes p'"
proof -
  have "pipe_ok pipe_new" using pool_new_ok by (simp add: pool_ok_def pool_new_def MAX_PIPES_def)
  then have "pool_ok (pool_new[0 := pipe_open_write (pipe_open_read pipe_new)])"
    by (intro pool_ok_update pool_new_ok open_ok)
  from pipe_stream [OF this pool_example, of "[PWrite [1, 2, 3], PRead 2]"] show ?thesis
    by (auto simp: pipe_bytes_def circ_def pipe_open_read_def pipe_open_write_def pipe_new_def)
qed

text \<open>C16: the errors of pipe input and output. Writing fails with \<open>EBADF\<close> exactly when the
  pipe is not allocated, with \<open>EPIPE\<close> when it has no reader and with \<open>EAGAIN\<close> when its buffer
  is full; otherwise it accepts as many bytes as fit. Reading an empty pipe gives end of file when
  it has no writer and \<open>EAGAIN\<close> when it has one; otherwise it returns the oldest bytes. A failed
  call leaves the pool unchanged.\<close>

theorem pipe_io_results:
  assumes "pool_ok pool"
  shows "(case pool_get pool i of
        None \<Rightarrow> pipe_write pool i data = Ret (pool, Err EBADF)
              \<and> pipe_read pool i buf = Ret (pool, buf, Err EBADF)
      | Some p \<Rightarrow>
          (if read_refcount p = 0 then pipe_write pool i data = Ret (pool, Err EPIPE)
           else if p_count p = 4096 then pipe_write pool i data = Ret (pool, Err EAGAIN)
           else \<exists>pool'. pipe_write pool i data = Ret (pool', Ok (min (length data) (4096 - p_count p))))
        \<and> (if pipe_bytes p = []
           then pipe_read pool i buf = Ret (pool, buf, if write_refcount p = 0 then Ok 0 else Err EAGAIN)
           else \<exists>pool'. pipe_read pool i buf =
                  Ret (pool', take (length buf) (pipe_bytes p) @ drop (p_count p) buf,
                       Ok (min (length buf) (p_count p)))))"
proof (cases "pool_get pool i")
  case None
  then show ?thesis by (simp add: pipe_write_def pipe_read_def)
next
  case (Some p)
  then have ok: "pipe_ok p" and upd: "pool[i := p] = pool"
    using assms by (auto simp: pool_ok_def pool_get_def split: if_splits)
  have w: "if read_refcount p = 0 then pipe_write pool i data = Ret (pool, Err EPIPE)
           else if p_count p = 4096 then pipe_write pool i data = Ret (pool, Err EAGAIN)
           else \<exists>pool'. pipe_write pool i data = Ret (pool', Ok (min (length data) (4096 - p_count p)))"
    using Some upd pipe_write_data_spec [OF ok, of data]
    by (auto simp: pipe_write_def pipe_write_data_def pipe_is_full_def PIPE_BUFFER_SIZE_def)
  have e: "pipe_bytes p = [] \<longleftrightarrow> pipe_is_empty p"
    by (metis length_0_conv length_pipe_bytes pipe_is_empty_def)
  have "drop (min (length buf) (p_count p)) buf = drop (p_count p) buf"
    "take (min (length buf) (p_count p)) (pipe_bytes p) = take (length buf) (pipe_bytes p)"
    by (auto simp: min_def)
  then have "if pipe_bytes p = []
           then pipe_read pool i buf = Ret (pool, buf, if write_refcount p = 0 then Ok 0 else Err EAGAIN)
           else \<exists>pool'. pipe_read pool i buf =
                  Ret (pool', take (length buf) (pipe_bytes p) @ drop (p_count p) buf,
                       Ok (min (length buf) (p_count p)))"
    using Some upd pipe_read_data_spec [OF ok, of buf] unfolding e
    by (auto simp: pipe_read_def pipe_read_data_def)
  with w Some show ?thesis by simp
qed

theorem pipe_io_results_witness:
  "pool_ok pool_new \<and> pipe_write pool_new 3 [1] = Ret (pool_new, Err EBADF)"
  using pool_new_ok pipe_io_results [OF pool_new_ok, of 3 "[1]" "[]"]
  by (auto simp: pool_get_def pool_new_def MAX_PIPES_def pipe_is_allocated_def pipe_new_def)

lemma pool_allocate_loop_spec:
  assumes "sorted is"
  shows "(\<exists>i \<in> set is. \<not> pipe_is_allocated (pool ! i) \<and> (\<forall>j \<in> set is. j < i \<longrightarrow> pipe_is_allocated (pool ! j))
      \<and> pool_allocate_loop pool is = (pool[i := (pool ! i)\<lparr>read_refcount := 1, write_refcount := 1\<rparr>], Ok i))
    \<or> (\<forall>i \<in> set is. pipe_is_allocated (pool ! i)) \<and> pool_allocate_loop pool is = (pool, Err EMFILE)"
  using assms
proof (induction "is")
  case Nil
  then show ?case by simp
next
  case (Cons i "is")
  show ?case
  proof (cases "pipe_is_allocated (pool ! i)")
    case True
    with Cons show ?thesis by fastforce
  next
    case False
    then have "pipe_open_write (pipe_open_read (pool ! i)) = (pool ! i)\<lparr>read_refcount := 1, write_refcount := 1\<rparr>"
      by (simp add: pipe_is_allocated_def pipe_open_write_def pipe_open_read_def)
    with False Cons.prems show ?thesis by (intro disjI1 bexI [of _ i]) auto
  qed
qed

text \<open>C17: \<open>pipe_create\<close> returns both ends of the free pipe with the least index, each counted
  once, and fails with \<open>EMFILE\<close> exactly when every pipe is in use. It does not reset the buffer:
  the new pipe holds the unread bytes of the pipe that used the slot before.\<close>

theorem pipe_create_correct:
  "if \<forall>p \<in> set pool. pipe_is_allocated p then pipe_create pool = (pool, Err EMFILE)
   else \<exists>i pool'. pipe_create pool = (pool', Ok (i, i)) \<and> i < length pool
     \<and> \<not> pipe_is_allocated (pool ! i) \<and> (\<forall>j < i. pipe_is_allocated (pool ! j))
     \<and> pool' = pool[i := (pool ! i)\<lparr>read_refcount := 1, write_refcount := 1\<rparr>]
     \<and> pipe_bytes (pool' ! i) = pipe_bytes (pool ! i)"
proof (cases "\<forall>p \<in> set pool. pipe_is_allocated p")
  case True
  then have "\<forall>i < length pool. pipe_is_allocated (pool ! i)" by simp
  with True pool_allocate_loop_spec [of "[0..<length pool]" pool] show ?thesis
    by (auto simp: pipe_create_def pool_allocate_def)
next
  case False
  then have "\<exists>i < length pool. \<not> pipe_is_allocated (pool ! i)" by (auto simp: in_set_conv_nth)
  then obtain i where i: "i < length pool" "\<not> pipe_is_allocated (pool ! i)"
      "\<forall>j < length pool. j < i \<longrightarrow> pipe_is_allocated (pool ! j)"
      "pool_allocate pool = (pool[i := (pool ! i)\<lparr>read_refcount := 1, write_refcount := 1\<rparr>], Ok i)"
    using pool_allocate_loop_spec [of "[0..<length pool]" pool] by (auto simp: pool_allocate_def)
  have "pipe_is_allocated (pool ! j)" if "j < i" for j using i that by simp
  with i have "pipe_create pool = (pool[i := (pool ! i)\<lparr>read_refcount := 1, write_refcount := 1\<rparr>], Ok (i, i))
     \<and> i < length pool \<and> \<not> pipe_is_allocated (pool ! i) \<and> (\<forall>j < i. pipe_is_allocated (pool ! j))
     \<and> pipe_bytes (pool[i := (pool ! i)\<lparr>read_refcount := 1, write_refcount := 1\<rparr>] ! i) = pipe_bytes (pool ! i)"
    by (simp add: pipe_create_def pipe_bytes_def)
  then show ?thesis unfolding if_not_P [OF False] by blast
qed

theorem pipe_create_correct_witness:
  "\<exists>i pool'. pipe_create pool_new = (pool', Ok (i, i)) \<and> i < 16"
  using pipe_create_correct [of pool_new]
  by (auto simp: pool_new_def MAX_PIPES_def pipe_is_allocated_def pipe_new_def)

text \<open>Closing both ends of a pipe that was just created frees its slot.\<close>

lemma pipe_close_frees:
  assumes "pool_get pool i = Some p" "read_refcount p = 1" "write_refcount p = 1"
  shows "pool_get (fst (pipe_close_write (fst (pipe_close_read pool i)) i)) i = None"
  using assms
  by (auto simp: pipe_close_read_def pipe_close_write_def pool_update_def pool_get_def pipe_is_allocated_def
      pipe_close_read_ref_def pipe_close_write_ref_def split: if_splits option.splits)

end
