(* ===== verification/Mount.thy ===== *)
theory Mount
  imports Tmpfs Diskfs Fat32 Pipe
begin

text \<open>
  The mount table of \<open>kernel/src/mount.rs\<close> and the global state behind the file system calls.
  The statics of \<open>mount.rs\<close>, \<open>tmpfs.rs\<close>, \<open>fs.rs\<close> and \<open>pipe.rs\<close> are the fields of one record; each
  lock is held for one call, so a call is one step. The disk that the mount calls create is the
  parameter \<open>dev\<close>, its read operation is \<open>rd\<close>, and \<open>ulower\<close> is lower case outside ASCII.
\<close>

datatype fs_type = FsDisk | FsFat32 | FsTmpfs

record mount_entry =
  me_mount_point :: string
  me_fs_type :: fs_type

record 'd mount_table =
  mt_mounts :: "(string \<times> mount_entry) list"
  mt_disk_fs :: "'d diskfs option"
  mt_fat32_fs :: "'d fat32 option"

record 'd vfs =
  MOUNT_TABLE :: "'d mount_table option"
  TMPFS :: "tmpfs option"
  WRITABLE_FILES :: "(nat, bytes) btree option"
  DYNAMIC_FILES :: "(string, nat) btree option"
  FILE_MODES :: "(nat, u16) btree option"
  FILE_OWNERSHIP :: "(nat, u32 \<times> u32) btree option"
  PIPES :: pipe_pool

section \<open>Errors\<close>

primrec diskfs_error_to_errno :: "diskfs_error \<Rightarrow> error_code" where
  "diskfs_error_to_errno DfIoError = EIO"
| "diskfs_error_to_errno DfInvalidMagic = EINVAL"
| "diskfs_error_to_errno DfInvalidVersion = EINVAL"
| "diskfs_error_to_errno DfInvalidInode = ENOENT"
| "diskfs_error_to_errno DfInvalidInodeType = EINVAL"
| "diskfs_error_to_errno DfInvalidPath = EINVAL"
| "diskfs_error_to_errno DfNotFound = ENOENT"
| "diskfs_error_to_errno DfNotADirectory = ENOTDIR"
| "diskfs_error_to_errno DfNotAFile = EISDIR"

primrec fat32_error_to_errno :: "fat32_error \<Rightarrow> error_code" where
  "fat32_error_to_errno F32IoError = EIO"
| "fat32_error_to_errno F32InvalidSignature = EINVAL"
| "fat32_error_to_errno F32InvalidBpb = EINVAL"
| "fat32_error_to_errno F32UnsupportedSectorSize = EINVAL"
| "fat32_error_to_errno F32InvalidCluster = EINVAL"
| "fat32_error_to_errno F32BadCluster = EIO"
| "fat32_error_to_errno F32NotFound = ENOENT"
| "fat32_error_to_errno F32NotADirectory = ENOTDIR"
| "fat32_error_to_errno F32InvalidPath = EINVAL"

section \<open>The mount table\<close>

definition mount_table_new :: "'d mount_table" where
  "mount_table_new = \<lparr>mt_mounts = [], mt_disk_fs = None, mt_fat32_fs = None\<rparr>"

definition add_mount :: "string \<Rightarrow> fs_type \<Rightarrow> 'd mount_table \<Rightarrow> 'd mount_table" where
  "add_mount mount_point t mt =
     mt\<lparr>mt_mounts := mt_mounts mt @ [(mount_point, \<lparr>me_mount_point = mount_point, me_fs_type = t\<rparr>)]\<rparr>"

definition mount_disk :: "'d rd_op \<Rightarrow> 'd \<Rightarrow> string \<Rightarrow> ('d mount_table, unit, error_code) prog" where
  "mount_disk rd dev mount_point =
     bindP (liftO (diskfs_new rd dev)) (\<lambda>r.
     bindP (liftR (map_err (\<lambda>_. EIO) r)) (\<lambda>disk_fs.
     modP (\<lambda>mt. (add_mount mount_point FsDisk mt)\<lparr>mt_disk_fs := Some disk_fs\<rparr>)))"

definition mount_fat32 :: "'d rd_op \<Rightarrow> 'd \<Rightarrow> string \<Rightarrow> ('d mount_table, unit, error_code) prog" where
  "mount_fat32 rd dev mount_point =
     bindP (liftO (fat32_new rd dev)) (\<lambda>r.
     bindP (liftR (map_err fat32_error_to_errno r)) (\<lambda>fat32_fs.
     modP (\<lambda>mt. (add_mount mount_point FsFat32 mt)\<lparr>mt_fat32_fs := Some fat32_fs\<rparr>)))"

definition mount_tmpfs :: "string \<Rightarrow> ('d mount_table, unit, error_code) prog" where
  "mount_tmpfs mount_point = modP (add_mount mount_point FsTmpfs)"

fun resolve_mount :: "(string \<times> mount_entry) list \<Rightarrow> string \<Rightarrow> (string \<times> string \<times> fs_type) option" where
  "resolve_mount [] path = None"
| "resolve_mount ((mount_point, entry) # ms) path =
     (if path = mount_point then Some (mount_point, ''/'', me_fs_type entry)
      else if prefix (mount_point @ ''/'') path
      then Some (mount_point, drop (length mount_point) path, me_fs_type entry)
      else resolve_mount ms path)"

definition init_mount_table :: "'d vfs \<Rightarrow> 'd vfs" where
  "init_mount_table v = v\<lparr>MOUNT_TABLE := Some mount_table_new\<rparr>"

text \<open>\<open>table.as_mut().ok_or(EIO)?\<close> and a program on the table.\<close>

definition with_mounts :: "('d mount_table, 'a, error_code) prog \<Rightarrow> ('d vfs, 'a, error_code) prog" where
  "with_mounts m v =
     (case MOUNT_TABLE v of
        None \<Rightarrow> Ret (v, Err EIO)
      | Some mt \<Rightarrow> zoomP (\<lambda>_. mt) (\<lambda>mt' v. v\<lparr>MOUNT_TABLE := Some mt'\<rparr>) m v)"

definition mount_disk_at_mnt :: "'d rd_op \<Rightarrow> 'd \<Rightarrow> ('d vfs, unit, error_code) prog" where
  "mount_disk_at_mnt rd dev = with_mounts (mount_disk rd dev ''/mnt'')"

definition mount_fat32_at_mnt :: "'d rd_op \<Rightarrow> 'd \<Rightarrow> ('d vfs, unit, error_code) prog" where
  "mount_fat32_at_mnt rd dev = with_mounts (mount_fat32 rd dev ''/mnt'')"

definition init_tmpfs :: "'d vfs \<Rightarrow> 'd vfs" where
  "init_tmpfs v = v\<lparr>TMPFS := Some tmpfs_new\<rparr>"

definition mount_tmpfs_at_tmp :: "('d vfs, unit, error_code) prog" where
  "mount_tmpfs_at_tmp = bindP (modP init_tmpfs) (\<lambda>_. with_mounts (mount_tmpfs ''/tmp''))"

definition resolve_mount_path :: "'d vfs \<Rightarrow> string \<Rightarrow> (string \<times> string \<times> fs_type) option" where
  "resolve_mount_path v path =
     (case MOUNT_TABLE v of None \<Rightarrow> None | Some mt \<Rightarrow> resolve_mount (mt_mounts mt) path)"

section \<open>The disk file systems\<close>

text \<open>\<open>disk_fs_mut().ok_or(EIO)?\<close>, an operation on the file system and a second state \<open>'x\<close> (a
  buffer), and the translation of its error.\<close>

definition with_disk :: "('d diskfs \<times> 'x, 'a, diskfs_error) prog \<Rightarrow> ('d vfs \<times> 'x, 'a, error_code) prog" where
  "with_disk m = (\<lambda>(v, x).
     (case MOUNT_TABLE v of
        None \<Rightarrow> Ret ((v, x), Err EIO)
      | Some mt \<Rightarrow>
          (case mt_disk_fs mt of
             None \<Rightarrow> Ret ((v, x), Err EIO)
           | Some fs \<Rightarrow>
               (case m (fs, x) of
                  Panic \<Rightarrow> Panic
                | Ret ((fs', x'), r) \<Rightarrow>
                    Ret ((v\<lparr>MOUNT_TABLE := Some (mt\<lparr>mt_disk_fs := Some fs'\<rparr>)\<rparr>, x'),
                         map_err diskfs_error_to_errno r)))))"

definition with_fat32 :: "('d fat32 \<times> 'x, 'a, fat32_error) prog \<Rightarrow> ('d vfs \<times> 'x, 'a, error_code) prog" where
  "with_fat32 m = (\<lambda>(v, x).
     (case MOUNT_TABLE v of
        None \<Rightarrow> Ret ((v, x), Err EIO)
      | Some mt \<Rightarrow>
          (case mt_fat32_fs mt of
             None \<Rightarrow> Ret ((v, x), Err EIO)
           | Some fs \<Rightarrow>
               (case m (fs, x) of
                  Panic \<Rightarrow> Panic
                | Ret ((fs', x'), r) \<Rightarrow>
                    Ret ((v\<lparr>MOUNT_TABLE := Some (mt\<lparr>mt_fat32_fs := Some fs'\<rparr>)\<rparr>, x'),
                         map_err fat32_error_to_errno r)))))"

text \<open>Operations that do not use a buffer.\<close>

definition no_buf :: "('s \<times> unit, 'a, 'e) prog \<Rightarrow> ('s, 'a, 'e) prog" where
  "no_buf m s = (case m (s, ()) of Panic \<Rightarrow> Panic | Ret ((s', _), r) \<Rightarrow> Ret (s', r))"

definition on_fst :: "('s, 'a, 'e) prog \<Rightarrow> ('s \<times> 'x, 'a, 'e) prog" where
  "on_fst m = zoomP fst (\<lambda>s (_, x). (s, x)) m"

definition diskfs_lookup :: "'d rd_op \<Rightarrow> string \<Rightarrow> ('d vfs, u32, error_code) prog" where
  "diskfs_lookup rd path = no_buf (with_disk (on_fst (df_resolve_path rd path)))"

definition diskfs_read :: "'d rd_op \<Rightarrow> u32 \<Rightarrow> nat \<Rightarrow> ('d vfs \<times> bytes, nat, error_code) prog" where
  "diskfs_read rd inode offset = with_disk (df_read_file rd inode offset)"

primrec inode_file_type :: "inode_type \<Rightarrow> file_type" where
  "inode_file_type InodeFile = FileT"
| "inode_file_type InodeDir = DirectoryT"

primrec default_mode :: "file_type \<Rightarrow> u16" where
  "default_mode DirectoryT = DEFAULT_DIR_MODE"
| "default_mode FileT = DEFAULT_FILE_MODE"

definition diskfs_stat :: "'d rd_op \<Rightarrow> u32 \<Rightarrow> ('d vfs, file_metadata, error_code) prog" where
  "diskfs_stat rd inode =
     bindP (no_buf (with_disk (on_fst (df_stat rd inode)))) (\<lambda>file.
     let t = inode_file_type (dk_file_type file) in
     retP \<lparr>md_file_type = t, md_size = dk_size file, md_mode = default_mode t, md_uid = 0, md_gid = 0\<rparr>)"

definition diskfs_list_dir :: "'d rd_op \<Rightarrow> u32 \<Rightarrow> ('d vfs, (string \<times> file_type) list, error_code) prog" where
  "diskfs_list_dir rd inode =
     no_buf (with_disk (on_fst (
       bindP (df_read_dir rd inode) (\<lambda>entries.
       mapP (\<lambda>entry. bindP (df_stat rd (de_inode entry)) (\<lambda>file.
               retP (de_name entry, inode_file_type (dk_file_type file)))) entries))))"

record fat32_handle =
  h_cluster :: u32
  h_size :: u32
  h_is_dir :: bool

definition fat32_lookup :: "'d rd_op \<Rightarrow> (string \<Rightarrow> string) \<Rightarrow> string \<Rightarrow> ('d vfs, fat32_handle, error_code) prog" where
  "fat32_lookup rd ulower path =
     bindP (no_buf (with_fat32 (on_fst (fat_resolve_path rd ulower path)))) (\<lambda>entry.
     retP \<lparr>h_cluster = d_first_cluster entry, h_size = d_file_size entry, h_is_dir = is_directory entry\<rparr>)"

definition fat32_read :: "'d rd_op \<Rightarrow> u32 \<Rightarrow> u32 \<Rightarrow> nat \<Rightarrow> ('d vfs \<times> bytes, nat, error_code) prog" where
  "fat32_read rd cluster fsize offset = with_fat32 (fat_read_file rd cluster fsize offset)"

definition fat32_stat :: "fat32_handle \<Rightarrow> file_metadata" where
  "fat32_stat handle =
     (let t = (if h_is_dir handle then DirectoryT else FileT) in
      \<lparr>md_file_type = t, md_size = ucast (h_size handle), md_mode = default_mode t, md_uid = 0, md_gid = 0\<rparr>)"

definition fat32_list_dir ::
  "'d rd_op \<Rightarrow> (string \<Rightarrow> string) \<Rightarrow> u32 \<Rightarrow> ('d vfs, (string \<times> file_type) list, error_code) prog" where
  "fat32_list_dir rd ulower cluster =
     bindP (no_buf (with_fat32 (on_fst (read_directory rd ulower cluster)))) (\<lambda>entries.
     retP (map (\<lambda>entry. (d_name entry, if is_directory entry then DirectoryT else FileT)) entries))"

section \<open>Tmpfs\<close>

definition with_tmpfs :: "(tmpfs, 'a, error_code) prog \<Rightarrow> ('d vfs, 'a, error_code) prog" where
  "with_tmpfs m v =
     (case TMPFS v of
        None \<Rightarrow> Ret (v, Err EIO)
      | Some fs \<Rightarrow> zoomP (\<lambda>_. fs) (\<lambda>fs' v. v\<lparr>TMPFS := Some fs'\<rparr>) m v)"

definition tmpfs_lookup :: "string \<Rightarrow> ('d vfs, inode, error_code) prog" where
  "tmpfs_lookup path = with_tmpfs (\<lambda>fs. Ret (fs, tf_lookup fs (tf_root fs) (strip_prefix_slash path)))"

text \<open>The look-up of a parent directory, common to the calls that change one.\<close>

definition parent_inode :: "tmpfs \<Rightarrow> string \<Rightarrow> (inode, error_code) result" where
  "parent_inode fs parent_path =
     (if parent_path = ''/'' \<or> parent_path = [] then Ok (tf_root fs)
      else tf_lookup fs (tf_root fs) (strip_prefix_slash parent_path))"

definition tmpfs_create :: "string \<Rightarrow> string \<Rightarrow> bool \<Rightarrow> ('d vfs, inode, error_code) prog" where
  "tmpfs_create parent_path name is_dir = with_tmpfs (\<lambda>fs.
     (case parent_inode fs parent_path of
        Err e \<Rightarrow> Ret (fs, Err e)
      | Ok parent \<Rightarrow> tf_create fs parent name is_dir))"

text \<open>\<open>read\<close> fills the caller's buffer, which comes back with the count.\<close>

definition tmpfs_read :: "inode \<Rightarrow> nat \<Rightarrow> bytes \<Rightarrow> ('d vfs, nat \<times> bytes, error_code) prog" where
  "tmpfs_read i offset buffer = with_tmpfs (\<lambda>fs. Ret (fs, tf_read fs i offset buffer))"

definition tmpfs_write :: "inode \<Rightarrow> nat \<Rightarrow> bytes \<Rightarrow> ('d vfs, nat, error_code) prog" where
  "tmpfs_write i offset data = with_tmpfs (\<lambda>fs. Ret (tf_write fs i offset data))"

definition tmpfs_truncate :: "inode \<Rightarrow> ('d vfs, unit, error_code) prog" where
  "tmpfs_truncate i = with_tmpfs (\<lambda>fs. Ret (tf_truncate fs i))"

definition tmpfs_stat :: "inode \<Rightarrow> ('d vfs, file_metadata, error_code) prog" where
  "tmpfs_stat i = with_tmpfs (\<lambda>fs. Ret (fs, tf_stat fs i))"

definition tmpfs_list_dir :: "inode \<Rightarrow> ('d vfs, (string \<times> file_type) list, error_code) prog" where
  "tmpfs_list_dir i = with_tmpfs (\<lambda>fs. Ret (fs, tf_read_dir fs i))"

definition tmpfs_unlink :: "string \<Rightarrow> string \<Rightarrow> ('d vfs, unit, error_code) prog" where
  "tmpfs_unlink parent_path name = with_tmpfs (\<lambda>fs.
     (case parent_inode fs parent_path of
        Err e \<Rightarrow> Ret (fs, Err e)
      | Ok parent \<Rightarrow> Ret (tf_unlink fs parent name)))"

definition tmpfs_chmod :: "inode \<Rightarrow> u16 \<Rightarrow> ('d vfs, unit, error_code) prog" where
  "tmpfs_chmod i new_mode = with_tmpfs (\<lambda>fs. Ret (tf_chmod fs i new_mode))"

definition tmpfs_mkdir :: "string \<Rightarrow> string \<Rightarrow> ('d vfs, inode, error_code) prog" where
  "tmpfs_mkdir parent_path name = tmpfs_create parent_path name True"

definition tmpfs_rmdir :: "string \<Rightarrow> string \<Rightarrow> ('d vfs, unit, error_code) prog" where
  "tmpfs_rmdir parent_path name = with_tmpfs (\<lambda>fs.
     (case bindR (parent_inode fs parent_path) (\<lambda>parent.
           bindR (tf_lookup fs parent name) (\<lambda>dir_inode.
           bindR (tf_stat fs dir_inode) (\<lambda>metadata.
           if md_file_type metadata \<noteq> DirectoryT then Err ENOTDIR
           else bindR (tf_read_dir fs dir_inode) (\<lambda>entries.
             if entries \<noteq> [] then Err ENOTEMPTY else Ok parent)))) of
        Err e \<Rightarrow> Ret (fs, Err e)
      | Ok parent \<Rightarrow> Ret (tf_unlink fs parent name)))"

definition tmpfs_rename :: "string \<Rightarrow> string \<Rightarrow> string \<Rightarrow> string \<Rightarrow> ('d vfs, unit, error_code) prog" where
  "tmpfs_rename old_parent_path old_name new_parent_path new_name = with_tmpfs (\<lambda>fs.
     (case bindR (parent_inode fs old_parent_path) (\<lambda>old_parent.
           bindR (parent_inode fs new_parent_path) (\<lambda>new_parent. Ok (old_parent, new_parent))) of
        Err e \<Rightarrow> Ret (fs, Err e)
      | Ok (old_parent, new_parent) \<Rightarrow> Ret (tf_rename fs old_parent old_name new_parent new_name)))"

end
