(* ===== verification/Vfs.thy ===== *)
theory Vfs
  imports Mount
begin

unbundle bit_operations_syntax

text \<open>
  The in-memory files, the file descriptor tables and the path operations of \<open>kernel/src/fs.rs\<close>,
  over the state of \<open>Mount\<close>. A descriptor table is the array of its sixteen entries; descriptors
  and signed offsets are integers, offsets in files are natural numbers. The operations of a table
  run on the pair of the global state and the table; \<open>read\<close> runs on the caller's buffer too.
\<close>

section \<open>Files in memory\<close>

definition MAX_FDS :: nat where
  "MAX_FDS = 16"

definition FIRST_NONSTD_FD :: nat where
  "FIRST_NONSTD_FD = 3"

definition O_RDONLY :: u64 where
  "O_RDONLY = 0x0000"

definition O_WRONLY :: u64 where
  "O_WRONLY = 0x0001"

definition O_RDWR :: u64 where
  "O_RDWR = 0x0002"

definition O_CREAT :: u64 where
  "O_CREAT = 0x0040"

definition O_TRUNC :: u64 where
  "O_TRUNC = 0x0200"

definition O_APPEND :: u64 where
  "O_APPEND = 0x0400"

record file_node =
  fn_path :: string
  fn_data :: bytes
  fn_file_type :: file_type
  fn_mode :: u16
  fn_uid :: u32
  fn_gid :: u32

definition dir_node :: "string \<Rightarrow> file_node" where
  "dir_node path = \<lparr>fn_path = path, fn_data = [], fn_file_type = DirectoryT, fn_mode = DEFAULT_DIR_MODE,
     fn_uid = 0, fn_gid = 0\<rparr>"

definition FILES :: "file_node list" where
  "FILES = [dir_node ''/'', dir_node ''/bin'', dir_node ''/etc'', dir_node ''/tmp'', dir_node ''/mnt'',
     \<lparr>fn_path = ''/etc/motd'',
      fn_data = bytes_of_str ''Welcome to PandaOS.'' @ [13, 10] @ bytes_of_str ''Type '' @ [39]
        @ bytes_of_str ''help'' @ [39] @ bytes_of_str '' for commands.'' @ [13, 10],
      fn_file_type = FileT, fn_mode = DEFAULT_FILE_MODE, fn_uid = 0, fn_gid = 0\<rparr>,
     \<lparr>fn_path = ''/etc/version'', fn_data = bytes_of_str ''PandaOS 0.1.0'' @ [13, 10],
      fn_file_type = FileT, fn_mode = DEFAULT_FILE_MODE, fn_uid = 0, fn_gid = 0\<rparr>]"

definition files_get :: "nat \<Rightarrow> file_node option" where
  "files_get i = (if i < length FILES then Some (FILES ! i) else None)"

definition lookup :: "string \<Rightarrow> bytes option" where
  "lookup path = map_option fn_data (find (\<lambda>entry. fn_path entry = path) FILES)"

definition opt_get :: "('k, 'v) btree option \<Rightarrow> 'k \<Rightarrow> 'v option" where
  "opt_get m k = (case m of None \<Rightarrow> None | Some t \<Rightarrow> bt_get t k)"

definition get_or_new :: "('k, 'v) btree option \<Rightarrow> ('k, 'v) btree" where
  "get_or_new m = (case m of None \<Rightarrow> [] | Some t \<Rightarrow> t)"

definition lookup_node :: "'d vfs \<Rightarrow> string \<Rightarrow> (nat \<times> file_node) option" where
  "lookup_node v path =
     (case find (\<lambda>(_, entry). fn_path entry = path) (enumerate 0 FILES) of
        Some found \<Rightarrow> Some found
      | None \<Rightarrow>
          (case opt_get (DYNAMIC_FILES v) path of
             Some node_index \<Rightarrow> Some (node_index, FILES ! 0)
           | None \<Rightarrow> None))"

definition create_dynamic_file :: "string \<Rightarrow> ('d vfs, nat, error_code) prog" where
  "create_dynamic_file path =
     (if \<not> prefix ''/tmp/'' path then failP EACCES
      else
        bindP (getP (\<lambda>v. lookup_node v path)) (\<lambda>found.
        if found \<noteq> None then failP EEXIST
        else
          bindP (getP (\<lambda>v. get_or_new (DYNAMIC_FILES v))) (\<lambda>dyn.
          let node_index = length FILES + length dyn in
          bindP (modP (\<lambda>v. v\<lparr>DYNAMIC_FILES := Some (bt_insert path node_index dyn)\<rparr>)) (\<lambda>_.
          bindP (modP (\<lambda>v. v\<lparr>WRITABLE_FILES := Some (bt_insert node_index [] (get_or_new (WRITABLE_FILES v)))\<rparr>)) (\<lambda>_.
          retP node_index)))))"

section \<open>Metadata\<close>

definition node_mode :: "'d vfs \<Rightarrow> nat \<Rightarrow> file_node \<Rightarrow> u16" where
  "node_mode v i node = (case opt_get (FILE_MODES v) i of Some m \<Rightarrow> m | None \<Rightarrow> fn_mode node)"

definition node_owner :: "'d vfs \<Rightarrow> nat \<Rightarrow> file_node \<Rightarrow> u32 \<times> u32" where
  "node_owner v i node = (case opt_get (FILE_OWNERSHIP v) i of Some ow \<Rightarrow> ow | None \<Rightarrow> (fn_uid node, fn_gid node))"

definition node_metadata :: "'d vfs \<Rightarrow> nat \<Rightarrow> file_node \<Rightarrow> file_metadata" where
  "node_metadata v i node =
     (let (uid, gid) = node_owner v i node in
      case opt_get (WRITABLE_FILES v) i of
        Some file_data \<Rightarrow> \<lparr>md_file_type = FileT, md_size = of_nat (length file_data), md_mode = node_mode v i node,
          md_uid = uid, md_gid = gid\<rparr>
      | None \<Rightarrow> \<lparr>md_file_type = fn_file_type node,
          md_size = (if fn_file_type node = DirectoryT then 0 else of_nat (length (fn_data node))),
          md_mode = node_mode v i node, md_uid = uid, md_gid = gid\<rparr>)"

definition stat_path :: "'d rd_op \<Rightarrow> (string \<Rightarrow> string) \<Rightarrow> string \<Rightarrow> ('d vfs, file_metadata, error_code) prog" where
  "stat_path rd ulower path =
     bindP (getP (\<lambda>v. resolve_mount_path v path)) (\<lambda>m.
     case m of
       Some (_, rel_path, FsDisk) \<Rightarrow> bindP (diskfs_lookup rd rel_path) (\<lambda>i. diskfs_stat rd i)
     | Some (_, rel_path, FsTmpfs) \<Rightarrow> bindP (tmpfs_lookup rel_path) (\<lambda>i. tmpfs_stat i)
     | Some (_, rel_path, FsFat32) \<Rightarrow> bindP (fat32_lookup rd ulower rel_path) (\<lambda>h. retP (fat32_stat h))
     | None \<Rightarrow>
         bindP (getP (\<lambda>v. map_option (\<lambda>(i, node). node_metadata v i node) (lookup_node v path))) (\<lambda>md.
         liftR (ok_or md ENOENT)))"

section \<open>Descriptors\<close>

record open_file =
  of_node_index :: nat
  of_offset :: nat
  of_flags :: u64

record open_disk_file =
  od_inode :: u32
  od_offset :: nat
  od_flags :: u64

record open_tmpfs_file =
  ot_inode :: u32
  ot_offset :: nat
  ot_flags :: u64

record open_fat32_file =
  ofa_cluster :: u32
  ofa_size :: u32
  ofa_is_dir :: bool
  ofa_offset :: nat
  ofa_flags :: u64

datatype fd_kind =
    FdFile open_file bool
  | FdDirectory open_file
  | FdDiskFile open_disk_file
  | FdDiskDirectory open_disk_file
  | FdTmpfsFile open_tmpfs_file
  | FdTmpfsDirectory open_tmpfs_file
  | FdFat32File open_fat32_file
  | FdFat32Directory open_fat32_file
  | PipeRead nat
  | PipeWrite nat

type_synonym fd_table = "fd_kind option list"

definition fd_table_new :: fd_table where
  "fd_table_new = replicate MAX_FDS None"

definition allocate_fd :: "fd_table \<Rightarrow> (nat, error_code) result" where
  "allocate_fd t =
     ok_or (find (\<lambda>fd. t ! fd = None) [FIRST_NONSTD_FD..<MAX_FDS]) EMFILE"

definition set_entry :: "nat \<Rightarrow> fd_kind option \<Rightarrow> ('d vfs \<times> fd_table, unit, error_code) prog" where
  "set_entry fd k = modP (\<lambda>(v, t). (v, t[fd := k]))"

definition flag_writable :: "u64 \<Rightarrow> bool" where
  "flag_writable flags \<longleftrightarrow> flags AND O_WRONLY \<noteq> 0 \<or> flags AND O_RDWR \<noteq> 0"

definition flag_readable :: "u64 \<Rightarrow> bool" where
  "flag_readable flags \<longleftrightarrow> flags AND O_WRONLY = 0 \<or> flags AND O_RDWR \<noteq> 0"

text \<open>The two checks of \<open>open_node_with_flags\<close>, repeated in every branch of \<open>open_path_with_flags\<close>.\<close>

definition access_ok :: "u64 \<Rightarrow> u32 \<Rightarrow> u32 \<Rightarrow> file_metadata \<Rightarrow> bool" where
  "access_ok flags proc_uid proc_gid md \<longleftrightarrow>
     \<not> (flag_readable flags \<and> \<not> can_read proc_uid proc_gid (md_uid md) (md_gid md) (md_mode md))
     \<and> \<not> (flag_writable flags \<and> \<not> can_write proc_uid proc_gid (md_uid md) (md_gid md) (md_mode md))"

definition open_node_with_flags ::
  "'d rd_op \<Rightarrow> (string \<Rightarrow> string) \<Rightarrow> nat \<Rightarrow> u64 \<Rightarrow> u32 \<Rightarrow> u32 \<Rightarrow> ('d vfs \<times> fd_table, int, error_code) prog" where
  "open_node_with_flags rd ulower node_index flags proc_uid proc_gid =
     bindP (liftR (ok_or (files_get node_index) ENOENT)) (\<lambda>node.
     bindP (getP snd) (\<lambda>t.
     bindP (liftR (allocate_fd t)) (\<lambda>fd.
     bindP (on_fst (stat_path rd ulower (fn_path node))) (\<lambda>metadata.
     if \<not> access_ok flags proc_uid proc_gid metadata then failP EACCES
     else
       bindP (case fn_file_type node of
           FileT \<Rightarrow>
             bindP (if flag_writable flags \<and> flags AND O_TRUNC \<noteq> 0
                    then modP (\<lambda>(v, t). (v\<lparr>WRITABLE_FILES := Some (bt_insert node_index [] (get_or_new (WRITABLE_FILES v)))\<rparr>, t))
                    else retP ()) (\<lambda>_.
             set_entry fd (Some (FdFile \<lparr>of_node_index = node_index, of_offset = 0, of_flags = flags\<rparr> (flag_writable flags))))
         | DirectoryT \<Rightarrow>
             if flag_writable flags then failP EISDIR
             else set_entry fd (Some (FdDirectory \<lparr>of_node_index = node_index, of_offset = 0, of_flags = flags\<rparr>))) (\<lambda>_.
       retP (int fd))))))"

definition open_node ::
  "'d rd_op \<Rightarrow> (string \<Rightarrow> string) \<Rightarrow> nat \<Rightarrow> u32 \<Rightarrow> u32 \<Rightarrow> ('d vfs \<times> fd_table, int, error_code) prog" where
  "open_node rd ulower node_index proc_uid proc_gid =
     open_node_with_flags rd ulower node_index O_RDONLY proc_uid proc_gid"

definition open_entry :: "fd_kind \<Rightarrow> ('d vfs \<times> fd_table, int, error_code) prog" where
  "open_entry k =
     bindP (getP snd) (\<lambda>t.
     bindP (liftR (allocate_fd t)) (\<lambda>fd.
     bindP (set_entry fd (Some k)) (\<lambda>_. retP (int fd))))"

definition open_pipe_read :: "nat \<Rightarrow> ('d vfs \<times> fd_table, int, error_code) prog" where
  "open_pipe_read pipe_id = open_entry (PipeRead pipe_id)"

definition open_pipe_write :: "nat \<Rightarrow> ('d vfs \<times> fd_table, int, error_code) prog" where
  "open_pipe_write pipe_id = open_entry (PipeWrite pipe_id)"

definition fd_bad :: "int \<Rightarrow> bool" where
  "fd_bad fd \<longleftrightarrow> fd < 0 \<or> int MAX_FDS \<le> fd"

definition fd_std :: "int \<Rightarrow> bool" where
  "fd_std fd \<longleftrightarrow> fd < int FIRST_NONSTD_FD"

definition fd_get :: "fd_table \<Rightarrow> int \<Rightarrow> (fd_kind, error_code) result" where
  "fd_get t fd =
     (if fd_bad fd then Err EBADF
      else if fd_std fd then Err EBADF
      else ok_or (t ! nat fd) EBADF)"

text \<open>A call on the pipe pool.\<close>

definition on_pipes :: "(pipe_pool \<Rightarrow> pipe_pool \<times> ('a, error_code) result) \<Rightarrow> ('d vfs \<times> 'x, 'a, error_code) prog" where
  "on_pipes f = (\<lambda>(v, x). (case f (PIPES v) of (pool, r) \<Rightarrow> Ret ((v\<lparr>PIPES := pool\<rparr>, x), r)))"

definition fd_close :: "int \<Rightarrow> ('d vfs \<times> fd_table, unit, error_code) prog" where
  "fd_close fd =
     (if fd_bad fd then failP EBADF
      else if fd_std fd then failP EINVAL
      else
        bindP (getP (\<lambda>(v, t). t ! nat fd)) (\<lambda>slot.
        case slot of
          None \<Rightarrow> failP EBADF
        | Some kind \<Rightarrow>
            bindP (set_entry (nat fd) None) (\<lambda>_.
            case kind of
              PipeRead pipe_id \<Rightarrow> on_pipes (\<lambda>pool. pipe_close_read pool pipe_id)
            | PipeWrite pipe_id \<Rightarrow> on_pipes (\<lambda>pool. pipe_close_write pool pipe_id)
            | _ \<Rightarrow> retP ())))"

text \<open>\<open>read\<close>: the state is the global state, the table and the caller's buffer. Bytes of a file in
  memory from the offset on go to the start of the buffer.\<close>

definition set_entry3 :: "nat \<Rightarrow> fd_kind \<Rightarrow> ('d vfs \<times> fd_table \<times> bytes, unit, error_code) prog" where
  "set_entry3 fd k = modP (\<lambda>(v, t, b). (v, t[fd := Some k], b))"

definition read_memory :: "nat \<Rightarrow> open_file \<Rightarrow> bool \<Rightarrow> bytes \<Rightarrow> ('d vfs \<times> fd_table \<times> bytes, nat, error_code) prog" where
  "read_memory fd opn writable file_data =
     bindP (getP (\<lambda>(v, t, b). length b)) (\<lambda>count.
     if length file_data \<le> of_offset opn \<or> count = 0 then retP 0
     else
       let available = length file_data - of_offset opn;
           to_read = min available count;
           start = of_offset opn;
           fin = start + to_read
       in
       bindP (modP (\<lambda>(v, t, b). (v, t, overwrite b 0 (subslice file_data start fin)))) (\<lambda>_.
       bindP (set_entry3 fd (FdFile (opn\<lparr>of_offset := fin\<rparr>) writable)) (\<lambda>_.
       retP to_read)))"

text \<open>A program on the global state and the buffer inside the larger state.\<close>

definition on_buf :: "('d vfs \<times> bytes, 'a, error_code) prog \<Rightarrow> ('d vfs \<times> fd_table \<times> bytes, 'a, error_code) prog" where
  "on_buf m = zoomP (\<lambda>(v, t, b). (v, b)) (\<lambda>(v, b) (_, t, _). (v, t, b)) m"

definition fd_read :: "'d rd_op \<Rightarrow> int \<Rightarrow> ('d vfs \<times> fd_table \<times> bytes, nat, error_code) prog" where
  "fd_read rd fd =
     (if fd_bad fd then failP EBADF
      else if fd_std fd then failP EBADF
      else
        bindP (getP (\<lambda>(v, t, b). t ! nat fd)) (\<lambda>slot.
        bindP (liftR (ok_or slot EBADF)) (\<lambda>kind.
        case kind of
          FdFile opn writable \<Rightarrow>
            bindP (getP (\<lambda>(v, t, b). opt_get (WRITABLE_FILES v) (of_node_index opn))) (\<lambda>stored.
            case stored of
              Some file_data \<Rightarrow> read_memory (nat fd) opn writable file_data
            | None \<Rightarrow>
                bindP (liftR (ok_or (files_get (of_node_index opn)) ENOENT)) (\<lambda>node.
                read_memory (nat fd) opn writable (fn_data node)))
        | FdDirectory _ \<Rightarrow> failP EISDIR
        | FdDiskFile opn \<Rightarrow>
            bindP (on_buf (diskfs_read rd (od_inode opn) (od_offset opn))) (\<lambda>bytes_read.
            bindP (set_entry3 (nat fd) (FdDiskFile (opn\<lparr>od_offset := od_offset opn + bytes_read\<rparr>))) (\<lambda>_.
            retP bytes_read))
        | FdDiskDirectory _ \<Rightarrow> failP EISDIR
        | FdTmpfsFile opn \<Rightarrow>
            bindP (getP (\<lambda>(v, t, b). length b)) (\<lambda>len.
            bindP (on_fst (tmpfs_read (ot_inode opn) (ot_offset opn) (replicate len 0))) (\<lambda>(bytes_read, buffer_vec).
            bindP (modP (\<lambda>(v, t, b). (v, t, overwrite b 0 (take bytes_read buffer_vec)))) (\<lambda>_.
            bindP (set_entry3 (nat fd) (FdTmpfsFile (opn\<lparr>ot_offset := ot_offset opn + bytes_read\<rparr>))) (\<lambda>_.
            retP bytes_read))))
        | FdTmpfsDirectory _ \<Rightarrow> failP EISDIR
        | FdFat32File opn \<Rightarrow>
            bindP (on_buf (fat32_read rd (ofa_cluster opn) (ofa_size opn) (ofa_offset opn))) (\<lambda>bytes_read.
            bindP (set_entry3 (nat fd) (FdFat32File (opn\<lparr>ofa_offset := ofa_offset opn + bytes_read\<rparr>))) (\<lambda>_.
            retP bytes_read))
        | FdFat32Directory _ \<Rightarrow> failP EISDIR
        | PipeRead _ \<Rightarrow> failP EBADF
        | PipeWrite _ \<Rightarrow> failP EBADF)))"

text \<open>\<open>write\<close>: the extension and overwriting of the stored bytes is the one of tmpfs.\<close>

definition fd_write :: "int \<Rightarrow> bytes \<Rightarrow> ('d vfs \<times> fd_table, nat, error_code) prog" where
  "fd_write fd data =
     (if fd_bad fd then failP EBADF
      else if fd_std fd then failP EBADF
      else
        bindP (getP (\<lambda>(v, t). t ! nat fd)) (\<lambda>slot.
        bindP (liftR (ok_or slot EBADF)) (\<lambda>kind.
        case kind of
          FdFile opn writable \<Rightarrow>
            if \<not> writable then failP EBADF
            else
              bindP (getP (\<lambda>(v, t). opt_get (WRITABLE_FILES v) (of_node_index opn))) (\<lambda>stored.
              let write_offset = (if of_flags opn AND O_APPEND \<noteq> 0
                     then (case stored of Some d \<Rightarrow> length d | None \<Rightarrow> 0) else of_offset opn);
                  file_data = (case stored of Some d \<Rightarrow> d | None \<Rightarrow> [])
              in
              bindP (modP (\<lambda>(v, t). (v\<lparr>WRITABLE_FILES :=
                  Some (bt_insert (of_node_index opn) (write_bytes file_data write_offset data) (get_or_new (WRITABLE_FILES v)))\<rparr>, t))) (\<lambda>_.
              bindP (set_entry (nat fd) (Some (FdFile (opn\<lparr>of_offset := write_offset + length data\<rparr>) writable))) (\<lambda>_.
              retP (length data))))
        | FdDirectory _ \<Rightarrow> failP EBADF
        | FdDiskFile _ \<Rightarrow> failP EROFS
        | FdDiskDirectory _ \<Rightarrow> failP EROFS
        | FdFat32File _ \<Rightarrow> failP EROFS
        | FdFat32Directory _ \<Rightarrow> failP EROFS
        | FdTmpfsFile opn \<Rightarrow>
            bindP (if ot_flags opn AND O_APPEND \<noteq> 0
                   then bindP (on_fst (tmpfs_stat (ot_inode opn))) (\<lambda>metadata. retP (unat (md_size metadata)))
                   else retP (ot_offset opn)) (\<lambda>write_offset.
            bindP (on_fst (tmpfs_write (ot_inode opn) write_offset data)) (\<lambda>bytes_written.
            bindP (set_entry (nat fd) (Some (FdTmpfsFile (opn\<lparr>ot_offset := write_offset + bytes_written\<rparr>)))) (\<lambda>_.
            retP bytes_written)))
        | FdTmpfsDirectory _ \<Rightarrow> failP EBADF
        | PipeRead _ \<Rightarrow> failP EBADF
        | PipeWrite _ \<Rightarrow> failP EBADF)))"

definition update_directory_offset :: "int \<Rightarrow> nat \<Rightarrow> ('d vfs \<times> fd_table, unit, error_code) prog" where
  "update_directory_offset fd new_offset =
     (if fd_bad fd then failP EBADF
      else if fd_std fd then failP EBADF
      else
        bindP (getP (\<lambda>(v, t). t ! nat fd)) (\<lambda>slot.
        bindP (liftR (ok_or slot EBADF)) (\<lambda>kind.
        case kind of
          FdDirectory opn \<Rightarrow> set_entry (nat fd) (Some (FdDirectory (opn\<lparr>of_offset := new_offset\<rparr>)))
        | FdDiskDirectory opn \<Rightarrow> set_entry (nat fd) (Some (FdDiskDirectory (opn\<lparr>od_offset := new_offset\<rparr>)))
        | FdTmpfsDirectory opn \<Rightarrow> set_entry (nat fd) (Some (FdTmpfsDirectory (opn\<lparr>ot_offset := new_offset\<rparr>)))
        | FdFat32Directory opn \<Rightarrow> set_entry (nat fd) (Some (FdFat32Directory (opn\<lparr>ofa_offset := new_offset\<rparr>)))
        | _ \<Rightarrow> failP ENOTDIR)))"

text \<open>The reference that a copy of a descriptor takes.\<close>

definition open_end :: "fd_kind \<Rightarrow> ('d vfs \<times> 'x, unit, error_code) prog" where
  "open_end kind =
     (case kind of
        PipeRead pipe_id \<Rightarrow> on_pipes (\<lambda>pool. pipe_open_read_end pool pipe_id)
      | PipeWrite pipe_id \<Rightarrow> on_pipes (\<lambda>pool. pipe_open_write_end pool pipe_id)
      | _ \<Rightarrow> retP ())"

definition dup2 :: "int \<Rightarrow> int \<Rightarrow> ('d vfs \<times> fd_table, unit, error_code) prog" where
  "dup2 oldfd newfd =
     (if fd_bad oldfd then failP EBADF
      else if fd_bad newfd then failP EBADF
      else if fd_std oldfd then failP EINVAL
      else
        bindP (getP (\<lambda>(v, t). t ! nat oldfd)) (\<lambda>slot.
        bindP (liftR (ok_or slot EBADF)) (\<lambda>old_kind.
        bindP (getP (\<lambda>(v, t). t ! nat newfd)) (\<lambda>new_slot.
        bindP (if \<not> fd_std newfd \<and> new_slot \<noteq> None then fd_close newfd else retP ()) (\<lambda>_.
        bindP (open_end old_kind) (\<lambda>_.
        set_entry (nat newfd) (Some old_kind)))))))"

definition fork_copy :: "('d vfs \<times> fd_table, fd_table, error_code) prog" where
  "fork_copy =
     bindP (getP snd) (\<lambda>new_table.
     bindP (foldP (\<lambda>_ entry. case entry of Some kind \<Rightarrow> open_end kind | None \<Rightarrow> retP ()) () new_table) (\<lambda>_.
     retP new_table))"

primrec kind_offset :: "fd_kind \<Rightarrow> (nat, error_code) result" where
  "kind_offset (FdFile opn w) = Ok (of_offset opn)"
| "kind_offset (FdDiskFile opn) = Ok (od_offset opn)"
| "kind_offset (FdTmpfsFile opn) = Ok (ot_offset opn)"
| "kind_offset (FdFat32File opn) = Ok (ofa_offset opn)"
| "kind_offset (FdDirectory opn) = Err EISDIR"
| "kind_offset (FdDiskDirectory opn) = Err EISDIR"
| "kind_offset (FdTmpfsDirectory opn) = Err EISDIR"
| "kind_offset (FdFat32Directory opn) = Err EISDIR"
| "kind_offset (PipeRead i) = Err ESPIPE"
| "kind_offset (PipeWrite i) = Err ESPIPE"

definition get_offset :: "fd_table \<Rightarrow> int \<Rightarrow> (int, error_code) result" where
  "get_offset t fd = bindR (fd_get t fd) (\<lambda>kind. bindR (kind_offset kind) (\<lambda>offset. Ok (int offset)))"

primrec kind_seek :: "fd_kind \<Rightarrow> nat \<Rightarrow> (fd_kind, error_code) result" where
  "kind_seek (FdFile opn w) n = Ok (FdFile (opn\<lparr>of_offset := n\<rparr>) w)"
| "kind_seek (FdDiskFile opn) n = Ok (FdDiskFile (opn\<lparr>od_offset := n\<rparr>))"
| "kind_seek (FdTmpfsFile opn) n = Ok (FdTmpfsFile (opn\<lparr>ot_offset := n\<rparr>))"
| "kind_seek (FdFat32File opn) n = Ok (FdFat32File (opn\<lparr>ofa_offset := n\<rparr>))"
| "kind_seek (FdDirectory opn) n = Err EISDIR"
| "kind_seek (FdDiskDirectory opn) n = Err EISDIR"
| "kind_seek (FdTmpfsDirectory opn) n = Err EISDIR"
| "kind_seek (FdFat32Directory opn) n = Err EISDIR"
| "kind_seek (PipeRead i) n = Err ESPIPE"
| "kind_seek (PipeWrite i) n = Err ESPIPE"

definition set_offset :: "int \<Rightarrow> int \<Rightarrow> ('d vfs \<times> fd_table, int, error_code) prog" where
  "set_offset fd new_offset =
     (if fd_bad fd then failP EBADF
      else if fd_std fd then failP EBADF
      else if new_offset < 0 then failP EINVAL
      else
        bindP (getP (\<lambda>(v, t). t ! nat fd)) (\<lambda>slot.
        bindP (liftR (ok_or slot EBADF)) (\<lambda>kind.
        bindP (liftR (kind_seek kind (nat new_offset))) (\<lambda>k.
        bindP (set_entry (nat fd) (Some k)) (\<lambda>_.
        retP new_offset)))))"

definition get_file_size :: "'d rd_op \<Rightarrow> int \<Rightarrow> ('d vfs \<times> fd_table, int, error_code) prog" where
  "get_file_size rd fd =
     bindP (getP (\<lambda>(v, t). fd_get t fd)) (\<lambda>r.
     bindP (liftR r) (\<lambda>kind.
     case kind of
       FdFile opn _ \<Rightarrow>
         bindP (liftR (ok_or (files_get (of_node_index opn)) ENOENT)) (\<lambda>node.
         bindP (getP (\<lambda>(v, t). opt_get (WRITABLE_FILES v) (of_node_index opn))) (\<lambda>stored.
         retP (int (length (case stored of Some d \<Rightarrow> d | None \<Rightarrow> fn_data node)))))
     | FdDiskFile opn \<Rightarrow> bindP (on_fst (diskfs_stat rd (od_inode opn))) (\<lambda>md. retP (sint (md_size md)))
     | FdTmpfsFile opn \<Rightarrow> bindP (on_fst (tmpfs_stat (ot_inode opn))) (\<lambda>md. retP (sint (md_size md)))
     | FdFat32File opn \<Rightarrow> retP (uint (ofa_size opn))
     | PipeRead _ \<Rightarrow> failP ESPIPE
     | PipeWrite _ \<Rightarrow> failP ESPIPE
     | _ \<Rightarrow> failP EISDIR))"

section \<open>Paths\<close>

text \<open>The parent and the name of a path relative to a mount point.\<close>

definition split_parent :: "string \<Rightarrow> string \<times> string" where
  "split_parent rel_path =
     (case rsplit_slash rel_path of
        Some (parent, name) \<Rightarrow> (if parent = [] then ''/'' else parent, name)
      | None \<Rightarrow> (''/'', rel_path))"

text \<open>Opening on the two read-only file systems: after the checks, an open for writing fails.\<close>

definition open_readonly ::
  "u64 \<Rightarrow> u32 \<Rightarrow> u32 \<Rightarrow> file_metadata \<Rightarrow> fd_kind \<Rightarrow> fd_kind \<Rightarrow> ('d vfs \<times> fd_table, int, error_code) prog" where
  "open_readonly flags proc_uid proc_gid metadata file_kind dir_kind =
     (if \<not> access_ok flags proc_uid proc_gid metadata then failP EACCES
      else if flag_writable flags then failP EROFS
      else open_entry (case md_file_type metadata of FileT \<Rightarrow> file_kind | DirectoryT \<Rightarrow> dir_kind))"

definition open_tmpfs_inode :: "string \<Rightarrow> u64 \<Rightarrow> ('d vfs, inode, error_code) prog" where
  "open_tmpfs_inode rel_path flags =
     tryP (tmpfs_lookup rel_path) (\<lambda>r.
     case r of
       Ok i \<Rightarrow>
         bindP (if flags AND O_TRUNC \<noteq> 0 \<and> flag_writable flags then tmpfs_truncate i else retP ()) (\<lambda>_.
         retP i)
     | Err e \<Rightarrow>
         if e = ENOENT then
           (if flags AND O_CREAT \<noteq> 0
            then (case split_parent rel_path of (parent, name) \<Rightarrow> tmpfs_create parent name False)
            else failP ENOENT)
         else failP e)"

definition open_path_with_flags ::
  "'d rd_op \<Rightarrow> (string \<Rightarrow> string) \<Rightarrow> string \<Rightarrow> u64 \<Rightarrow> u32 \<Rightarrow> u32 \<Rightarrow> ('d vfs \<times> fd_table, int, error_code) prog" where
  "open_path_with_flags rd ulower path flags proc_uid proc_gid =
     bindP (getP (\<lambda>(v, t). resolve_mount_path v path)) (\<lambda>m.
     case m of
       Some (_, rel_path, FsDisk) \<Rightarrow>
         bindP (on_fst (diskfs_lookup rd rel_path)) (\<lambda>i.
         bindP (on_fst (diskfs_stat rd i)) (\<lambda>metadata.
         let opn = \<lparr>od_inode = i, od_offset = 0, od_flags = flags\<rparr> in
         open_readonly flags proc_uid proc_gid metadata (FdDiskFile opn) (FdDiskDirectory opn)))
     | Some (_, rel_path, FsFat32) \<Rightarrow>
         bindP (on_fst (fat32_lookup rd ulower rel_path)) (\<lambda>handle.
         let opn = \<lparr>ofa_cluster = h_cluster handle, ofa_size = h_size handle, ofa_is_dir = h_is_dir handle,
               ofa_offset = 0, ofa_flags = flags\<rparr>
         in open_readonly flags proc_uid proc_gid (fat32_stat handle) (FdFat32File opn) (FdFat32Directory opn))
     | Some (_, rel_path, FsTmpfs) \<Rightarrow>
         bindP (on_fst (open_tmpfs_inode rel_path flags)) (\<lambda>i.
         bindP (on_fst (tmpfs_stat i)) (\<lambda>metadata.
         if \<not> access_ok flags proc_uid proc_gid metadata then failP EACCES
         else
           let opn = \<lparr>ot_inode = i, ot_offset = 0, ot_flags = flags\<rparr> in
           open_entry (case md_file_type metadata of FileT \<Rightarrow> FdTmpfsFile opn | DirectoryT \<Rightarrow> FdTmpfsDirectory opn)))
     | None \<Rightarrow>
         bindP (getP (\<lambda>(v, t). lookup_node v path)) (\<lambda>found.
         bindP (case found of
             Some (i, _) \<Rightarrow> retP i
           | None \<Rightarrow> if flags AND O_CREAT \<noteq> 0 then on_fst (create_dynamic_file path) else failP ENOENT) (\<lambda>node_index.
         open_node_with_flags rd ulower node_index flags proc_uid proc_gid)))"

definition open_path ::
  "'d rd_op \<Rightarrow> (string \<Rightarrow> string) \<Rightarrow> string \<Rightarrow> u32 \<Rightarrow> u32 \<Rightarrow> ('d vfs \<times> fd_table, int, error_code) prog" where
  "open_path rd ulower path proc_uid proc_gid =
     bindP (getP (\<lambda>(v, t). lookup_node v path)) (\<lambda>found.
     bindP (liftR (ok_or found ENOENT)) (\<lambda>(node_index, _).
     open_node rd ulower node_index proc_uid proc_gid))"

text \<open>Listing the files in memory.\<close>

definition static_child :: "string \<Rightarrow> file_node \<Rightarrow> (string \<times> file_type) option" where
  "static_child dir_path node =
     (if fn_path node = dir_path then None
      else if dir_path = ''/'' then
        (if starts_with_slash (fn_path node) \<and> CHR ''/'' \<notin> set (drop 1 (fn_path node)) \<and> drop 1 (fn_path node) \<noteq> []
         then Some (drop 1 (fn_path node), fn_file_type node) else None)
      else if prefix (dir_path @ ''/'') (fn_path node)
      then (let remainder = drop (length dir_path + 1) (fn_path node) in
            if CHR ''/'' \<notin> set remainder then Some (remainder, fn_file_type node) else None)
      else None)"

definition dynamic_child :: "string \<Rightarrow> (string \<times> file_type) option" where
  "dynamic_child path =
     (if prefix ''/tmp/'' path \<and> CHR ''/'' \<notin> set (drop 5 path) then Some (drop 5 path, FileT) else None)"

definition list_directory ::
  "'d rd_op \<Rightarrow> (string \<Rightarrow> string) \<Rightarrow> string \<Rightarrow> ('d vfs, (string \<times> file_type) list, error_code) prog" where
  "list_directory rd ulower dir_path =
     bindP (getP (\<lambda>v. resolve_mount_path v dir_path)) (\<lambda>m.
     case m of
       Some (_, rel_path, FsDisk) \<Rightarrow> bindP (diskfs_lookup rd rel_path) (\<lambda>i. diskfs_list_dir rd i)
     | Some (_, rel_path, FsTmpfs) \<Rightarrow> bindP (tmpfs_lookup rel_path) (\<lambda>i. tmpfs_list_dir i)
     | Some (_, rel_path, FsFat32) \<Rightarrow>
         bindP (fat32_lookup rd ulower rel_path) (\<lambda>h. fat32_list_dir rd ulower (h_cluster h))
     | None \<Rightarrow>
         bindP (getP (\<lambda>v. lookup_node v dir_path)) (\<lambda>found.
         bindP (liftR (ok_or found ENOENT)) (\<lambda>(_, node).
         if fn_file_type node \<noteq> DirectoryT then failP ENOTDIR
         else
           bindP (getP (\<lambda>v. if dir_path = ''/tmp'' then get_or_new (DYNAMIC_FILES v) else [])) (\<lambda>dyn.
           retP (List.map_filter (static_child dir_path) FILES @ List.map_filter (dynamic_child \<circ> fst) dyn)))))"

definition validate_directory :: "'d vfs \<Rightarrow> string \<Rightarrow> (unit, error_code) result" where
  "validate_directory v path =
     bindR (ok_or (lookup_node v path) ENOENT) (\<lambda>(_, node).
     if fn_file_type node \<noteq> DirectoryT then Err ENOTDIR else Ok ())"

definition unlink_path :: "string \<Rightarrow> ('d vfs, unit, error_code) prog" where
  "unlink_path path =
     bindP (getP (\<lambda>v. resolve_mount_path v path)) (\<lambda>m.
     case m of
       Some (_, rel_path, FsDisk) \<Rightarrow> failP EROFS
     | Some (_, rel_path, FsTmpfs) \<Rightarrow> (case split_parent rel_path of (parent, name) \<Rightarrow> tmpfs_unlink parent name)
     | Some (_, rel_path, FsFat32) \<Rightarrow> failP EROFS
     | None \<Rightarrow>
         if \<not> prefix ''/tmp/'' path then failP EACCES
         else
           bindP (getP (\<lambda>v. opt_get (DYNAMIC_FILES v) path)) (\<lambda>found.
           case found of
             Some node_index \<Rightarrow>
               bindP (modP (\<lambda>v. v\<lparr>DYNAMIC_FILES := map_option (bt_remove path) (DYNAMIC_FILES v)\<rparr>)) (\<lambda>_.
               modP (\<lambda>v. v\<lparr>WRITABLE_FILES := map_option (bt_remove node_index) (WRITABLE_FILES v)\<rparr>))
           | None \<Rightarrow> failP ENOENT))"

definition chmod_path :: "string \<Rightarrow> u16 \<Rightarrow> ('d vfs, unit, error_code) prog" where
  "chmod_path path new_mode =
     bindP (getP (\<lambda>v. resolve_mount_path v path)) (\<lambda>m.
     case m of
       Some (_, rel_path, FsDisk) \<Rightarrow> failP EROFS
     | Some (_, rel_path, FsTmpfs) \<Rightarrow> bindP (tmpfs_lookup rel_path) (\<lambda>i. tmpfs_chmod i new_mode)
     | Some (_, rel_path, FsFat32) \<Rightarrow> failP EROFS
     | None \<Rightarrow>
         bindP (getP (\<lambda>v. lookup_node v path)) (\<lambda>found.
         bindP (liftR (ok_or found ENOENT)) (\<lambda>(node_index, node).
         let final_mode = (fn_mode node AND S_IFMT) OR (new_mode AND 511) in
         modP (\<lambda>v. v\<lparr>FILE_MODES := Some (bt_insert node_index final_mode (get_or_new (FILE_MODES v)))\<rparr>))))"

definition chown_path :: "string \<Rightarrow> u32 \<Rightarrow> u32 \<Rightarrow> ('d vfs, unit, error_code) prog" where
  "chown_path path uid gid =
     bindP (getP (\<lambda>v. resolve_mount_path v path)) (\<lambda>m.
     case m of
       Some (_, _, FsDisk) \<Rightarrow> failP EROFS
     | Some (_, _, FsTmpfs) \<Rightarrow> failP ENOSYS
     | Some (_, _, FsFat32) \<Rightarrow> failP EROFS
     | None \<Rightarrow>
         bindP (getP (\<lambda>v. lookup_node v path)) (\<lambda>found.
         bindP (liftR (ok_or found ENOENT)) (\<lambda>(node_index, node).
         bindP (getP (\<lambda>v. node_owner v node_index node)) (\<lambda>(cur_uid, cur_gid).
         let new_uid = (if uid = - 1 then cur_uid else uid);
             new_gid = (if gid = - 1 then cur_gid else gid)
         in
         modP (\<lambda>v. v\<lparr>FILE_OWNERSHIP := Some (bt_insert node_index (new_uid, new_gid) (get_or_new (FILE_OWNERSHIP v)))\<rparr>)))))"

definition fstat_fd :: "'d rd_op \<Rightarrow> int \<Rightarrow> ('d vfs \<times> fd_table, file_metadata, error_code) prog" where
  "fstat_fd rd fd =
     bindP (getP (\<lambda>(v, t). fd_get t fd)) (\<lambda>r.
     bindP (liftR r) (\<lambda>kind.
     case kind of
       FdFile opn _ \<Rightarrow>
         bindP (liftR (ok_or (files_get (of_node_index opn)) ENOENT)) (\<lambda>node.
         getP (\<lambda>(v, t). node_metadata v (of_node_index opn) node))
     | FdDirectory opn \<Rightarrow>
         bindP (liftR (ok_or (files_get (of_node_index opn)) ENOENT)) (\<lambda>node.
         getP (\<lambda>(v, t). case node_owner v (of_node_index opn) node of
           (uid, gid) \<Rightarrow> \<lparr>md_file_type = fn_file_type node, md_size = 0,
              md_mode = node_mode v (of_node_index opn) node, md_uid = uid, md_gid = gid\<rparr>))
     | FdDiskFile opn \<Rightarrow> on_fst (diskfs_stat rd (od_inode opn))
     | FdDiskDirectory opn \<Rightarrow> on_fst (diskfs_stat rd (od_inode opn))
     | FdTmpfsFile opn \<Rightarrow> on_fst (tmpfs_stat (ot_inode opn))
     | FdTmpfsDirectory opn \<Rightarrow> on_fst (tmpfs_stat (ot_inode opn))
     | FdFat32File opn \<Rightarrow>
         retP (fat32_stat \<lparr>h_cluster = ofa_cluster opn, h_size = ofa_size opn, h_is_dir = ofa_is_dir opn\<rparr>)
     | FdFat32Directory opn \<Rightarrow>
         retP (fat32_stat \<lparr>h_cluster = ofa_cluster opn, h_size = ofa_size opn, h_is_dir = ofa_is_dir opn\<rparr>)
     | PipeRead _ \<Rightarrow> failP EBADF
     | PipeWrite _ \<Rightarrow> failP EBADF))"

text \<open>A read into a fresh buffer that is then cut to the count.\<close>

definition read_whole :: "nat \<Rightarrow> ('d vfs \<times> bytes, nat, error_code) prog \<Rightarrow> ('d vfs, bytes, error_code) prog" where
  "read_whole n m v =
     (case m (v, replicate n 0) of
        Panic \<Rightarrow> Panic
      | Ret ((v', buffer), Ok k) \<Rightarrow> Ret (v', Ok (take k buffer))
      | Ret ((v', buffer), Err e) \<Rightarrow> Ret (v', Err e))"

definition read_file_to_vec :: "'d rd_op \<Rightarrow> (string \<Rightarrow> string) \<Rightarrow> string \<Rightarrow> ('d vfs, bytes, error_code) prog" where
  "read_file_to_vec rd ulower path =
     bindP (stat_path rd ulower path) (\<lambda>metadata.
     if md_file_type metadata \<noteq> FileT then failP EISDIR
     else
       let file_size = unat (md_size metadata) in
       if file_size = 0 then retP []
       else
         bindP (getP (\<lambda>v. resolve_mount_path v path)) (\<lambda>m.
         case m of
           Some (_, rel_path, FsDisk) \<Rightarrow>
             bindP (diskfs_lookup rd rel_path) (\<lambda>i. read_whole file_size (diskfs_read rd i 0))
         | Some (_, rel_path, FsTmpfs) \<Rightarrow>
             bindP (tmpfs_lookup rel_path) (\<lambda>i.
             bindP (tmpfs_read i 0 (replicate file_size 0)) (\<lambda>(bytes_read, buffer). retP (take bytes_read buffer)))
         | Some (_, rel_path, FsFat32) \<Rightarrow>
             bindP (fat32_lookup rd ulower rel_path) (\<lambda>h.
             read_whole file_size (fat32_read rd (h_cluster h) (h_size h) 0))
         | None \<Rightarrow> liftR (ok_or (lookup path) ENOENT)))"

end
