(* ===== verification/Pid.thy ===== *)
theory Pid
  imports Panda_Prelude
begin

text \<open>
  Process identifiers, \<open>hal/src/pid.rs\<close>. \<open>fetch_add\<close> wraps around at \<open>2 ^ 64\<close>; the
  allocator hands out distinct identifiers until then.
\<close>

datatype pid = Pid (as_u64: u64)

definition PID_INIT :: pid where
  "PID_INIT = Pid 1"

definition PID_KERNEL :: pid where
  "PID_KERNEL = Pid 0"

record pid_allocator =
  next_pid :: u64

definition pid_allocator_new :: "u64 \<Rightarrow> pid_allocator" where
  "pid_allocator_new start_pid = \<lparr>next_pid = start_pid\<rparr>"

definition pid_allocate :: "pid_allocator \<Rightarrow> pid_allocator \<times> pid" where
  "pid_allocate a = (a\<lparr>next_pid := next_pid a + 1\<rparr>, Pid (next_pid a))"

definition pid_peek :: "pid_allocator \<Rightarrow> pid" where
  "pid_peek a = Pid (next_pid a)"

definition pid_allocator_default :: pid_allocator where
  "pid_allocator_default = pid_allocator_new 2"

text \<open>The identifiers of \<open>n\<close> allocations in a row.\<close>

fun pid_allocate_many :: "nat \<Rightarrow> pid_allocator \<Rightarrow> pid list" where
  "pid_allocate_many 0 a = []"
| "pid_allocate_many (Suc n) a = (let (a', p) = pid_allocate a in p # pid_allocate_many n a')"

lemma pid_allocate_many_eq:
  "pid_allocate_many n a = map (\<lambda>k. Pid (next_pid a + of_nat k)) [0..<n]"
proof (induction n arbitrary: a)
  case 0
  then show ?case by simp
next
  case (Suc n)
  have "map (\<lambda>k. Pid (next_pid a + of_nat k)) [0..<Suc n]
      = Pid (next_pid a) # map (\<lambda>k. Pid (next_pid a + of_nat (Suc k))) [0..<n]"
    by (simp add: upt_conv_Cons map_Suc_upt [symmetric] del: upt_Suc)
  with Suc show ?case by (simp add: pid_allocate_def ac_simps del: upt_Suc)
qed

lemma of_nat_inj_below:
  "i < 2 ^ 64 \<Longrightarrow> j < 2 ^ 64 \<Longrightarrow> (of_nat i :: u64) = of_nat j \<Longrightarrow> i = j"
  by (simp add: word_of_nat_eq_iff take_bit_nat_eq_self)

text \<open>The first \<open>2 ^ 64 - 2\<close> process identifiers of the default allocator are pairwise
  distinct, and none of them is the identifier of the kernel or of init.\<close>

theorem pids_distinct:
  assumes "n \<le> 2 ^ 64 - 2"
  shows "distinct (pid_allocate_many n pid_allocator_default)
     \<and> PID_INIT \<notin> set (pid_allocate_many n pid_allocator_default)
     \<and> PID_KERNEL \<notin> set (pid_allocate_many n pid_allocator_default)"
proof -
  have eq: "pid_allocate_many n pid_allocator_default = map (\<lambda>k. Pid (of_nat (k + 2))) [0..<n]"
    by (simp add: pid_allocate_many_eq pid_allocator_default_def pid_allocator_new_def add.commute)
  have "inj_on (\<lambda>k. Pid (of_nat (k + 2) :: u64)) {0..<n}"
  proof (rule inj_onI)
    fix x y assume "x \<in> {0..<n}" "y \<in> {0..<n}" "Pid (of_nat (x + 2)) = Pid (of_nat (y + 2) :: u64)"
    then show "x = y" using of_nat_inj_below [of "x + 2" "y + 2"] assms by auto
  qed
  moreover have "(of_nat (k + 2) :: u64) \<noteq> of_nat j" if "k < n" "j < 2" for k j
    using of_nat_inj_below [of "k + 2" j] that assms by auto
  from this [of _ 0] this [of _ 1]
  have "PID_INIT \<notin> set (map (\<lambda>k. Pid (of_nat (k + 2))) [0..<n])"
    "PID_KERNEL \<notin> set (map (\<lambda>k. Pid (of_nat (k + 2))) [0..<n])"
    unfolding PID_INIT_def PID_KERNEL_def by (auto simp del: of_nat_add of_nat_numeral)
  ultimately show ?thesis
    unfolding eq by (simp only: distinct_map distinct_upt set_upt simp_thms)
qed

theorem pids_distinct_witness:
  "distinct (pid_allocate_many 1000 pid_allocator_default)"
  using pids_distinct [of 1000] by simp

end
