(* ===== verification/Process.thy ===== *)
theory Process
  imports Pid
begin

unbundle bit_operations_syntax

text \<open>
  The process structure of \<open>kernel/src/process.rs\<close> and its operations on the state, the wait
  state and the pending signals. The saved processor context and the table of file descriptors
  are type parameters: nothing in this file and nothing in the scheduler looks into them.
\<close>

section \<open>Data\<close>

definition PROT_READ :: u32 where
  "PROT_READ = 0x1"

definition PROT_WRITE :: u32 where
  "PROT_WRITE = 0x2"

definition PROT_EXEC :: u32 where
  "PROT_EXEC = 0x4"

definition PROT_NONE :: u32 where
  "PROT_NONE = 0x0"

definition MAP_PRIVATE :: u32 where
  "MAP_PRIVATE = 0x02"

definition MAP_ANONYMOUS :: u32 where
  "MAP_ANONYMOUS = 0x20"

datatype vm_region_type = RegionCode | RegionData | RegionHeap | RegionStack | RegionAnonymous

record vm_region =
  vr_start_addr :: u64
  vr_end_addr :: u64
  vr_flags :: u32
  vr_region_type :: vm_region_type
  vr_file_backed :: bool
  vr_file_offset :: u64

record memory_mapping =
  mm_addr :: u64
  mm_length :: u64
  mm_prot :: u32
  mm_flags :: u32

record heap_info =
  heap_start :: u64
  heap_end :: u64
  heap_limit :: u64

text \<open>\<open>HeapInfo::new\<close>: both additions panic on overflow.\<close>

definition heap_info_new :: "u64 \<Rightarrow> heap_info outcome" where
  "heap_info_new start =
     (if unat start + 0xFFF < 2 ^ 64 then
        (let aligned_start = (start + 0xFFF) AND NOT 0xFFF in
         if unat aligned_start + 0x40000000 < 2 ^ 64
         then Ret \<lparr>heap_start = aligned_start, heap_end = aligned_start,
                   heap_limit = aligned_start + 0x40000000\<rparr>
         else Panic)
      else Panic)"

datatype signal = SIGINT | SIGCONT | SIGTSTP

primrec signal_num :: "signal \<Rightarrow> nat" where
  "signal_num SIGINT = 2"
| "signal_num SIGCONT = 18"
| "signal_num SIGTSTP = 20"

definition signal_from_u32 :: "u32 \<Rightarrow> signal option" where
  "signal_from_u32 n =
     (if n = 2 then Some SIGINT else if n = 18 then Some SIGCONT
      else if n = 20 then Some SIGTSTP else None)"

datatype signal_action = NoAction | Terminate | Stop | Continue

datatype wait_state = NotWaiting | WaitingForAnyChild | WaitingForChild pid

datatype process_state = Ready | Running | Stopped | Exited int | Zombie int

record ('c, 'f) process =
  pr_pid :: pid
  pr_pgid :: pid
  parent_pid :: "pid option"
  pr_state :: process_state
  pr_wait_state :: wait_state
  pr_uid :: u32
  pr_gid :: u32
  entry_point :: u64
  user_stack_ptr :: u64
  kernel_stack_ptr :: u64
  page_table_phys :: u64
  pr_context :: 'c
  fd_table :: 'f
  pending_signals :: u32
  cwd :: string
  path_env :: string
  environ :: "string \<rightharpoonup> string"
  heap :: heap_info
  mappings :: "memory_mapping list"
  mmap_base :: u64
  vm_regions :: "vm_region list"

section \<open>State\<close>

definition set_running :: "('c, 'f) process \<Rightarrow> ('c, 'f) process" where
  "set_running p = p\<lparr>pr_state := Running\<rparr>"

definition set_exited :: "int \<Rightarrow> ('c, 'f) process \<Rightarrow> ('c, 'f) process" where
  "set_exited code p = p\<lparr>pr_state := Exited code\<rparr>"

definition is_exited :: "('c, 'f) process \<Rightarrow> bool" where
  "is_exited p \<longleftrightarrow> (case pr_state p of Exited c \<Rightarrow> True | Zombie c \<Rightarrow> True | _ \<Rightarrow> False)"

definition exit_code :: "('c, 'f) process \<Rightarrow> int option" where
  "exit_code p = (case pr_state p of Exited c \<Rightarrow> Some c | Zombie c \<Rightarrow> Some c | _ \<Rightarrow> None)"

definition set_zombie :: "int \<Rightarrow> ('c, 'f) process \<Rightarrow> ('c, 'f) process" where
  "set_zombie code p = p\<lparr>pr_state := Zombie code\<rparr>"

definition is_zombie :: "('c, 'f) process \<Rightarrow> bool" where
  "is_zombie p \<longleftrightarrow> (case pr_state p of Zombie c \<Rightarrow> True | _ \<Rightarrow> False)"

definition set_stopped :: "('c, 'f) process \<Rightarrow> ('c, 'f) process" where
  "set_stopped p = p\<lparr>pr_state := Stopped\<rparr>"

definition is_stopped :: "('c, 'f) process \<Rightarrow> bool" where
  "is_stopped p \<longleftrightarrow> (case pr_state p of Stopped \<Rightarrow> True | _ \<Rightarrow> False)"

definition resume :: "('c, 'f) process \<Rightarrow> ('c, 'f) process" where
  "resume p = (if is_stopped p then p\<lparr>pr_state := Ready\<rparr> else p)"

section \<open>Signals\<close>

definition send_signal :: "signal \<Rightarrow> ('c, 'f) process \<Rightarrow> ('c, 'f) process outcome" where
  "send_signal s p =
     (if signal_num s < 32
      then Ret (p\<lparr>pending_signals := pending_signals p OR push_bit (signal_num s) 1\<rparr>)
      else Panic)"

definition has_signal :: "signal \<Rightarrow> ('c, 'f) process \<Rightarrow> bool" where
  "has_signal s p \<longleftrightarrow> pending_signals p AND push_bit (signal_num s) 1 \<noteq> 0"

definition clear_signal :: "signal \<Rightarrow> ('c, 'f) process \<Rightarrow> ('c, 'f) process" where
  "clear_signal s p = p\<lparr>pending_signals := pending_signals p AND NOT (push_bit (signal_num s) 1)\<rparr>"

definition deliver_signals :: "('c, 'f) process \<Rightarrow> ('c, 'f) process \<times> signal_action" where
  "deliver_signals p =
     (if has_signal SIGCONT p then
        (let p1 = clear_signal SIGCONT p in
         (if is_stopped p1 then resume p1 else p1, Continue))
      else if has_signal SIGTSTP p then (clear_signal SIGTSTP p, Stop)
      else if has_signal SIGINT p then (clear_signal SIGINT p, Terminate)
      else (p, NoAction))"

section \<open>Waiting\<close>

definition is_blocked :: "('c, 'f) process \<Rightarrow> bool" where
  "is_blocked p \<longleftrightarrow> \<not> (case pr_wait_state p of NotWaiting \<Rightarrow> True | _ \<Rightarrow> False)"

definition block_on_any_child :: "('c, 'f) process \<Rightarrow> ('c, 'f) process" where
  "block_on_any_child p = p\<lparr>pr_wait_state := WaitingForAnyChild\<rparr>"

definition block_on_child :: "pid \<Rightarrow> ('c, 'f) process \<Rightarrow> ('c, 'f) process" where
  "block_on_child child p = p\<lparr>pr_wait_state := WaitingForChild child\<rparr>"

definition wake :: "('c, 'f) process \<Rightarrow> ('c, 'f) process" where
  "wake p = p\<lparr>pr_wait_state := NotWaiting\<rparr>"

definition should_wake_on_child_exit :: "pid \<Rightarrow> ('c, 'f) process \<Rightarrow> bool" where
  "should_wake_on_child_exit child p \<longleftrightarrow>
     (case pr_wait_state p of WaitingForAnyChild \<Rightarrow> True | WaitingForChild q \<Rightarrow> q = child
      | NotWaiting \<Rightarrow> False)"

section \<open>Lemmas\<close>

named_theorems process_defs

lemmas [process_defs] = set_running_def set_exited_def set_zombie_def set_stopped_def wake_def
  block_on_any_child_def block_on_child_def

lemma signal_num_lt: "signal_num s < 32"
  by (cases s) simp_all

lemma signal_num_inj: "signal_num s = signal_num t \<longleftrightarrow> s = t"
  by (cases s; cases t) simp_all

lemma has_signal_bit: "has_signal s p \<longleftrightarrow> bit (pending_signals p) (signal_num s)"
  by (simp only: has_signal_def and_bit_nonzero)

lemma has_signal_clear: "has_signal s (clear_signal t p) \<longleftrightarrow> s \<noteq> t \<and> has_signal s p"
  using signal_num_lt [of s]
  by (auto simp: has_signal_bit clear_signal_def bit_simps signal_num_inj)

lemma has_signal_send:
  "send_signal t p = Ret q \<Longrightarrow> has_signal s q \<longleftrightarrow> s = t \<or> has_signal s p"
  using signal_num_lt [of s]
  by (auto simp: has_signal_bit send_signal_def bit_simps signal_num_inj split: if_splits)

lemma send_signal_total: "\<exists>q. send_signal s p = Ret q"
  by (simp add: send_signal_def signal_num_lt)

lemma should_wake_blocked: "should_wake_on_child_exit c p \<Longrightarrow> is_blocked p"
  by (auto simp: should_wake_on_child_exit_def is_blocked_def split: wait_state.splits)

lemma deliver_signals_fields:
  "deliver_signals p = (q, act) \<Longrightarrow>
     pr_pid q = pr_pid p \<and> pr_wait_state q = pr_wait_state p \<and> parent_pid q = parent_pid p \<and> pr_pgid q = pr_pgid p"
  by (auto simp: deliver_signals_def Let_def clear_signal_def resume_def split: if_splits)

lemma deliver_signals_consumes:
  assumes "deliver_signals p = (q, act)"
  shows "if act = NoAction then q = p \<and> (\<forall>s. \<not> has_signal s p)
         else \<exists>t. has_signal t p \<and> (\<forall>s. has_signal s q \<longleftrightarrow> has_signal s p \<and> s \<noteq> t)"
proof -
  have r: "has_signal s (resume p') \<longleftrightarrow> has_signal s p'" for s and p' :: "('a, 'b) process"
    by (simp add: resume_def has_signal_def)
  have "\<not> has_signal s p" if "\<not> has_signal SIGCONT p" "\<not> has_signal SIGTSTP p" "\<not> has_signal SIGINT p" for s
    using that by (cases s) auto
  with assms show ?thesis
    by (auto simp: deliver_signals_def Let_def has_signal_clear r split: if_splits)
qed

end
