(* ===== verification/Scheduler.thy ===== *)
theory Scheduler
  imports Process Kernel_Errors "HOL-Library.Multiset"
begin

text \<open>
  The round-robin scheduler of \<open>kernel/src/scheduler.rs\<close> and the part of
  \<open>exit_handler\<close> (\<open>kernel/src/main.rs\<close>) that changes it. The ready queue is the list
  of its processes from front to back.
\<close>

section \<open>The scheduler of the source\<close>

record ('c, 'f) scheduler =
  ready_queue :: "('c, 'f) process list"
  current :: "('c, 'f) process option"
  foreground_pgid :: "pid option"

definition scheduler_new :: "('c, 'f) scheduler" where
  "scheduler_new = \<lparr>ready_queue = [], current = None, foreground_pgid = None\<rparr>"

definition add_process :: "('c, 'f) scheduler \<Rightarrow> ('c, 'f) process \<Rightarrow> ('c, 'f) scheduler outcome" where
  "add_process s p =
     (if pr_state p = Ready
      then Ret (s\<lparr>ready_queue := ready_queue s @ [p\<lparr>pr_state := Ready\<rparr>]\<rparr>)
      else Panic)"

definition wake_on_exit :: "pid \<Rightarrow> ('c, 'f) process \<Rightarrow> ('c, 'f) process" where
  "wake_on_exit child p = (if should_wake_on_child_exit child p then wake p else p)"

definition wake_waiters_for_child :: "('c, 'f) scheduler \<Rightarrow> pid \<Rightarrow> ('c, 'f) scheduler" where
  "wake_waiters_for_child s child =
     s\<lparr>current := map_option (wake_on_exit child) (current s),
       ready_queue := map (wake_on_exit child) (ready_queue s)\<rparr>"

definition wake_waiters_for_stopped_child :: "('c, 'f) scheduler \<Rightarrow> pid \<Rightarrow> ('c, 'f) scheduler" where
  "wake_waiters_for_stopped_child s child = wake_waiters_for_child s child"

text \<open>The first half of \<open>schedule_next\<close>: put the current process back.\<close>

definition requeue_current :: "('c, 'f) scheduler \<Rightarrow> ('c, 'f) scheduler" where
  "requeue_current s =
     (case current s of
        None \<Rightarrow> s
      | Some p \<Rightarrow>
          let s = s\<lparr>current := None\<rparr> in
          if is_exited p then s
          else case deliver_signals p of
                 (q, Terminate) \<Rightarrow> s
               | (q, Stop) \<Rightarrow>
                   let q' = set_stopped q in
                   wake_waiters_for_stopped_child (s\<lparr>ready_queue := ready_queue s @ [q']\<rparr>) (pr_pid q)
               | (q, _) \<Rightarrow>
                   let q' = (if pending_signals q \<noteq> 0 then wake q else q) in
                   s\<lparr>ready_queue := ready_queue s @ [q'\<lparr>pr_state := Ready\<rparr>]\<rparr>)"

text \<open>The second half: \<open>for _ in 0..ready_count\<close>, skip blocked and stopped processes.\<close>

fun schedule_loop :: "nat \<Rightarrow> ('c, 'f) process list \<Rightarrow> ('c, 'f) process list \<times> ('c, 'f) process option" where
  "schedule_loop 0 q = (q, None)"
| "schedule_loop (Suc n) [] = schedule_loop n []"
| "schedule_loop (Suc n) (p # ps) =
     (if is_blocked p \<or> is_stopped p then schedule_loop n (ps @ [p])
      else (ps, Some (p\<lparr>pr_state := Running\<rparr>)))"

definition schedule_next :: "('c, 'f) scheduler \<Rightarrow> ('c, 'f) scheduler" where
  "schedule_next s =
     (let s1 = requeue_current s in
      case schedule_loop (length (ready_queue s1)) (ready_queue s1) of
        (q, None) \<Rightarrow> s1\<lparr>ready_queue := q\<rparr>
      | (q, Some p) \<Rightarrow> s1\<lparr>ready_queue := q, current := Some p\<rparr>)"

definition exit_current :: "('c, 'f) scheduler \<Rightarrow> int \<Rightarrow> ('c, 'f) scheduler \<times> bool" where
  "exit_current s code =
     (case current s of
        Some p \<Rightarrow> (s\<lparr>current := Some (set_exited code p)\<rparr>, True)
      | None \<Rightarrow> (s, False))"

definition remove_exited :: "('c, 'f) scheduler \<Rightarrow> ('c, 'f) scheduler \<times> nat" where
  "remove_exited s =
     (let q = filter (\<lambda>p. \<not> is_exited p) (ready_queue s);
          removed = length (ready_queue s) - length q;
          s1 = s\<lparr>ready_queue := q\<rparr>
      in case current s of
           Some p \<Rightarrow> if is_exited p then (s1\<lparr>current := None\<rparr>, removed + 1) else (s1, removed)
         | None \<Rightarrow> (s1, removed))"

definition ready_count :: "('c, 'f) scheduler \<Rightarrow> nat" where
  "ready_count s = length (ready_queue s)"

definition total_count :: "('c, 'f) scheduler \<Rightarrow> nat" where
  "total_count s = length (ready_queue s) + (if current s \<noteq> None then 1 else 0)"

definition has_runnable :: "('c, 'f) scheduler \<Rightarrow> bool" where
  "has_runnable s \<longleftrightarrow> ready_queue s \<noteq> [] \<or> current s \<noteq> None"

definition yield_current :: "('c, 'f) scheduler \<Rightarrow> ('c, 'f) scheduler \<times> bool" where
  "yield_current s = (if current s \<noteq> None then (schedule_next s, True) else (s, False))"

text \<open>\<open>position\<close> and \<open>remove(pos)\<close>: take the first process with the property out of the queue.\<close>

fun take_first :: "('a \<Rightarrow> bool) \<Rightarrow> 'a list \<Rightarrow> 'a option \<times> 'a list" where
  "take_first P [] = (None, [])"
| "take_first P (x # xs) =
     (if P x then (Some x, xs) else (case take_first P xs of (r, ys) \<Rightarrow> (r, x # ys)))"

definition find_zombie_child :: "('c, 'f) scheduler \<Rightarrow> pid \<Rightarrow> ('c, 'f) scheduler \<times> ('c, 'f) process option" where
  "find_zombie_child s parent =
     (let in_queue = (case take_first (\<lambda>p. is_zombie p \<and> parent_pid p = Some parent) (ready_queue s) of
                        (r, q) \<Rightarrow> (s\<lparr>ready_queue := q\<rparr>, r))
      in case current s of
           Some p \<Rightarrow> if is_zombie p \<and> parent_pid p = Some parent
                     then (s\<lparr>current := None\<rparr>, Some p) else in_queue
         | None \<Rightarrow> in_queue)"

definition find_any_zombie_child :: "('c, 'f) scheduler \<Rightarrow> pid \<Rightarrow> ('c, 'f) scheduler \<times> ('c, 'f) process option" where
  "find_any_zombie_child s parent = find_zombie_child s parent"

definition has_children :: "('c, 'f) scheduler \<Rightarrow> pid \<Rightarrow> bool" where
  "has_children s parent \<longleftrightarrow>
     (case current s of Some p \<Rightarrow> parent_pid p = Some parent | None \<Rightarrow> False)
     \<or> list_ex (\<lambda>p. parent_pid p = Some parent) (ready_queue s)"

definition has_stopped_children :: "('c, 'f) scheduler \<Rightarrow> pid \<Rightarrow> bool" where
  "has_stopped_children s parent \<longleftrightarrow>
     (case current s of Some p \<Rightarrow> parent_pid p = Some parent \<and> is_stopped p | None \<Rightarrow> False)
     \<or> list_ex (\<lambda>p. parent_pid p = Some parent \<and> is_stopped p) (ready_queue s)"

definition find_stopped_child :: "('c, 'f) scheduler \<Rightarrow> pid \<Rightarrow> pid option" where
  "find_stopped_child s parent =
     (let in_queue = map_option pr_pid
            (List.find (\<lambda>p. is_stopped p \<and> parent_pid p = Some parent) (ready_queue s))
      in case current s of
           Some p \<Rightarrow> if is_stopped p \<and> parent_pid p = Some parent then Some (pr_pid p) else in_queue
         | None \<Rightarrow> in_queue)"

definition all_processes :: "('c, 'f) scheduler \<Rightarrow> ('c, 'f) process list" where
  "all_processes s = (case current s of Some p \<Rightarrow> [p] | None \<Rightarrow> []) @ ready_queue s"

definition set_foreground_pgid :: "('c, 'f) scheduler \<Rightarrow> pid option \<Rightarrow> ('c, 'f) scheduler" where
  "set_foreground_pgid s g = s\<lparr>foreground_pgid := g\<rparr>"

fun signal_queue :: "pid \<Rightarrow> signal \<Rightarrow> ('c, 'f) process list \<Rightarrow> (('c, 'f) process list \<times> nat) outcome" where
  "signal_queue g sig [] = Ret ([], 0)"
| "signal_queue g sig (p # ps) =
     bindO (if pr_pgid p = g then bindO (send_signal sig p) (\<lambda>p'. Ret (p', 1)) else Ret (p, 0)) (\<lambda>(p', n).
     bindO (signal_queue g sig ps) (\<lambda>(ps', m). Ret (p' # ps', n + m)))"

definition signal_process_group ::
  "('c, 'f) scheduler \<Rightarrow> pid \<Rightarrow> signal \<Rightarrow> (('c, 'f) scheduler \<times> nat) outcome" where
  "signal_process_group s g sig =
     bindO (case current s of
              Some p \<Rightarrow> if pr_pgid p = g
                        then bindO (send_signal sig p) (\<lambda>p'. Ret (s\<lparr>current := Some p'\<rparr>, 1))
                        else Ret (s, 0)
            | None \<Rightarrow> Ret (s, 0)) (\<lambda>(s1, n).
     bindO (signal_queue g sig (ready_queue s1)) (\<lambda>(q, m).
       Ret (s1\<lparr>ready_queue := q\<rparr>, n + m)))"

text \<open>\<open>exit_handler\<close> of \<open>kernel/src/main.rs\<close>, up to the switch to the next process: the current
  process becomes a zombie if it has a parent and exited otherwise, its waiters are woken, and the
  next process is scheduled. The second component is the argument of \<open>set_pending_reap\<close>, the
  page table and the identifier to free after the switch, for a process without parent.\<close>

definition exit_handler :: "('c, 'f) scheduler \<Rightarrow> int \<Rightarrow> ('c, 'f) scheduler \<times> (u64 \<times> u64) option" where
  "exit_handler s status =
     (case current s of
        Some p \<Rightarrow>
          let has_parent = (parent_pid p \<noteq> None);
              p' = (if has_parent then set_zombie status p else set_exited status p);
              s1 = wake_waiters_for_child (s\<lparr>current := Some p'\<rparr>) (pr_pid p);
              reap = (if has_parent then None else Some (page_table_phys p, as_u64 (pr_pid p)))
          in (schedule_next s1, reap)
      | None \<Rightarrow> (schedule_next s, None))"

text \<open>\<open>kill_handler\<close> of \<open>kernel/src/main.rs\<close>; \<open>pid\<close> and \<open>sig\<close> are 32-bit signed
  integers, and negating the least of them panics.\<close>

definition kill_handler ::
  "('c, 'f) scheduler \<Rightarrow> int \<Rightarrow> int \<Rightarrow> (('c, 'f) scheduler \<times> (u64, error_code) result) outcome" where
  "kill_handler s pid sig =
     (case signal_from_u32 (word_of_int sig) of
        None \<Rightarrow> Ret (s, Err EINVAL)
      | Some signal \<Rightarrow>
          if pid > 0 then
            (case current s of
               Some p \<Rightarrow>
                 if pr_pid p = Pid (word_of_int pid)
                 then bindO (send_signal signal p) (\<lambda>p'. Ret (s\<lparr>current := Some p'\<rparr>, Ok 0))
                 else Ret (s, Err ESRCH)
             | None \<Rightarrow> Ret (s, Err ESRCH))
          else if pid < 0 then
            (if pid = - (2 ^ 31) then Panic
             else bindO (signal_process_group s (Pid (word_of_int (- pid))) signal) (\<lambda>(s', count).
                    Ret (s', if count > 0 then Ok 0 else Err ESRCH)))
          else Ret (s, Err EINVAL))"

definition signal_handler :: "('c, 'f) scheduler \<Rightarrow> ('c, 'f) scheduler outcome" where
  "signal_handler s =
     (case foreground_pgid s of
        Some g \<Rightarrow> bindO (signal_process_group s g SIGINT) (\<lambda>(s', n). Ret s')
      | None \<Rightarrow> Ret s)"

definition stop_signal_handler :: "('c, 'f) scheduler \<Rightarrow> ('c, 'f) scheduler outcome" where
  "stop_signal_handler s =
     (case foreground_pgid s of
        Some g \<Rightarrow> bindO (signal_process_group s g SIGTSTP) (\<lambda>(s', n). Ret s')
      | None \<Rightarrow> Ret s)"

section \<open>The choice of the next process\<close>

definition idle :: "('c, 'f) process \<Rightarrow> bool" where
  "idle p \<longleftrightarrow> is_blocked p \<or> is_stopped p"

lemma schedule_loop_rotate:
  "\<forall>p \<in> set as. idle p \<Longrightarrow> schedule_loop (length as + m) (as @ bs) = schedule_loop m (bs @ as)"
proof (induction as arbitrary: bs)
  case Nil
  then show ?case by simp
next
  case (Cons a as)
  then show ?case using Cons.IH [of "bs @ [a]"] by (simp add: idle_def)
qed

lemma schedule_loop_all_idle:
  "\<forall>p \<in> set q. idle p \<Longrightarrow> schedule_loop (length q) q = (q, None)"
  using schedule_loop_rotate [of q 0 "[]"] by simp

lemma schedule_loop_first:
  "\<forall>p \<in> set as. idle p \<Longrightarrow> \<not> idle p \<Longrightarrow>
   schedule_loop (length (as @ p # bs)) (as @ p # bs) = (bs @ as, Some (p\<lparr>pr_state := Running\<rparr>))"
  using schedule_loop_rotate [of as "Suc (length bs)" "p # bs"] by (simp add: idle_def)

lemma split_first_runnable:
  "(\<forall>p \<in> set q. idle p) \<or> (\<exists>as p bs. q = as @ p # bs \<and> (\<forall>p \<in> set as. idle p) \<and> \<not> idle p)"
  using split_list_first_prop [of q "\<lambda>p. \<not> idle p"] by blast

lemma requeue_current_None [simp]: "current (requeue_current s) = None"
  by (auto simp: requeue_current_def Let_def wake_waiters_for_stopped_child_def wake_waiters_for_child_def
      split: option.splits prod.splits signal_action.splits)

lemma schedule_next_cases:
  obtains (idle) "\<forall>p \<in> set (ready_queue (requeue_current s)). idle p" "schedule_next s = requeue_current s"
  | (run) as p bs where "ready_queue (requeue_current s) = as @ p # bs" "\<forall>p \<in> set as. idle p" "\<not> idle p"
      "schedule_next s = (requeue_current s)\<lparr>ready_queue := bs @ as, current := Some (p\<lparr>pr_state := Running\<rparr>)\<rparr>"
proof -
  consider "\<forall>p \<in> set (ready_queue (requeue_current s)). idle p"
    | as p bs where "ready_queue (requeue_current s) = as @ p # bs" "\<forall>p \<in> set as. idle p" "\<not> idle p"
    using split_first_runnable by blast
  then show thesis
  proof cases
    case 1
    then show thesis by (intro that(1)) (auto simp: schedule_next_def schedule_loop_all_idle)
  next
    case 2
    then have "schedule_next s = (requeue_current s)\<lparr>ready_queue := bs @ as, current := Some (p\<lparr>pr_state := Running\<rparr>)\<rparr>"
      by (simp add: schedule_next_def schedule_loop_first [simplified])
    with 2 show thesis by (rule that(2))
  qed
qed

section \<open>Conservation\<close>

text \<open>The process that \<open>schedule_next\<close> drops: the current one, if it has exited or is
  terminated by a signal.\<close>

definition dropped :: "('c, 'f) scheduler \<Rightarrow> pid list" where
  "dropped s = (case current s of
     Some p \<Rightarrow> if is_exited p \<or> snd (deliver_signals p) = Terminate then [pr_pid p] else []
   | None \<Rightarrow> [])"

definition all_pids :: "('c, 'f) scheduler \<Rightarrow> pid multiset" where
  "all_pids s = mset (map pr_pid (all_processes s))"

lemma pr_pid_wake_on_exit [simp]: "pr_pid (wake_on_exit c p) = pr_pid p"
  by (simp add: wake_on_exit_def wake_def)

lemma map_pid_wake [simp]: "map (pr_pid \<circ> wake_on_exit c) ps = map pr_pid ps"
  by simp

lemma requeue_current_pids: "all_pids s = all_pids (requeue_current s) + mset (dropped s)"
proof (cases "current s")
  case None
  then show ?thesis by (simp add: requeue_current_def dropped_def)
next
  case (Some p)
  obtain q act where d: "deliver_signals p = (q, act)" by fastforce
  have "pr_pid q = pr_pid p" using deliver_signals_fields [OF d] by simp
  with Some d show ?thesis
    by (cases act) (auto simp: requeue_current_def dropped_def all_pids_def all_processes_def Let_def
        wake_waiters_for_stopped_child_def wake_waiters_for_child_def process_defs
        multiset.map_comp comp_def)
qed

text \<open>C18: \<open>schedule_next\<close> loses no process and makes none up: the identifiers of the processes
  before the call are those after it together with that of the current process in case it has
  exited or a pending signal terminates it.\<close>

theorem schedule_next_conserves:
  "all_pids s = all_pids (schedule_next s) + mset (dropped s)"
proof (cases s rule: schedule_next_cases)
  case idle
  then show ?thesis using requeue_current_pids [of s] by simp
next
  case (run as p bs)
  then have "all_pids (schedule_next s) = all_pids (requeue_current s)"
    by (simp add: all_pids_def all_processes_def)
  then show ?thesis using requeue_current_pids [of s] by simp
qed

section \<open>Progress\<close>

lemma wake_on_exit_idle: "\<not> idle p \<Longrightarrow> wake_on_exit c p = p"
  using should_wake_blocked by (auto simp: wake_on_exit_def idle_def)

lemma pr_state_wake_on_exit [simp]: "pr_state (wake_on_exit c p) = pr_state p"
  by (simp add: wake_on_exit_def wake_def)

lemma requeue_current_queue:
  "\<exists>f ps. ready_queue (requeue_current s) = map f (ready_queue s) @ ps \<and> (\<forall>p. \<not> idle p \<longrightarrow> f p = p)
     \<and> (\<forall>p. pr_pid (f p) = pr_pid p \<and> pr_state (f p) = pr_state p)"
proof (cases "current s")
  case None
  then show ?thesis by (intro exI [of _ id] exI [of _ "[]"]) (simp add: requeue_current_def)
next
  case (Some p)
  obtain q act where d: "deliver_signals p = (q, act)" by fastforce
  show ?thesis
  proof (cases "is_exited p \<or> act \<noteq> Stop")
    case True
    with Some d show ?thesis
      by (intro exI [of _ id]) (auto simp: requeue_current_def Let_def split: signal_action.splits)
  next
    case False
    then have "ready_queue (requeue_current s)
        = map (wake_on_exit (pr_pid q)) (ready_queue s) @ [wake_on_exit (pr_pid q) (set_stopped q)]"
      using Some d by (simp add: requeue_current_def Let_def wake_waiters_for_stopped_child_def
          wake_waiters_for_child_def)
    then show ?thesis
      by (intro exI [of _ "wake_on_exit (pr_pid q)"] exI [of _ "[wake_on_exit (pr_pid q) (set_stopped q)]"])
        (simp add: wake_on_exit_idle)
  qed
qed

fun schedule_times :: "nat \<Rightarrow> ('c, 'f) scheduler \<Rightarrow> ('c, 'f) scheduler" where
  "schedule_times 0 s = s"
| "schedule_times (Suc n) s = schedule_times n (schedule_next s)"

lemma schedule_next_advances:
  assumes "ready_queue s = as @ p # bs" "\<not> idle p"
  shows "current (schedule_next s) = Some (p\<lparr>pr_state := Running\<rparr>)
    \<or> (\<exists>as' bs'. ready_queue (schedule_next s) = as' @ p # bs' \<and> length as' < length as)"
proof -
  obtain f ps where f: "ready_queue (requeue_current s) = map f (ready_queue s) @ ps"
      "\<forall>p. \<not> idle p \<longrightarrow> f p = p" using requeue_current_queue by blast
  then have q: "ready_queue (requeue_current s) = map f as @ p # map f bs @ ps"
    using assms by simp
  show ?thesis
  proof (cases s rule: schedule_next_cases)
    case idle
    then show ?thesis using q assms(2) by auto
  next
    case (run cs x ds)
    from run(1) q have "map f as @ p # map f bs @ ps = cs @ x # ds" by simp
    then consider us where "map f as = cs @ x # us" "ds = us @ p # map f bs @ ps"
      | "map f as = cs" "p = x" | us where "cs = map f as @ p # us"
      by (fastforce simp: append_eq_append_conv2 Cons_eq_append_conv append_eq_Cons_conv)
    then show ?thesis
    proof cases
      case 1
      have "length us < length as" using arg_cong [OF 1(1), of length] by simp
      with 1 run(4) show ?thesis by auto
    next
      case 2
      with run(4) show ?thesis by simp
    next
      case 3
      with run(2) assms(2) show ?thesis by auto
    qed
  qed
qed

text \<open>C6: no runnable process starves. A process that is neither blocked nor stopped and has
  \<open>k\<close> processes before it in the ready queue is running after at most \<open>k + 1\<close> calls of
  \<open>schedule_next\<close>, whatever signals the other processes have pending.\<close>

theorem no_starvation:
  assumes "ready_queue s = as @ p # bs" "\<not> is_blocked p" "\<not> is_stopped p"
  shows "\<exists>n \<le> length as. current (schedule_times (Suc n) s) = Some (p\<lparr>pr_state := Running\<rparr>)"
  using assms
proof (induction "length as" arbitrary: s as bs rule: less_induct)
  case less
  from less.prems have "\<not> idle p" by (simp add: idle_def)
  from schedule_next_advances [OF less.prems(1) this] consider
      "current (schedule_next s) = Some (p\<lparr>pr_state := Running\<rparr>)"
    | as' bs' where "ready_queue (schedule_next s) = as' @ p # bs'" "length as' < length as" by blast
  then show ?case
  proof cases
    case 1
    then show ?thesis by (intro exI [of _ 0]) simp
  next
    case 2
    from less.hyps [OF 2(2) 2(1) less.prems(2,3)] obtain n where
      "n \<le> length as'" "current (schedule_times (Suc n) (schedule_next s)) = Some (p\<lparr>pr_state := Running\<rparr>)" by blast
    with 2(2) show ?thesis by (intro exI [of _ "Suc n"]) simp
  qed
qed

definition proc_example :: "u64 \<Rightarrow> (unit, unit) process" where
  "proc_example n = \<lparr>pr_pid = Pid n, pr_pgid = Pid n, parent_pid = None, pr_state = Ready,
     pr_wait_state = NotWaiting, pr_uid = 0, pr_gid = 0, entry_point = 0, user_stack_ptr = 0,
     kernel_stack_ptr = 0, page_table_phys = 0, pr_context = (), fd_table = (), pending_signals = 0,
     cwd = ''/'', path_env = ''/bin'', environ = Map.empty,
     heap = \<lparr>heap_start = 0, heap_end = 0, heap_limit = 0\<rparr>, mappings = [], mmap_base = 0, vm_regions = []\<rparr>"

theorem no_starvation_witness:
  "\<exists>n \<le> 1. current (schedule_times (Suc n) \<lparr>ready_queue = [proc_example 2, proc_example 3], current = None,
       foreground_pgid = None\<rparr>) = Some ((proc_example 3)\<lparr>pr_state := Running\<rparr>)"
  using no_starvation [of "\<lparr>ready_queue = [proc_example 2, proc_example 3], current = None, foreground_pgid = None\<rparr>"
      "[proc_example 2]" "proc_example 3" "[]"]
  by (simp add: is_blocked_def is_stopped_def proc_example_def)

section \<open>The states of the scheduler\<close>

text \<open>The states that the kernel's handlers reach. \<open>step_user\<close> is any change of the current
  process that keeps its state field, as the system calls make them (blocking in
  \<open>waitpid\<close> included).\<close>

inductive sched_reach :: "('c, 'f) scheduler \<Rightarrow> bool" where
  step_new: "sched_reach scheduler_new"
| step_add: "sched_reach s \<Longrightarrow> add_process s p = Ret s' \<Longrightarrow> sched_reach s'"
| step_schedule: "sched_reach s \<Longrightarrow> sched_reach (schedule_next s)"
| step_exit: "sched_reach s \<Longrightarrow> exit_handler s status = (s', reap) \<Longrightarrow> sched_reach s'"
| step_user: "sched_reach s \<Longrightarrow> current s = Some p \<Longrightarrow> pr_state p' = pr_state p \<Longrightarrow>
    sched_reach (s\<lparr>current := Some p'\<rparr>)"
| step_kill: "sched_reach s \<Longrightarrow> kill_handler s target sig = Ret (s', r) \<Longrightarrow> sched_reach s'"
| step_interrupt: "sched_reach s \<Longrightarrow> signal_handler s = Ret s' \<Longrightarrow> sched_reach s'"
| step_stop: "sched_reach s \<Longrightarrow> stop_signal_handler s = Ret s' \<Longrightarrow> sched_reach s'"
| step_foreground: "sched_reach s \<Longrightarrow> sched_reach (set_foreground_pgid s g)"
| step_reap: "sched_reach s \<Longrightarrow> find_zombie_child s parent = (s', r) \<Longrightarrow> sched_reach s'"

text \<open>Queued processes are ready or stopped; the current one is running.\<close>

definition sched_inv :: "('c, 'f) scheduler \<Rightarrow> bool" where
  "sched_inv s \<longleftrightarrow> (\<forall>p \<in> set (ready_queue s). pr_state p = Ready \<or> pr_state p = Stopped)
     \<and> (\<forall>p. current s = Some p \<longrightarrow> pr_state p = Running)"

lemma requeue_current_states:
  assumes "\<forall>p \<in> set (ready_queue s). pr_state p = Ready \<or> pr_state p = Stopped"
  shows "\<forall>p \<in> set (ready_queue (requeue_current s)). pr_state p = Ready \<or> pr_state p = Stopped"
proof (cases "current s")
  case None
  with assms show ?thesis by (simp add: requeue_current_def)
next
  case (Some p)
  obtain q act where "deliver_signals p = (q, act)" by fastforce
  with Some assms show ?thesis
    by (cases act) (auto simp: requeue_current_def Let_def wake_waiters_for_stopped_child_def
        wake_waiters_for_child_def process_defs)
qed

lemma schedule_next_inv:
  assumes "\<forall>p \<in> set (ready_queue s). pr_state p = Ready \<or> pr_state p = Stopped"
  shows "sched_inv (schedule_next s)"
  using requeue_current_states [OF assms]
  by (cases s rule: schedule_next_cases) (auto simp: sched_inv_def)

lemma signal_queue_states:
  "signal_queue g sig ps = Ret (ps', n) \<Longrightarrow> map pr_state ps' = map pr_state ps \<and> map pr_pid ps' = map pr_pid ps"
  by (induction ps arbitrary: ps' n) (auto simp: send_signal_def split: if_splits)

lemma map_state_inv:
  "map pr_state ps' = map pr_state ps \<Longrightarrow> \<forall>p \<in> set ps. P (pr_state p) \<Longrightarrow> \<forall>p \<in> set ps'. P (pr_state p)"
  by (metis imageE image_eqI image_set)

lemma signal_process_group_states:
  assumes "signal_process_group s g sig = Ret (s', n)"
  shows "map pr_state (ready_queue s') = map pr_state (ready_queue s)"
    and "map pr_pid (ready_queue s') = map pr_pid (ready_queue s)"
    and "map_option pr_state (current s') = map_option pr_state (current s)"
proof -
  have "\<exists>m. signal_queue g sig (ready_queue s) = Ret (ready_queue s', m)
      \<and> map_option pr_state (current s') = map_option pr_state (current s)"
    using assms by (auto simp: signal_process_group_def send_signal_def split: option.splits if_splits)
  then obtain m where 1: "signal_queue g sig (ready_queue s) = Ret (ready_queue s', m)"
      "map_option pr_state (current s') = map_option pr_state (current s)" by blast
  from signal_queue_states [OF 1(1)] 1 show
    "map pr_state (ready_queue s') = map pr_state (ready_queue s)"
    "map pr_pid (ready_queue s') = map pr_pid (ready_queue s)"
    "map_option pr_state (current s') = map_option pr_state (current s)" by auto
qed

lemma kill_handler_states:
  assumes "kill_handler s pid sig = Ret (s', r)"
  shows "map pr_state (ready_queue s') = map pr_state (ready_queue s)"
    and "map pr_pid (ready_queue s') = map pr_pid (ready_queue s)"
    and "map_option pr_state (current s') = map_option pr_state (current s)"
  using assms
  by (auto simp: kill_handler_def send_signal_def dest: signal_process_group_states
      split: option.splits if_splits)

lemma inv_by_states:
  assumes "sched_inv s" "map pr_state (ready_queue s') = map pr_state (ready_queue s)"
    "map_option pr_state (current s') = map_option pr_state (current s)"
  shows "sched_inv s'"
  using assms map_state_inv [OF assms(2), of "\<lambda>x. x = Ready \<or> x = Stopped"]
  by (auto simp: sched_inv_def map_option_case split: option.splits)

lemma take_first_set:
  "take_first P xs = (r, ys) \<Longrightarrow> set ys \<subseteq> set xs \<and> (\<forall>x. r = Some x \<longrightarrow> x \<in> set xs \<and> P x)"
  by (induction xs arbitrary: r ys) (auto split: if_splits prod.splits)

lemma inv_not_zombie: "sched_inv s \<Longrightarrow> p \<in> set (all_processes s) \<Longrightarrow> \<not> is_zombie p \<and> \<not> is_exited p"
  by (auto simp: sched_inv_def all_processes_def is_zombie_def is_exited_def split: option.splits)

lemma find_zombie_child_inv:
  assumes "sched_inv s"
  shows "find_zombie_child s parent = (s, None)"
proof -
  have "take_first (\<lambda>p. is_zombie p \<and> parent_pid p = Some parent) q = (None, q)"
    if "\<forall>p \<in> set q. \<not> is_zombie p" for q :: "('a, 'b) process list"
    using that by (induction q) auto
  with inv_not_zombie [OF assms] show ?thesis
    by (auto simp: find_zombie_child_def all_processes_def Let_def split: option.splits)
qed

lemma exit_handler_inv:
  assumes "sched_inv s"
  shows "sched_inv (fst (exit_handler s status))"
proof -
  have q: "\<forall>p \<in> set (ready_queue s). pr_state p = Ready \<or> pr_state p = Stopped"
    using assms by (simp add: sched_inv_def)
  then show ?thesis
    by (cases "current s")
      (simp_all add: exit_handler_def Let_def schedule_next_inv wake_waiters_for_child_def)
qed

lemma sched_reach_inv: "sched_reach s \<Longrightarrow> sched_inv s"
proof (induction rule: sched_reach.induct)
  case (step_add s p s')
  then show ?case by (auto simp: add_process_def sched_inv_def split: if_splits)
next
  case (step_schedule s)
  then have "\<forall>p \<in> set (ready_queue s). pr_state p = Ready \<or> pr_state p = Stopped"
    by (simp add: sched_inv_def)
  then show ?case by (rule schedule_next_inv)
next
  case (step_exit s status s' reap)
  then show ?case using exit_handler_inv [of s status] by simp
next
  case (step_kill s target sig s' r)
  then show ?case using inv_by_states kill_handler_states by blast
next
  case (step_interrupt s s')
  then show ?case
    by (auto simp: signal_handler_def intro: inv_by_states dest: signal_process_group_states split: option.splits)
next
  case (step_stop s s')
  then show ?case
    by (auto simp: stop_signal_handler_def intro: inv_by_states dest: signal_process_group_states split: option.splits)
next
  case (step_reap s parent s' r)
  then show ?case using find_zombie_child_inv [of s parent] by simp
qed (auto simp: scheduler_new_def sched_inv_def set_foreground_pgid_def)

text \<open>C19: in every state the kernel's handlers reach, at most one process is running, namely the
  current one, the queued processes are ready or stopped, and no process that has exited is kept:
  \<open>find_zombie_child\<close>, with which \<open>waitpid\<close> looks for the status of an exited child, never
  finds one, because \<open>schedule_next\<close> drops a zombie as it drops any exited process.\<close>

theorem scheduler_invariant:
  assumes "sched_reach s"
  shows "sched_inv s \<and> (\<forall>p \<in> set (all_processes s). \<not> is_zombie p \<and> \<not> is_exited p)
     \<and> find_zombie_child s parent = (s, None)"
  using sched_reach_inv [OF assms] find_zombie_child_inv inv_not_zombie by blast

lemma reach_example:
  "sched_reach (schedule_next \<lparr>ready_queue = [proc_example 2, proc_example 3], current = None, foreground_pgid = None\<rparr>)"
proof -
  have "sched_reach \<lparr>ready_queue = [proc_example 2], current = None, foreground_pgid = None\<rparr>"
    by (rule step_add [OF step_new, of "proc_example 2"]) (simp add: add_process_def scheduler_new_def proc_example_def)
  then have "sched_reach \<lparr>ready_queue = [proc_example 2, proc_example 3], current = None, foreground_pgid = None\<rparr>"
    by (rule step_add [of _ "proc_example 3"]) (simp add: add_process_def proc_example_def)
  then show ?thesis by (rule step_schedule)
qed

theorem scheduler_invariant_witness:
  "sched_inv (schedule_next \<lparr>ready_queue = [proc_example 2, proc_example 3], current = None, foreground_pgid = None\<rparr>)"
  using scheduler_invariant [OF reach_example] by blast

section \<open>Stopped processes\<close>

definition stopped_pids :: "('c, 'f) scheduler \<Rightarrow> pid set" where
  "stopped_pids s = pr_pid ` {p \<in> set (ready_queue s). pr_state p = Stopped}"

lemma idle_stopped: "pr_state p = Stopped \<Longrightarrow> idle p"
  by (simp add: idle_def is_stopped_def)

lemma requeue_current_stopped: "stopped_pids s \<subseteq> stopped_pids (requeue_current s)"
proof -
  obtain f ps where "ready_queue (requeue_current s) = map f (ready_queue s) @ ps"
      "\<forall>p. pr_pid (f p) = pr_pid p \<and> pr_state (f p) = pr_state p"
    using requeue_current_queue by metis
  then show ?thesis by (force simp: stopped_pids_def image_iff)
qed

lemma schedule_next_stopped: "stopped_pids s \<subseteq> stopped_pids (schedule_next s)"
proof (cases s rule: schedule_next_cases)
  case idle
  then show ?thesis using requeue_current_stopped [of s] by simp
next
  case (run as p bs)
  then have "stopped_pids (requeue_current s) \<subseteq> stopped_pids (schedule_next s)"
    using idle_stopped [of p] by (auto simp: stopped_pids_def)
  then show ?thesis using requeue_current_stopped [of s] by blast
qed

lemma stopped_pids_zip:
  "stopped_pids s = {x. (x, Stopped) \<in> set (zip (map pr_pid (ready_queue s)) (map pr_state (ready_queue s)))}"
  by (force simp: stopped_pids_def zip_map_map set_zip in_set_conv_nth image_iff)

lemma stopped_pids_states:
  "map pr_state (ready_queue s') = map pr_state (ready_queue s) \<Longrightarrow>
   map pr_pid (ready_queue s') = map pr_pid (ready_queue s) \<Longrightarrow> stopped_pids s' = stopped_pids s"
  by (simp add: stopped_pids_zip)

lemma wake_waiters_stopped: "stopped_pids (wake_waiters_for_child (s\<lparr>current := c\<rparr>) child) = stopped_pids s"
  by (rule stopped_pids_states) (simp_all add: wake_waiters_for_child_def comp_def)

lemma signal_group_stopped:
  "signal_process_group s g sig = Ret (s', n) \<Longrightarrow> stopped_pids s' = stopped_pids s"
  by (intro stopped_pids_states signal_process_group_states)

text \<open>C20: a process that is stopped while it is queued stays stopped: neither \<open>schedule_next\<close>,
  nor the exit of another process, nor any \<open>kill\<close>, Ctrl+C or Ctrl+Z (SIGCONT included) makes it
  ready again, because pending signals are delivered to the current process only.\<close>

theorem stopped_stays_stopped:
  "stopped_pids s \<subseteq> stopped_pids (schedule_next s)
   \<and> stopped_pids s \<subseteq> stopped_pids (fst (exit_handler s status))
   \<and> (kill_handler s target sig = Ret (s1, r) \<longrightarrow> stopped_pids s \<subseteq> stopped_pids s1)
   \<and> (signal_handler s = Ret s2 \<longrightarrow> stopped_pids s \<subseteq> stopped_pids s2)
   \<and> (stop_signal_handler s = Ret s3 \<longrightarrow> stopped_pids s \<subseteq> stopped_pids s3)"
proof (intro conjI impI)
  show "stopped_pids s \<subseteq> stopped_pids (fst (exit_handler s status))"
  proof (cases "current s")
    case None
    then show ?thesis by (simp add: exit_handler_def schedule_next_stopped)
  next
    case (Some p)
    then show ?thesis
      using schedule_next_stopped wake_waiters_stopped by (fastforce simp: exit_handler_def Let_def)
  qed
next
  assume "kill_handler s target sig = Ret (s1, r)"
  from stopped_pids_states [OF kill_handler_states(1,2) [OF this]]
  show "stopped_pids s \<subseteq> stopped_pids s1" by simp
next
  assume "signal_handler s = Ret s2"
  then show "stopped_pids s \<subseteq> stopped_pids s2"
    by (auto simp: signal_handler_def signal_group_stopped split: option.splits)
next
  assume "stop_signal_handler s = Ret s3"
  then show "stopped_pids s \<subseteq> stopped_pids s3"
    by (auto simp: stop_signal_handler_def signal_group_stopped split: option.splits)
qed (rule schedule_next_stopped)

theorem stopped_stays_stopped_witness:
  "let s = \<lparr>ready_queue = [set_stopped (proc_example 5)], current = None, foreground_pgid = None\<rparr> in
   Pid 5 \<in> stopped_pids (schedule_next s)
   \<and> (\<forall>s1 r. kill_handler s (- 5) 18 = Ret (s1, r) \<longrightarrow> Pid 5 \<in> stopped_pids s1)
   \<and> (\<exists>s1 r. kill_handler s (- 5) 18 = Ret (s1, r))"
proof -
  let ?s = "\<lparr>ready_queue = [set_stopped (proc_example 5)], current = None, foreground_pgid = None\<rparr>"
  have "pr_pid (set_stopped (proc_example 5)) = Pid 5" "pr_state (set_stopped (proc_example 5)) = Stopped"
    by (simp_all add: set_stopped_def proc_example_def)
  then have "Pid 5 \<in> stopped_pids ?s" by (force simp: stopped_pids_def image_iff)
  moreover have "\<exists>s1 r. kill_handler ?s (- 5) 18 = Ret (s1, r)"
    by (simp add: kill_handler_def signal_from_u32_def signal_process_group_def send_signal_def)
  ultimately show ?thesis
    using stopped_stays_stopped [of ?s undefined "- 5" 18] unfolding Let_def by blast
qed

end
