(* ===== verification/Usermode.thy ===== *)
theory Usermode
  imports Kernel_Monad Rust_String Kernel_Errors
begin

text \<open>
  The copies between the kernel and the memory of the running process of
  \<open>kernel/src/usermode.rs\<close>, and the saved registers of \<open>kernel/src/context.rs\<close>. An address space
  is what the processor shows of it to the kernel: a byte for every address, and which addresses a
  read or a write gets through to, after the page fault handler has mapped a missing page where it
  does so. Any other access ends in the panic of the page fault handler, and so does one that runs
  over the end of the address range.
\<close>

section \<open>Registers\<close>

record cpu_context =
  r15 :: u64
  r14 :: u64
  r13 :: u64
  r12 :: u64
  r11 :: u64
  r10 :: u64
  r9 :: u64
  r8 :: u64
  rbp :: u64
  rdi :: u64
  rsi :: u64
  rdx :: u64
  rcx :: u64
  rbx :: u64
  rax :: u64
  rip :: u64
  rsp :: u64
  rflags :: u64
  cs :: u64
  ss :: u64

definition context_zero :: cpu_context where
  "context_zero = \<lparr>r15 = 0, r14 = 0, r13 = 0, r12 = 0, r11 = 0, r10 = 0, r9 = 0, r8 = 0, rbp = 0,
     rdi = 0, rsi = 0, rdx = 0, rcx = 0, rbx = 0, rax = 0, rip = 0, rsp = 0, rflags = 0, cs = 0, ss = 0\<rparr>"

definition new_user :: "u64 \<Rightarrow> u64 \<Rightarrow> u64 \<Rightarrow> u64 \<Rightarrow> cpu_context" where
  "new_user entry stack_ptr user_cs user_ss =
     context_zero\<lparr>rip := entry, rsp := stack_ptr, rflags := 0x202, cs := user_cs, ss := user_ss\<rparr>"

text \<open>The top of the kernel stack of every process, of \<open>kernel/src/paging.rs\<close>.\<close>

definition KERNEL_STACK_TOP :: u64 where
  "KERNEL_STACK_TOP = 0xFFFFFFFF80000000"

section \<open>User memory\<close>

record user_mem =
  um_byte :: "u64 \<Rightarrow> u8"
  um_readable :: "u64 \<Rightarrow> bool"
  um_writable :: "u64 \<Rightarrow> bool"

definition user_load :: "u64 \<Rightarrow> nat \<Rightarrow> user_mem \<Rightarrow> u8 outcome" where
  "user_load ptr i m =
     (if unat ptr + i < 2 ^ 64 \<and> um_readable m (ptr + of_nat i) then Ret (um_byte m (ptr + of_nat i)) else Panic)"

definition user_store :: "u64 \<Rightarrow> nat \<Rightarrow> u8 \<Rightarrow> user_mem \<Rightarrow> user_mem outcome" where
  "user_store ptr i b m =
     (if unat ptr + i < 2 ^ 64 \<and> um_writable m (ptr + of_nat i)
      then Ret (m\<lparr>um_byte := (um_byte m)(ptr + of_nat i := b)\<rparr>) else Panic)"

text \<open>\<open>copy_user_cstr\<close>: the bytes up to the first zero, at most as many as the buffer takes.\<close>

fun cstr_loop :: "u64 \<Rightarrow> nat \<Rightarrow> nat \<Rightarrow> bytes \<Rightarrow> (user_mem, string, error_code) prog" where
  "cstr_loop ptr i 0 buf = failP EINVAL"
| "cstr_loop ptr i (Suc n) buf =
     bindP (getP (user_load ptr i)) (\<lambda>r.
     bindP (liftO r) (\<lambda>byte.
     if byte = 0 then liftR (ok_or (from_utf8 buf) EINVAL)
     else cstr_loop ptr (Suc i) n (buf @ [byte])))"

definition copy_user_cstr :: "u64 \<Rightarrow> nat \<Rightarrow> (user_mem, string, error_code) prog" where
  "copy_user_cstr ptr buf_len = (if ptr = 0 then failP EFAULT else cstr_loop ptr 0 buf_len [])"

text \<open>\<open>copy_user_bytes\<close> with a buffer of \<open>dst_len\<close> bytes; the result is the part of the buffer it fills.\<close>

definition copy_user_bytes :: "u64 \<Rightarrow> nat \<Rightarrow> nat \<Rightarrow> (user_mem, bytes, error_code) prog" where
  "copy_user_bytes ptr len dst_len =
     (if ptr = 0 then failP EFAULT
      else if len > dst_len then failP EINVAL
      else mapP (\<lambda>i. bindP (getP (user_load ptr i)) liftO) [0..<len])"

definition store_byte :: "u64 \<Rightarrow> nat \<Rightarrow> u8 \<Rightarrow> (user_mem, unit, error_code) prog" where
  "store_byte ptr i b = (\<lambda>m. case user_store ptr i b m of Ret m' \<Rightarrow> Ret (m', Ok ()) | Panic \<Rightarrow> Panic)"

definition copy_to_user_bytes :: "u64 \<Rightarrow> bytes \<Rightarrow> (user_mem, nat, error_code) prog" where
  "copy_to_user_bytes ptr src =
     (if ptr = 0 then failP EFAULT
      else if src = [] then retP 0
      else if 2 ^ 64 \<le> unat ptr + length src then failP EFAULT
      else
        bindP (foldP (\<lambda>_ (i, byte). store_byte ptr i byte) () (enumerate 0 src)) (\<lambda>_.
        retP (length src)))"

section \<open>What a copy does\<close>

definition user_write :: "user_mem \<Rightarrow> u64 \<Rightarrow> bytes \<Rightarrow> user_mem" where
  "user_write m ptr src = m\<lparr>um_byte :=
     (\<lambda>a. if unat (a - ptr) < length src then src ! unat (a - ptr) else um_byte m a)\<rparr>"

definition user_range :: "(u64 \<Rightarrow> bool) \<Rightarrow> u64 \<Rightarrow> nat \<Rightarrow> bool" where
  "user_range ok ptr len \<longleftrightarrow> unat ptr + len \<le> 2 ^ 64 \<and> (\<forall>i < len. ok (ptr + of_nat i))"

lemma addr_offset: "n < 2 ^ 64 \<Longrightarrow> unat (ptr + of_nat n - ptr :: u64) = n"
  by (simp add: unsigned_of_nat take_bit_nat_eq_self)

lemma addr_eq_iff: "n < 2 ^ 64 \<Longrightarrow> (a = ptr + of_nat n) = (unat (a - ptr :: u64) = n)"
proof
  assume "n < 2 ^ 64" "a = ptr + of_nat n"
  then show "unat (a - ptr) = n" by (simp add: unsigned_of_nat take_bit_nat_eq_self)
next
  assume "unat (a - ptr) = n"
  then have "of_nat n = a - ptr" by (metis unat_eq_nat_uint word_of_nat_eq_iff of_nat_unat ucast_id)
  then show "a = ptr + of_nat n" by simp
qed

lemma user_write_Nil [simp]: "user_write m ptr [] = m"
  by (simp add: user_write_def)

lemma user_write_snoc:
  assumes "length src < 2 ^ 64"
  shows "(user_write m ptr src)\<lparr>um_byte := (um_byte (user_write m ptr src))(ptr + of_nat (length src) := b)\<rparr>
       = user_write m ptr (src @ [b])"
  using assms by (auto simp: user_write_def fun_eq_iff nth_append addr_eq_iff)

lemma user_write_perm [simp]:
  "um_readable (user_write m ptr src) = um_readable m"
  "um_writable (user_write m ptr src) = um_writable m"
  by (simp_all add: user_write_def)

lemma store_loop:
  assumes "unat ptr + length (pre @ src) < 2 ^ 64" "user_range (um_writable m) ptr (length (pre @ src))"
  shows "spec (foldP (\<lambda>_ (i, byte). store_byte ptr i byte) () (enumerate (length pre) src)) (user_write m ptr pre)
           (\<lambda>m' r. m' = user_write m ptr (pre @ src) \<and> r = Ok ())"
  using assms
proof (induction src arbitrary: pre)
  case Nil
  then show ?case by (simp add: spec_simps)
next
  case (Cons b src)
  have w: "um_writable m (ptr + of_nat (length pre))"
    using Cons.prems(2) by (simp add: user_range_def)
  have "store_byte ptr (length pre) b (user_write m ptr pre) = Ret (user_write m ptr (pre @ [b]), Ok ())"
    using Cons.prems(1) w user_write_snoc [of pre m ptr b] by (simp add: store_byte_def user_store_def)
  moreover have "spec (foldP (\<lambda>_ (i, byte). store_byte ptr i byte) () (enumerate (length (pre @ [b])) src))
      (user_write m ptr (pre @ [b])) (\<lambda>m' r. m' = user_write m ptr ((pre @ [b]) @ src) \<and> r = Ok ())"
    by (rule Cons.IH) (use Cons.prems in simp_all)
  ultimately show ?case
    by (simp add: enumerate_simps(2) spec_def bindP_def)
qed

lemma copy_to_user_bytes_spec:
  assumes "ptr \<noteq> 0" "unat ptr + length src < 2 ^ 64" "user_range (um_writable m) ptr (length src)"
  shows "copy_to_user_bytes ptr src m = Ret (user_write m ptr src, Ok (length src))"
proof (cases "src = []")
  case True
  with assms show ?thesis by (simp add: copy_to_user_bytes_def retP_def)
next
  case False
  have "spec (copy_to_user_bytes ptr src) m (\<lambda>m' r. m' = user_write m ptr src \<and> r = Ok (length src))"
    using store_loop [of ptr "[]" src m] assms False
    by (auto simp: copy_to_user_bytes_def spec_simps elim!: spec_mono split: result.splits)
  then show ?thesis by (auto simp: spec_run)
qed

lemma user_load_loop:
  assumes "user_range (um_readable m) ptr n" "a \<le> n"
  shows "mapP (\<lambda>i. bindP (getP (user_load ptr i)) liftO) [a..<n] m
       = Ret (m, Ok (map (\<lambda>i. um_byte m (ptr + of_nat i)) [a..<n]))"
  using assms(2)
proof (induction "n - a" arbitrary: a)
  case 0
  then show ?case by (simp add: retP_def)
next
  case (Suc k)
  have "a < n" using Suc(2) by linarith
  then have "user_load ptr a m = Ret (um_byte m (ptr + of_nat a))"
    using assms(1) by (auto simp: user_load_def user_range_def)
  with Suc(1) [of "Suc a"] Suc(2,3) show ?case
    by (simp add: upt_rec [of a n] prog_defs)
qed

lemma copy_user_bytes_spec:
  assumes "ptr \<noteq> 0" "len \<le> cap" "user_range (um_readable m) ptr len"
  shows "copy_user_bytes ptr len cap m = Ret (m, Ok (map (\<lambda>i. um_byte m (ptr + of_nat i)) [0..<len]))"
  using user_load_loop [OF assms(3), of 0] assms by (simp add: copy_user_bytes_def)

lemma user_write_read:
  "length src < 2 ^ 64 \<Longrightarrow> map (\<lambda>i. um_byte (user_write m ptr src) (ptr + of_nat i)) [0..<length src] = src"
  by (rule nth_equalityI) (simp_all add: user_write_def unsigned_of_nat take_bit_nat_eq_self)

end
