(* ===== verification/Tty.thy ===== *)
theory Tty
  imports Panda_Prelude
begin

text \<open>
  The terminal of \<open>kernel/src/tty.rs\<close>: bytes of the device are edited into lines, completed lines
  are queued for the readers. An operation that echoes also returns the bytes it writes to the
  serial port. The session at the end interleaves input and reads in any order.
\<close>

section \<open>State and operations\<close>

definition MAX_LINE_LEN :: nat where
  "MAX_LINE_LEN = 256"

record tty =
  current_line :: bytes
  completed_lines :: "bytes list"
  echo :: bool

datatype tty_action = TtyNone | LineReady | SendSignal | SendStopSignal

definition tty_new :: tty where
  "tty_new = \<lparr>current_line = [], completed_lines = [], echo = True\<rparr>"

definition when_echo :: "tty \<Rightarrow> bytes \<Rightarrow> bytes" where
  "when_echo t bs = (if echo t then bs else [])"

definition input_byte :: "tty \<Rightarrow> u8 \<Rightarrow> tty \<times> bytes \<times> tty_action" where
  "input_byte t byte =
     (if byte = 0x03 then (t\<lparr>current_line := []\<rparr>, when_echo t [0x5E, 0x43, 0x0D, 0x0A], SendSignal)
      else if byte = 0x1A then (t\<lparr>current_line := []\<rparr>, when_echo t [0x5E, 0x5A, 0x0D, 0x0A], SendStopSignal)
      else if byte = 0x08 \<or> byte = 0x7F then
        (if current_line t \<noteq> [] then (t\<lparr>current_line := butlast (current_line t)\<rparr>, when_echo t [0x08, 0x20, 0x08], TtyNone)
         else (t, [], TtyNone))
      else if byte = 0x0A \<or> byte = 0x0D then
        (t\<lparr>current_line := [], completed_lines := completed_lines t @ [current_line t @ [0x0A]]\<rparr>,
         when_echo t [0x0D, 0x0A], LineReady)
      else if 0x20 \<le> byte \<and> byte \<le> 0x7E \<and> length (current_line t) < MAX_LINE_LEN
        then (t\<lparr>current_line := current_line t @ [byte]\<rparr>, when_echo t [byte], TtyNone)
      else (t, [], TtyNone))"

text \<open>The loop of \<open>read\<close>: the queue, the size of the buffer and the bytes in it so far.\<close>

function read_loop :: "bytes list \<Rightarrow> nat \<Rightarrow> bytes \<Rightarrow> bytes list \<times> bytes" where
  "read_loop ls n got =
     (if length got < n then
        (case ls of
           [] \<Rightarrow> ([], got)
         | line # rest \<Rightarrow>
             let to_copy = min (n - length got) (length line);
                 got' = got @ take to_copy line;
                 line' = drop to_copy line;
                 ls' = (if line' = [] then rest else line' # rest)
             in if got' \<noteq> [] \<and> last got' = 0x0A then (ls', got') else read_loop ls' n got')
      else (ls, got))"
  by pat_completeness auto
termination
  by (relation "measure (\<lambda>(ls, n, got). (n - length got) + length ls)") (auto simp: min_def split: if_splits)

declare read_loop.simps [simp del]

definition tty_read :: "tty \<Rightarrow> nat \<Rightarrow> tty \<times> bytes option" where
  "tty_read t buf_len =
     (if buf_len = 0 then (t, Some [])
      else
        (case read_loop (completed_lines t) buf_len [] of
           (ls, got) \<Rightarrow> (t\<lparr>completed_lines := ls\<rparr>, if length got > 0 then Some got else None)))"

definition has_data :: "tty \<Rightarrow> bool" where
  "has_data t \<longleftrightarrow> completed_lines t \<noteq> []"

definition tty_clear :: "tty \<Rightarrow> tty" where
  "tty_clear t = t\<lparr>current_line := [], completed_lines := []\<rparr>"

section \<open>Lines\<close>

definition printable :: "u8 \<Rightarrow> bool" where
  "printable b \<longleftrightarrow> 0x20 \<le> b \<and> b \<le> 0x7E"

text \<open>A queued line is the rest of one: printable bytes and the newline that ends it.\<close>

definition line_ok :: "bytes \<Rightarrow> bool" where
  "line_ok line \<longleftrightarrow> (\<exists>body. line = body @ [0x0A] \<and> length body \<le> MAX_LINE_LEN \<and> list_all printable body)"

definition tty_ok :: "tty \<Rightarrow> bool" where
  "tty_ok t \<longleftrightarrow> length (current_line t) \<le> MAX_LINE_LEN \<and> list_all printable (current_line t)
     \<and> list_all line_ok (completed_lines t)"

lemma tty_new_ok: "tty_ok tty_new"
  by (simp add: tty_ok_def tty_new_def)

lemma list_all_butlast: "list_all P xs \<Longrightarrow> list_all P (butlast xs)"
  by (auto simp: list_all_iff dest: in_set_butlastD)

lemma input_byte_ok: "tty_ok t \<Longrightarrow> input_byte t b = (t', out, act) \<Longrightarrow> tty_ok t'"
  by (auto simp: tty_ok_def input_byte_def line_ok_def printable_def list_all_butlast split: if_splits)

lemma line_ok_drop: "line_ok line \<Longrightarrow> n < length line \<Longrightarrow> line_ok (drop n line)"
proof -
  assume "line_ok line" "n < length line"
  then obtain body where "line = body @ [0x0A]" "length body \<le> MAX_LINE_LEN" "list_all printable body"
    by (auto simp: line_ok_def)
  moreover have "set (drop n body) \<subseteq> set body" by (rule set_drop_subset)
  ultimately show ?thesis
    using \<open>n < length line\<close> unfolding line_ok_def list_all_iff
    by (intro exI [of _ "drop n body"]) auto
qed

lemma newline_last: "line_ok line \<Longrightarrow> last line = 0x0A"
  by (auto simp: line_ok_def)

lemma take_no_newline:
  assumes "line_ok line" "n < length line"
  shows "0x0A \<notin> set (take n line)"
  using assms set_take_subset [of n "butlast line"]
  by (fastforce simp: line_ok_def list_all_iff printable_def take_butlast)

text \<open>A read takes the front line or, if the buffer is smaller, the start of it.\<close>

lemma read_loop_line:
  assumes "line_ok line" "0 < n"
  shows "read_loop (line # rest) n [] =
    (if length line \<le> n then (rest, line) else (drop n line # rest, take n line))"
proof (cases "length line \<le> n")
  case True
  with assms newline_last [OF assms(1)] show ?thesis
    by (subst read_loop.simps) (auto simp: Let_def line_ok_def)
next
  case False
  then have "last (take n line) \<noteq> 0x0A"
    using take_no_newline [OF assms(1), of n] assms(2) last_in_set [of "take n line"] by force
  moreover have "read_loop ls n (take n line) = (ls, take n line)" for ls
    using False by (subst read_loop.simps) simp
  ultimately show ?thesis
    using False assms(2) by (subst read_loop.simps) (simp add: Let_def)
qed

lemma read_loop_empty: "read_loop [] n got = ([], got)"
  by (subst read_loop.simps) simp

lemma tty_read_cases:
  assumes "tty_ok t" "0 < n"
  shows "case completed_lines t of
           [] \<Rightarrow> tty_read t n = (t, None)
         | line # rest \<Rightarrow> tty_read t n =
             (if length line \<le> n then (t\<lparr>completed_lines := rest\<rparr>, Some line)
              else (t\<lparr>completed_lines := drop n line # rest\<rparr>, Some (take n line)))"
proof (cases "completed_lines t")
  case Nil
  then show ?thesis using assms by (cases t) (simp add: tty_read_def read_loop_empty)
next
  case (Cons line rest)
  then have "line_ok line" "line \<noteq> []" using assms(1) by (auto simp: tty_ok_def line_ok_def)
  then show ?thesis using Cons assms(2) by (simp add: tty_read_def read_loop_line)
qed

lemma tty_read_ok: "tty_ok t \<Longrightarrow> tty_read t n = (t', r) \<Longrightarrow> tty_ok t'"
  using tty_read_cases [of t n]
  by (cases "n = 0"; cases "completed_lines t")
    (auto simp: tty_read_def tty_ok_def line_ok_drop split: if_splits)

section \<open>Sessions\<close>

datatype tty_use = DevByte u8 | ReadUpTo nat

text \<open>The reference editor: what a raw input commits, \<open>line\<close> being the line under construction.\<close>

fun cooked :: "bytes \<Rightarrow> bytes \<Rightarrow> bytes" where
  "cooked line [] = []"
| "cooked line (b # bs) =
     (if b = 0x03 \<or> b = 0x1A then cooked [] bs
      else if b = 0x08 \<or> b = 0x7F then cooked (butlast line) bs
      else if b = 0x0A \<or> b = 0x0D then line @ 0x0A # cooked [] bs
      else if printable b \<and> length line < MAX_LINE_LEN then cooked (line @ [b]) bs
      else cooked line bs)"

fun session :: "tty \<Rightarrow> tty_use list \<Rightarrow> tty \<times> (nat \<times> bytes) list" where
  "session t [] = (t, [])"
| "session t (DevByte b # us) = session (fst (input_byte t b)) us"
| "session t (ReadUpTo n # us) =
     (case tty_read t n of (t', r) \<Rightarrow>
      case session t' us of (t'', rs) \<Rightarrow> (t'', (case r of Some bs \<Rightarrow> (n, bs) # rs | None \<Rightarrow> rs)))"

fun raw_input :: "tty_use list \<Rightarrow> bytes" where
  "raw_input [] = []"
| "raw_input (DevByte b # us) = b # raw_input us"
| "raw_input (ReadUpTo n # us) = raw_input us"

lemma input_cooked:
  "concat (completed_lines t) @ cooked (current_line t) (b # bs)
   = concat (completed_lines (fst (input_byte t b))) @ cooked (current_line (fst (input_byte t b))) bs"
  by (auto simp: input_byte_def printable_def)

lemma read_concat:
  assumes "tty_ok t" "tty_read t n = (t', r)"
  shows "concat (completed_lines t) = (case r of Some bs \<Rightarrow> bs | None \<Rightarrow> []) @ concat (completed_lines t')"
    and "current_line t' = current_line t"
proof -
  have "concat (completed_lines t) = (case r of Some bs \<Rightarrow> bs | None \<Rightarrow> []) @ concat (completed_lines t')
        \<and> current_line t' = current_line t"
  proof (cases "n = 0")
    case True
    with assms(2) show ?thesis by (auto simp: tty_read_def)
  next
    case False
    then show ?thesis using tty_read_cases [OF assms(1), of n] assms(2)
      by (cases "completed_lines t") (auto simp flip: append.assoc split: if_splits)
  qed
  then show "concat (completed_lines t) = (case r of Some bs \<Rightarrow> bs | None \<Rightarrow> []) @ concat (completed_lines t')"
    and "current_line t' = current_line t" by auto
qed

lemma read_one_line:
  assumes "tty_ok t" "tty_read t n = (t', Some bs)"
  shows "length bs \<le> n \<and> 0x0A \<notin> set (butlast bs)"
proof (cases "n = 0")
  case True
  with assms(2) show ?thesis by (auto simp: tty_read_def)
next
  case False
  have ok: "line_ok line" if "line \<in> set (completed_lines t)" for line
    using assms(1) that by (auto simp: tty_ok_def list_all_iff)
  have "0x0A \<notin> set (butlast line)" if "line_ok line" for line
    using that by (fastforce simp: line_ok_def list_all_iff printable_def)
  then show ?thesis
    using tty_read_cases [OF assms(1), of n] assms(2) False ok take_no_newline
    by (cases "completed_lines t") (auto split: if_splits dest: in_set_butlastD)
qed

text \<open>C32: In every session, whatever the order of input and reads, the bytes the readers got followed
  by the queued lines are what a reference line editor makes of the raw input: nothing is lost,
  duplicated or reordered. Every read returns at most the bytes asked for, and a newline can only
  be its last byte.\<close>

theorem tty_stream:
  assumes "tty_ok t"
  shows "case session t us of (t', rs) \<Rightarrow>
           concat (completed_lines t) @ cooked (current_line t) (raw_input us)
             = concat (map snd rs) @ concat (completed_lines t')
         \<and> list_all (\<lambda>(n, bs). length bs \<le> n \<and> 0x0A \<notin> set (butlast bs)) rs"
  using assms
proof (induction t us rule: session.induct)
  case (1 t)
  then show ?case by simp
next
  case (2 t b us)
  have "tty_ok (fst (input_byte t b))"
    using input_byte_ok [OF 2(2)] by (cases "input_byte t b") auto
  from 2(1) [OF this] show ?case
    by (simp add: input_cooked [of t b] del: cooked.simps)
next
  case (3 t n us)
  obtain t' r where r: "tty_read t n = (t', r)" by fastforce
  note step = read_concat [OF 3(2) r] tty_read_ok [OF 3(2) r] 3(1) [OF r [symmetric]]
  from step read_one_line [OF 3(2)] r show ?case
    by (auto split: prod.splits option.splits)
qed

theorem tty_stream_witness:
  "case session tty_new [DevByte 0x61, DevByte 0x62, DevByte 0x08, ReadUpTo 8, DevByte 0x0D, ReadUpTo 8]
   of (t', rs) \<Rightarrow> rs = [(8, [0x61, 0x0A])] \<and> completed_lines t' = []
     \<and> cooked [] [0x61, 0x62, 0x08, 0x0D] = concat (map snd rs) @ concat (completed_lines t')"
  using tty_stream [OF tty_new_ok, of "[DevByte 0x61, DevByte 0x62, DevByte 0x08, ReadUpTo 8, DevByte 0x0D, ReadUpTo 8]"]
  by (simp add: tty_new_def input_byte_def tty_read_def read_loop.simps MAX_LINE_LEN_def)

text \<open>C33: Lines keep their bounds through every session: the line under construction has at most 256
  bytes, every queued line ends in its only newline after at most 256 printable bytes.\<close>

theorem tty_lines_bounded: "tty_ok (fst (session tty_new us))"
proof -
  have "tty_ok (fst (session t us))" if "tty_ok t" for t
    using that
  proof (induction t us rule: session.induct)
    case (1 t)
    then show ?case by simp
  next
    case (2 t b us)
    then show ?case using input_byte_ok [OF 2(2)] by (cases "input_byte t b") auto
  next
    case (3 t n us)
    obtain t' r where r: "tty_read t n = (t', r)" by fastforce
    from 3(1) [OF r [symmetric] tty_read_ok [OF 3(2) r]] r show ?case
      by (auto split: prod.splits)
  qed
  then show ?thesis by (simp add: tty_new_ok)
qed

end
