(* ===== verification/Syscalls.thy ===== *)
theory Syscalls
  imports Vfs Scheduler Byte_Codec Usermode Tty
begin

unbundle bit_operations_syntax

text \<open>
  The system call handlers of \<open>kernel/src/main.rs\<close>, the functions \<open>sys_*\<close> and the dispatch of
  \<open>kernel/src/syscall.rs\<close>, and the entry and exit of a system call of \<open>kernel/src/usermode.rs\<close>.
  The state is the whole kernel: scheduler, file systems and pipes, terminal and the address
  spaces. A call that does not come back to its caller ends in one of the traps below; the state
  it leaves behind is what the processor goes on with.

  The operations on address spaces that \<open>fork\<close>, \<open>waitpid\<close> and \<open>exit\<close> need come from
  \<open>kernel/src/paging.rs\<close>; they are arguments here, over a state \<open>'m\<close> of their own.
\<close>

section \<open>The kernel state\<close>

datatype trap =
    Errno error_code
  | Switched   \<comment> \<open>\<open>switch_to_user\<close>: the processor runs the process that is current now\<close>
  | Halted     \<comment> \<open>no process is left\<close>
  | Waiting    \<comment> \<open>the loop of \<open>sys_read\<close> goes on until the device delivers more input\<close>

type_synonym proc = "(cpu_context, fd_table) process"

record ('d, 'm) kernel =
  SCHEDULER :: "(cpu_context, fd_table) scheduler"
  CURRENT_CONTEXT :: cpu_context
  VFS :: "'d vfs"
  MM :: 'm
  SPACES :: "u64 \<Rightarrow> user_mem"
  CR3 :: u64
  PENDING_REAP_PT :: u64
  PENDING_REAP_PID :: u64
  NEED_RESCHED :: bool
  TICK_COUNTER :: u64
  CONTEXT_SWITCH_COUNTER :: u64
  NEXT_PID :: u64
  GLOBAL_TTY :: tty
  DEVICE_INPUT :: bytes
  SERIAL_OUT :: bytes

type_synonym ('d, 'm, 'a) call = "(('d, 'm) kernel, 'a, trap) prog"

text \<open>\<open>CURRENT_CONTEXT_PTR\<close> is set before the first process runs and at every switch, always to the context
  in the slot of the current process of the scheduler. While the slot is empty the pointer still
  refers to it, and what is there are the bytes of the process that was taken out last:
  \<open>CURRENT_CONTEXT\<close>.\<close>

definition context_ptr :: "('d, 'm) kernel \<Rightarrow> cpu_context" where
  "context_ptr k = (case current (SCHEDULER k) of Some p \<Rightarrow> pr_context p | None \<Rightarrow> CURRENT_CONTEXT k)"

definition current_process :: "('d, 'm, proc) call" where
  "current_process = bindP (getP (\<lambda>k. current (SCHEDULER k))) (\<lambda>c. liftR (ok_or c (Errno ESRCH)))"

definition set_current :: "proc \<Rightarrow> ('d, 'm, unit) call" where
  "set_current p = modP (\<lambda>k. k\<lparr>SCHEDULER := (SCHEDULER k)\<lparr>current := Some p\<rparr>\<rparr>)"

definition try_err :: "('a, error_code) result \<Rightarrow> ('d, 'm, 'a) call" where
  "try_err r = liftR (map_err Errno r)"

definition on_vfs :: "('d vfs, 'a, error_code) prog \<Rightarrow> ('d, 'm, 'a) call" where
  "on_vfs m = map_errP Errno (zoomP VFS (\<lambda>v k. k\<lparr>VFS := v\<rparr>) m)"

text \<open>A program on the descriptor table of the current process, and one on its memory.\<close>

definition on_fds :: "('d vfs \<times> fd_table, 'a, error_code) prog \<Rightarrow> ('d, 'm, 'a) call" where
  "on_fds m =
     bindP current_process (\<lambda>p.
     map_errP Errno (zoomP (\<lambda>k. (VFS k, fd_table p))
       (\<lambda>(v, t) k. k\<lparr>VFS := v, SCHEDULER := (SCHEDULER k)\<lparr>current := Some (p\<lparr>fd_table := t\<rparr>)\<rparr>\<rparr>) m))"

definition on_user :: "(user_mem, 'a, error_code) prog \<Rightarrow> ('d, 'm, 'a) call" where
  "on_user m = map_errP Errno (zoomP (\<lambda>k. SPACES k (CR3 k)) (\<lambda>u k. k\<lparr>SPACES := (SPACES k)(CR3 k := u)\<rparr>) m)"

section \<open>Switching\<close>

definition switch_to_user :: "proc \<Rightarrow> ('d, 'm, 'a) call" where
  "switch_to_user p = bindP (modP (\<lambda>k. k\<lparr>CR3 := page_table_phys p\<rparr>)) (\<lambda>_. failP Switched)"

definition increment_context_switch_counter :: "('d, 'm, unit) call" where
  "increment_context_switch_counter =
     bindP (getP CONTEXT_SWITCH_COUNTER) (\<lambda>n.
     if n = - 1 then panicP else modP (\<lambda>k. k\<lparr>CONTEXT_SWITCH_COUNTER := n + 1\<rparr>))"

definition zero_rax :: "proc \<Rightarrow> proc" where
  "zero_rax p = p\<lparr>pr_context := (pr_context p)\<lparr>rax := 0\<rparr>\<rparr>"

definition yield_handler :: "('d, 'm, unit) call" where
  "yield_handler =
     bindP (modP (\<lambda>k. k\<lparr>SCHEDULER := (SCHEDULER k)\<lparr>current := map_option zero_rax (current (SCHEDULER k))\<rparr>\<rparr>)) (\<lambda>_.
     bindP (modP (\<lambda>k. k\<lparr>SCHEDULER := schedule_next (SCHEDULER k), CURRENT_CONTEXT := context_ptr k\<rparr>)) (\<lambda>_.
     bindP (getP (\<lambda>k. current (SCHEDULER k))) (\<lambda>next.
     case next of
       Some p \<Rightarrow> bindP increment_context_switch_counter (\<lambda>_. switch_to_user p)
     | None \<Rightarrow> retP ())))"

definition timer_tick_handler :: "('d, 'm, unit) call" where
  "timer_tick_handler =
     bindP (getP TICK_COUNTER) (\<lambda>n.
     if n = - 1 then panicP else modP (\<lambda>k. k\<lparr>TICK_COUNTER := n + 1, NEED_RESCHED := True\<rparr>))"

section \<open>Files and descriptors\<close>

definition open_handler :: "'d rd_op \<Rightarrow> (string \<Rightarrow> string) \<Rightarrow> string \<Rightarrow> u64 \<Rightarrow> ('d, 'm, u64) call" where
  "open_handler rd ulower path flags =
     bindP current_process (\<lambda>cur.
     bindP (try_err (resolve_path (cwd cur) path)) (\<lambda>resolved_path.
     bindP (on_fds (open_path_with_flags rd ulower resolved_path flags (pr_uid cur) (pr_gid cur))) (\<lambda>fd.
     retP (of_int fd))))"

text \<open>The buffer of 4096 bytes of the handlers: a read fills at most its first \<open>n\<close> bytes, and the
  handler takes the part that was read.\<close>

definition TEMP_BUF :: nat where
  "TEMP_BUF = 4096"

definition fd_read_temp :: "'d rd_op \<Rightarrow> int \<Rightarrow> nat \<Rightarrow> ('d vfs \<times> fd_table, bytes, error_code) prog" where
  "fd_read_temp rd fd n = (\<lambda>(v, t).
     case fd_read rd fd (v, t, replicate n 0) of
       Panic \<Rightarrow> Panic
     | Ret ((v', t', b), Ok bytes_read) \<Rightarrow>
         (case slice_at (b @ replicate (TEMP_BUF - n) 0) 0 bytes_read of
            Panic \<Rightarrow> Panic | Ret bs \<Rightarrow> Ret ((v', t'), Ok bs))
     | Ret ((v', t', b), Err e) \<Rightarrow> Ret ((v', t'), Err e))"

definition pipe_read_temp :: "nat \<Rightarrow> nat \<Rightarrow> ('d vfs, bytes, error_code) prog" where
  "pipe_read_temp pipe_id n = (\<lambda>v.
     case pipe_read (PIPES v) pipe_id (replicate n 0) of
       Panic \<Rightarrow> Panic
     | Ret (pool, b, Ok bytes_read) \<Rightarrow>
         (case slice_at (b @ replicate (TEMP_BUF - n) 0) 0 bytes_read of
            Panic \<Rightarrow> Panic | Ret bs \<Rightarrow> Ret (v\<lparr>PIPES := pool\<rparr>, Ok bs))
     | Ret (pool, b, Err e) \<Rightarrow> Ret (v\<lparr>PIPES := pool\<rparr>, Err e))"

definition pipe_write_call :: "nat \<Rightarrow> bytes \<Rightarrow> ('d vfs, nat, error_code) prog" where
  "pipe_write_call pipe_id data = (\<lambda>v.
     case pipe_write (PIPES v) pipe_id data of
       Panic \<Rightarrow> Panic
     | Ret (pool, r) \<Rightarrow> Ret (v\<lparr>PIPES := pool\<rparr>, r))"

definition deliver :: "u64 \<Rightarrow> bytes \<Rightarrow> ('d, 'm, u64) call" where
  "deliver buf bs =
     bindP (if length bs > 0 then on_user (copy_to_user_bytes buf bs) else retP 0) (\<lambda>_.
     retP (of_nat (length bs)))"

text \<open>On \<open>EAGAIN\<close> the handlers of the pipes yield; what follows \<open>yield_handler\<close> is \<open>unreachable!\<close>.\<close>

definition or_yield :: "('d, 'm, 'a) call \<Rightarrow> ('a \<Rightarrow> ('d, 'm, u64) call) \<Rightarrow> ('d, 'm, u64) call" where
  "or_yield m f =
     tryP m (\<lambda>r.
     case r of
       Ok x \<Rightarrow> f x
     | Err e \<Rightarrow> if e = Errno EAGAIN then bindP yield_handler (\<lambda>_. panicP) else failP e)"

definition read_handler :: "'d rd_op \<Rightarrow> int \<Rightarrow> u64 \<Rightarrow> u64 \<Rightarrow> ('d, 'm, u64) call" where
  "read_handler rd fd buf len =
     bindP current_process (\<lambda>cur.
     bindP (try_err (fd_get (fd_table cur) fd)) (\<lambda>fd_kind.
     let to_read = min (unat len) TEMP_BUF;
         read_file = bindP (on_fds (fd_read_temp rd fd to_read)) (\<lambda>bs. deliver buf bs)
     in
     case fd_kind of
       FdFile _ _ \<Rightarrow> read_file
     | FdDiskFile _ \<Rightarrow> read_file
     | FdTmpfsFile _ \<Rightarrow> read_file
     | FdFat32File _ \<Rightarrow> read_file
     | FdDirectory _ \<Rightarrow> failP (Errno EISDIR)
     | FdDiskDirectory _ \<Rightarrow> failP (Errno EISDIR)
     | FdTmpfsDirectory _ \<Rightarrow> failP (Errno EISDIR)
     | FdFat32Directory _ \<Rightarrow> failP (Errno EISDIR)
     | PipeRead pipe_id \<Rightarrow> or_yield (on_vfs (pipe_read_temp pipe_id to_read)) (deliver buf)
     | PipeWrite _ \<Rightarrow> failP (Errno EBADF)))"

definition write_handler :: "int \<Rightarrow> u64 \<Rightarrow> u64 \<Rightarrow> ('d, 'm, u64) call" where
  "write_handler fd buf len =
     bindP current_process (\<lambda>cur.
     bindP (try_err (fd_get (fd_table cur) fd)) (\<lambda>fd_kind.
     let to_write = min (unat len) TEMP_BUF;
         write_file =
           bindP (on_user (copy_user_bytes buf to_write TEMP_BUF)) (\<lambda>copied.
           bindP (on_fds (fd_write fd copied)) (\<lambda>written. retP (of_nat written)))
     in
     case fd_kind of
       FdFile _ writable \<Rightarrow> if \<not> writable then failP (Errno EBADF) else write_file
     | FdDirectory _ \<Rightarrow> failP (Errno EBADF)
     | FdDiskFile _ \<Rightarrow> failP (Errno EBADF)
     | FdDiskDirectory _ \<Rightarrow> failP (Errno EBADF)
     | FdFat32File _ \<Rightarrow> failP (Errno EBADF)
     | FdFat32Directory _ \<Rightarrow> failP (Errno EBADF)
     | FdTmpfsFile _ \<Rightarrow> write_file
     | FdTmpfsDirectory _ \<Rightarrow> failP (Errno EBADF)
     | PipeWrite pipe_id \<Rightarrow>
         bindP (on_user (copy_user_bytes buf to_write TEMP_BUF)) (\<lambda>copied.
         or_yield (on_vfs (pipe_write_call pipe_id copied)) (\<lambda>n. retP (of_nat n)))
     | PipeRead _ \<Rightarrow> failP (Errno EBADF)))"

definition close_handler :: "int \<Rightarrow> ('d, 'm, u64) call" where
  "close_handler fd = bindP (on_fds (fd_close fd)) (\<lambda>_. retP 0)"

text \<open>The 32 bytes of \<open>struct stat\<close>.\<close>

definition stat_bytes :: "file_metadata \<Rightarrow> bytes" where
  "stat_bytes metadata =
     le_bytes 2 (md_mode metadata) @ [0, 0] @ [1, 0, 0, 0] @ [0, 0, 0, 0] @ [0, 0, 0, 0]
     @ le_bytes 8 (md_size metadata) @ [0, 0, 0, 0, 0, 0, 0, 0]"

definition stat_handler :: "'d rd_op \<Rightarrow> (string \<Rightarrow> string) \<Rightarrow> u64 \<Rightarrow> u64 \<Rightarrow> ('d, 'm, u64) call" where
  "stat_handler rd ulower path_ptr stat_buf =
     bindP (on_user (copy_user_cstr path_ptr 64)) (\<lambda>path.
     bindP current_process (\<lambda>cur.
     bindP (try_err (resolve_path (cwd cur) path)) (\<lambda>resolved_path.
     bindP (on_vfs (stat_path rd ulower resolved_path)) (\<lambda>metadata.
     bindP (on_user (copy_to_user_bytes stat_buf (stat_bytes metadata))) (\<lambda>_.
     retP 0)))))"

definition fstat_handler :: "'d rd_op \<Rightarrow> int \<Rightarrow> u64 \<Rightarrow> ('d, 'm, u64) call" where
  "fstat_handler rd fd stat_buf =
     bindP (on_fds (fstat_fd rd fd)) (\<lambda>metadata.
     bindP (on_user (copy_to_user_bytes stat_buf (stat_bytes metadata))) (\<lambda>_.
     retP 0))"

definition pipe_create_call :: "('d vfs, nat \<times> nat, error_code) prog" where
  "pipe_create_call = (\<lambda>v. case pipe_create (PIPES v) of (pool, r) \<Rightarrow> Ret (v\<lparr>PIPES := pool\<rparr>, r))"

definition pipe_handler :: "u64 \<Rightarrow> ('d, 'm, u64) call" where
  "pipe_handler pipefd_ptr =
     bindP (on_vfs pipe_create_call) (\<lambda>(read_id, write_id).
     bindP (on_fds (open_pipe_read read_id)) (\<lambda>read_fd.
     bindP (on_fds (open_pipe_write write_id)) (\<lambda>write_fd.
     bindP (on_user (copy_to_user_bytes pipefd_ptr
       (le_bytes 4 (word_of_int read_fd :: u32) @ le_bytes 4 (word_of_int write_fd :: u32)))) (\<lambda>_.
     retP 0))))"

definition dup2_handler :: "int \<Rightarrow> int \<Rightarrow> ('d, 'm, u64) call" where
  "dup2_handler oldfd newfd = bindP (on_fds (dup2 oldfd newfd)) (\<lambda>_. retP (of_int newfd))"

section \<open>Processes\<close>

definition getpid_handler :: "('d, 'm, u64) call" where
  "getpid_handler = bindP current_process (\<lambda>cur. retP (as_u64 (pr_pid cur)))"

definition setpgid_handler :: "int \<Rightarrow> int \<Rightarrow> ('d, 'm, u64) call" where
  "setpgid_handler pid pgid =
     bindP (if pid = 0 then bindP current_process (\<lambda>cur. retP (pr_pid cur)) else retP (Pid (of_int pid))) (\<lambda>target_pid.
     let new_pgid = (if pgid = 0 then target_pid else Pid (of_int pgid)) in
     bindP current_process (\<lambda>cur.
     if pr_pid cur \<noteq> target_pid then failP (Errno ESRCH)
     else bindP (set_current (cur\<lparr>pr_pgid := new_pgid\<rparr>)) (\<lambda>_. retP 0)))"

definition on_sched ::
  "((cpu_context, fd_table) scheduler \<Rightarrow> ((cpu_context, fd_table) scheduler \<times> ('a, error_code) result) outcome)
   \<Rightarrow> ('d, 'm, 'a) call" where
  "on_sched m = map_errP Errno (zoomP SCHEDULER (\<lambda>s k. k\<lparr>SCHEDULER := s, CURRENT_CONTEXT := context_ptr k\<rparr>) m)"

definition kill_call :: "int \<Rightarrow> int \<Rightarrow> ('d, 'm, u64) call" where
  "kill_call pid sig = on_sched (\<lambda>s. kill_handler s pid sig)"

text \<open>An operation of \<open>paging.rs\<close>; the callers replace its message by an error code.\<close>

definition on_mm :: "error_code \<Rightarrow> ('m, 'a, string) prog \<Rightarrow> ('d, 'm, 'a) call" where
  "on_mm e m = map_errP (\<lambda>_. Errno e) (zoomP MM (\<lambda>x k. k\<lparr>MM := x\<rparr>) m)"

text \<open>What the system calls use of the rest of the system: the block device, lower case outside
  ASCII, the operations on address spaces, and the calls that are not modelled here.\<close>

datatype syscall_number =
  Read | Write | Open | Close | Stat | Fstat | Lseek | Mmap | Mprotect | Munmap | Brk | PipeCall | Yield | Dup | Dup2
| Kill | Getpid | Fork | Execve | Exit | Wait4 | Getenv | Getcwd | Chdir | Rename | Mkdir | Rmdir | Unlink | Chmod | Chown
| Getuid | Getgid | Setuid | Setgid | Setpgid | Getdents64 | Socket | Sendto | Recvfrom

record ('d, 'm) env =
  env_rd :: "'d rd_op"
  env_ulower :: "string \<Rightarrow> string"
  env_clone :: "u64 \<Rightarrow> ('m, u64, string) prog"
  env_kstack :: "u64 \<Rightarrow> u64 \<Rightarrow> ('m, unit, string) prog"
  env_free :: "u64 \<Rightarrow> ('m, unit, string) prog"
  env_other :: "syscall_number \<Rightarrow> u64 list \<Rightarrow> ('d, 'm, u64) call"

text \<open>\<open>fork_from\<close>. Cloning the page table is an operation of \<open>paging.rs\<close>. What user code can read in the new
  address space is what its parent can read, with the same rights: a page that becomes
  copy-on-write is written through a page fault, which is not part of this model.\<close>

definition fork_from :: "('d, 'm) env \<Rightarrow> proc \<Rightarrow> pid \<Rightarrow> ('d, 'm, proc) call" where
  "fork_from env p child_pid =
     bindP (on_mm ENOMEM (env_clone env (page_table_phys p))) (\<lambda>child_page_table.
     bindP (modP (\<lambda>k. k\<lparr>SPACES := (SPACES k)(child_page_table := SPACES k (page_table_phys p))\<rparr>)) (\<lambda>_.
     bindP (on_mm ENOMEM (env_kstack env child_page_table KERNEL_STACK_TOP)) (\<lambda>_.
     bindP (map_errP (\<lambda>_. Errno ENOMEM) (on_fds fork_copy)) (\<lambda>child_fd_table.
     retP (p\<lparr>pr_pid := child_pid, pr_pgid := child_pid, parent_pid := Some (pr_pid p), pr_state := Ready,
       pr_wait_state := NotWaiting, kernel_stack_ptr := KERNEL_STACK_TOP, page_table_phys := child_page_table,
       fd_table := child_fd_table, pending_signals := 0\<rparr>)))))"

definition fork_handler :: "('d, 'm) env \<Rightarrow> ('d, 'm, u64) call" where
  "fork_handler env =
     bindP current_process (\<lambda>cur.
     bindP (getP NEXT_PID) (\<lambda>n.
     if n = - 1 then panicP
     else
       bindP (modP (\<lambda>k. k\<lparr>NEXT_PID := n + 1\<rparr>)) (\<lambda>_.
       bindP (fork_from env cur (Pid n)) (\<lambda>child.
       bindP (set_current (cur\<lparr>pr_context := (pr_context cur)\<lparr>rax := n\<rparr>\<rparr>)) (\<lambda>_.
       bindP (on_sched (\<lambda>s. bindO (add_process s (zero_rax child)) (\<lambda>s'. Ret (s', Ok ())))) (\<lambda>_.
       retP n))))))"

text \<open>\<open>waitpid\<close>. A stopped child is reported and kept, a zombie is taken out and freed.\<close>

definition STOPPED_STATUS :: u32 where
  "STOPPED_STATUS = 0x147F"

definition write_status :: "u64 \<Rightarrow> u32 \<Rightarrow> ('d, 'm, unit) call" where
  "write_status status_ptr status =
     (if status_ptr \<noteq> 0
      then bindP (on_user (copy_to_user_bytes status_ptr (le_bytes 4 status))) (\<lambda>_. retP ())
      else retP ())"

definition or_stopped :: "bool \<Rightarrow> u64 \<Rightarrow> pid \<Rightarrow> ('d, 'm, u64) call \<Rightarrow> ('d, 'm, u64) call" where
  "or_stopped wuntraced status_ptr parent m =
     bindP (getP (\<lambda>k. if wuntraced then find_stopped_child (SCHEDULER k) parent else None)) (\<lambda>stopped.
     case stopped of
       Some stopped_pid \<Rightarrow> bindP (write_status status_ptr STOPPED_STATUS) (\<lambda>_. retP (as_u64 stopped_pid))
     | None \<Rightarrow> m)"

definition take_zombie :: "int \<Rightarrow> pid \<Rightarrow> ('d, 'm, proc option) call" where
  "take_zombie pid parent =
     (if pid = - 1 then
        on_sched (\<lambda>s. case find_any_zombie_child s parent of (s', z) \<Rightarrow> Ret (s', Ok z))
      else if pid > 0 then
        on_sched (\<lambda>s. case find_zombie_child s parent of (s', z) \<Rightarrow>
          Ret (s', Ok (case z of Some p \<Rightarrow> if pr_pid p = Pid (of_int pid) then Some p else None | None \<Rightarrow> None)))
      else failP (Errno EINVAL))"

definition reap_child :: "('d, 'm) env \<Rightarrow> u64 \<Rightarrow> proc \<Rightarrow> ('d, 'm, u64) call" where
  "reap_child env status_ptr child =
     (let code = (case exit_code child of Some c \<Rightarrow> c | None \<Rightarrow> 0) in
      bindP (write_status status_ptr (push_bit 8 (of_int code))) (\<lambda>_.
      bindP (on_mm EIO (env_free env (page_table_phys child))) (\<lambda>_.
      retP (as_u64 (pr_pid child)))))"

definition waitpid_handler :: "('d, 'm) env \<Rightarrow> int \<Rightarrow> u64 \<Rightarrow> u32 \<Rightarrow> ('d, 'm, u64) call" where
  "waitpid_handler env pid status_ptr options =
     (let wuntraced = (options AND 2 \<noteq> 0) in
      if options \<noteq> 0 \<and> options \<noteq> 2 then failP (Errno EINVAL)
      else
        bindP current_process (\<lambda>parent.
        or_stopped wuntraced status_ptr (pr_pid parent) (
        bindP (take_zombie pid (pr_pid parent)) (\<lambda>zombie.
        case zombie of
          Some child \<Rightarrow> reap_child env status_ptr child
        | None \<Rightarrow>
            bindP (getP (\<lambda>k. has_children (SCHEDULER k) (pr_pid parent))) (\<lambda>has.
            if \<not> has then failP (Errno ESRCH)
            else
              bindP current_process (\<lambda>p.
              bindP (set_current (if pid = - 1 then block_on_any_child p else block_on_child (Pid (of_int pid)) p)) (\<lambda>_.
              bindP yield_handler (\<lambda>_.
              bindP current_process (\<lambda>parent'.
              or_stopped wuntraced status_ptr (pr_pid parent') (
              bindP (take_zombie pid (pr_pid parent')) (\<lambda>zombie_after_wake.
              case zombie_after_wake of
                Some child \<Rightarrow> reap_child env status_ptr child
              | None \<Rightarrow> failP (Errno EINTR))))))))))))"

text \<open>\<open>exit\<close>: the address space of a process without parent is freed after the switch.\<close>

definition reap_pending :: "('d, 'm) env \<Rightarrow> ('d, 'm, unit) call" where
  "reap_pending env =
     bindP (getP PENDING_REAP_PT) (\<lambda>pt.
     bindP (modP (\<lambda>k. k\<lparr>PENDING_REAP_PT := 0\<rparr>)) (\<lambda>_.
     if pt = 0 then retP ()
     else tryP (on_mm EIO (env_free env pt)) (\<lambda>r.
       case r of Ok _ \<Rightarrow> retP () | Err _ \<Rightarrow> panicP)))"

definition sys_exit :: "('d, 'm) env \<Rightarrow> int \<Rightarrow> ('d, 'm, u64) call" where
  "sys_exit env status =
     bindP (getP (\<lambda>k. exit_handler (SCHEDULER k) status)) (\<lambda>(s, reap).
     bindP (getP (\<lambda>k. case current (SCHEDULER k) of Some p \<Rightarrow> parent_pid p \<noteq> None | None \<Rightarrow> False)) (\<lambda>has_parent.
     bindP (modP (\<lambda>k. case reap of Some (pt, pid) \<Rightarrow> k\<lparr>SCHEDULER := s, PENDING_REAP_PT := pt, PENDING_REAP_PID := pid\<rparr>
                               | None \<Rightarrow> k\<lparr>SCHEDULER := s\<rparr>)) (\<lambda>_.
     case current s of
       Some next \<Rightarrow>
         if has_parent then switch_to_user next
         else
           bindP (modP (\<lambda>k. k\<lparr>CR3 := page_table_phys next\<rparr>)) (\<lambda>_.
           bindP (reap_pending env) (\<lambda>_. failP Switched))
     | None \<Rightarrow> bindP (reap_pending env) (\<lambda>_. failP Halted))))"

section \<open>Directories and names\<close>

text \<open>The records of \<open>getdents64\<close>: 19 bytes of header, the name, its terminator and padding to a
  multiple of 8. The loop stops at the first record that does not fit.\<close>

definition aligned_size :: "string \<Rightarrow> nat" where
  "aligned_size name = (19 + length name + 1 + 7) div 8 * 8"

definition dirent :: "nat \<Rightarrow> string \<times> file_type \<Rightarrow> bytes" where
  "dirent index = (\<lambda>(name, ft).
     let record = le_bytes 8 (of_nat (index + 1) :: u64) @ le_bytes 8 (of_nat (index + 1) :: u64)
           @ le_bytes 2 (of_nat (aligned_size name) :: u16)
           @ [case ft of FileT \<Rightarrow> 8 | DirectoryT \<Rightarrow> 4] @ bytes_of_str name @ [0]
     in record @ replicate (aligned_size name - length record) 0)"

fun dirents :: "nat \<Rightarrow> (string \<times> file_type) list \<Rightarrow> nat \<Rightarrow> bytes \<times> nat" where
  "dirents index [] n = ([], 0)"
| "dirents index (e # es) n =
     (if aligned_size (fst e) > n then ([], 0)
      else (case dirents (index + 1) es (n - aligned_size (fst e)) of
              (bs, entries_read) \<Rightarrow> (dirent index e @ bs, entries_read + 1)))"

definition directory_entries ::
  "'d rd_op \<Rightarrow> (string \<Rightarrow> string) \<Rightarrow> fd_kind \<Rightarrow> ('d vfs, (string \<times> file_type) list \<times> nat, error_code) prog" where
  "directory_entries rd ulower kind =
     (case kind of
        FdDirectory opn \<Rightarrow>
          bindP (liftR (ok_or (files_get (of_node_index opn)) ENOENT)) (\<lambda>node.
          if fn_file_type node \<noteq> DirectoryT then failP ENOTDIR
          else bindP (list_directory rd ulower (fn_path node)) (\<lambda>entries. retP (entries, of_offset opn)))
      | FdDiskDirectory opn \<Rightarrow> bindP (diskfs_list_dir rd (od_inode opn)) (\<lambda>entries. retP (entries, od_offset opn))
      | FdTmpfsDirectory opn \<Rightarrow> bindP (tmpfs_list_dir (ot_inode opn)) (\<lambda>entries. retP (entries, ot_offset opn))
      | _ \<Rightarrow> failP ENOTDIR)"

definition getdents64_handler :: "'d rd_op \<Rightarrow> (string \<Rightarrow> string) \<Rightarrow> int \<Rightarrow> u64 \<Rightarrow> u64 \<Rightarrow> ('d, 'm, u64) call" where
  "getdents64_handler rd ulower fd buf len =
     bindP current_process (\<lambda>cur.
     bindP (try_err (fd_get (fd_table cur) fd)) (\<lambda>fd_kind.
     bindP (on_vfs (directory_entries rd ulower fd_kind)) (\<lambda>(entries, offset).
     if offset \<ge> length entries then retP 0
     else
       (case dirents offset (drop offset entries) (unat len) of
          (kernel_buf, entries_read) \<Rightarrow>
            bindP (if length kernel_buf > 0
                   then bindP (on_user (copy_to_user_bytes buf kernel_buf)) (\<lambda>_.
                        on_fds (update_directory_offset fd (offset + entries_read)))
                   else retP ()) (\<lambda>_.
            retP (of_nat (length kernel_buf)))))))"

text \<open>A string and its terminator to the user; the address of the terminator is a checked sum.\<close>

definition copy_string_out :: "u64 \<Rightarrow> bytes \<Rightarrow> ('d, 'm, unit) call" where
  "copy_string_out buf bs =
     bindP (on_user (copy_to_user_bytes buf bs)) (\<lambda>_.
     if 2 ^ 64 \<le> unat buf + length bs then panicP
     else bindP (on_user (copy_to_user_bytes (buf + of_nat (length bs)) [0])) (\<lambda>_. retP ()))"

definition getcwd_handler :: "u64 \<Rightarrow> u64 \<Rightarrow> ('d, 'm, u64) call" where
  "getcwd_handler buf len =
     bindP current_process (\<lambda>cur.
     if len = 0 then failP (Errno EINVAL)
     else if length (cwd cur) + 1 > unat len then failP (Errno ERANGE)
     else bindP (copy_string_out buf (bytes_of_str (cwd cur))) (\<lambda>_. retP buf))"

definition chdir_handler :: "u64 \<Rightarrow> ('d, 'm, u64) call" where
  "chdir_handler path_ptr =
     bindP (on_user (copy_user_cstr path_ptr 256)) (\<lambda>path.
     bindP current_process (\<lambda>cur.
     bindP (try_err (resolve_path (cwd cur) path)) (\<lambda>resolved_path.
     bindP (getP (\<lambda>k. validate_directory (VFS k) resolved_path)) (\<lambda>r.
     bindP (try_err r) (\<lambda>_.
     bindP (set_current (cur\<lparr>cwd := resolved_path\<rparr>)) (\<lambda>_.
     retP 0))))))"

definition unlink_handler :: "u64 \<Rightarrow> ('d, 'm, u64) call" where
  "unlink_handler path_ptr =
     bindP (on_user (copy_user_cstr path_ptr 256)) (\<lambda>path.
     bindP current_process (\<lambda>cur.
     bindP (try_err (resolve_path (cwd cur) path)) (\<lambda>resolved_path.
     bindP (on_vfs (unlink_path resolved_path)) (\<lambda>_.
     retP 0))))"

definition chmod_handler :: "'d rd_op \<Rightarrow> (string \<Rightarrow> string) \<Rightarrow> u64 \<Rightarrow> u16 \<Rightarrow> ('d, 'm, u64) call" where
  "chmod_handler rd ulower path_ptr mode =
     bindP (on_user (copy_user_cstr path_ptr 64)) (\<lambda>path.
     bindP current_process (\<lambda>cur.
     bindP (try_err (resolve_path (cwd cur) path)) (\<lambda>resolved_path.
     if mode > 511 then failP (Errno EINVAL)
     else
       bindP (on_vfs (stat_path rd ulower resolved_path)) (\<lambda>metadata.
       if pr_uid cur \<noteq> 0 \<and> pr_uid cur \<noteq> md_uid metadata then failP (Errno EPERM)
       else bindP (on_vfs (chmod_path resolved_path mode)) (\<lambda>_. retP 0)))))"

definition chown_handler :: "u64 \<Rightarrow> u32 \<Rightarrow> u32 \<Rightarrow> ('d, 'm, u64) call" where
  "chown_handler path_ptr uid gid =
     bindP (on_user (copy_user_cstr path_ptr 64)) (\<lambda>path.
     bindP current_process (\<lambda>cur.
     if pr_uid cur \<noteq> 0 then failP (Errno EPERM)
     else
       bindP (try_err (resolve_path (cwd cur) path)) (\<lambda>resolved_path.
       bindP (on_vfs (chown_path resolved_path uid gid)) (\<lambda>_.
       retP 0))))"

definition mkdir_handler :: "u64 \<Rightarrow> ('d, 'm, u64) call" where
  "mkdir_handler path_ptr =
     bindP (on_user (copy_user_cstr path_ptr 256)) (\<lambda>path.
     bindP current_process (\<lambda>cur.
     bindP (try_err (resolve_path (cwd cur) path)) (\<lambda>abs_path.
     bindP (getP (\<lambda>k. resolve_mount_path (VFS k) abs_path)) (\<lambda>m.
     case m of
       Some (_, rel_path, FsDisk) \<Rightarrow> failP (Errno EROFS)
     | Some (_, rel_path, FsTmpfs) \<Rightarrow>
         (case split_parent rel_path of (parent, name) \<Rightarrow> bindP (on_vfs (tmpfs_mkdir parent name)) (\<lambda>_. retP 0))
     | Some (_, rel_path, FsFat32) \<Rightarrow> failP (Errno EROFS)
     | None \<Rightarrow> failP (Errno EACCES)))))"

definition rmdir_handler :: "u64 \<Rightarrow> ('d, 'm, u64) call" where
  "rmdir_handler path_ptr =
     bindP (on_user (copy_user_cstr path_ptr 256)) (\<lambda>path.
     bindP current_process (\<lambda>cur.
     bindP (try_err (resolve_path (cwd cur) path)) (\<lambda>abs_path.
     bindP (getP (\<lambda>k. resolve_mount_path (VFS k) abs_path)) (\<lambda>m.
     case m of
       Some (_, rel_path, FsDisk) \<Rightarrow> failP (Errno EROFS)
     | Some (_, rel_path, FsTmpfs) \<Rightarrow>
         (case split_parent rel_path of (parent, name) \<Rightarrow> bindP (on_vfs (tmpfs_rmdir parent name)) (\<lambda>_. retP 0))
     | Some (_, rel_path, FsFat32) \<Rightarrow> failP (Errno EROFS)
     | None \<Rightarrow> failP (Errno EACCES)))))"

definition rename_handler :: "u64 \<Rightarrow> u64 \<Rightarrow> ('d, 'm, u64) call" where
  "rename_handler oldpath_ptr newpath_ptr =
     bindP (on_user (copy_user_cstr oldpath_ptr 256)) (\<lambda>oldpath.
     bindP (on_user (copy_user_cstr newpath_ptr 256)) (\<lambda>newpath.
     bindP current_process (\<lambda>cur.
     bindP (try_err (resolve_path (cwd cur) oldpath)) (\<lambda>abs_oldpath.
     bindP (try_err (resolve_path (cwd cur) newpath)) (\<lambda>abs_newpath.
     bindP (getP (\<lambda>k. (resolve_mount_path (VFS k) abs_oldpath, resolve_mount_path (VFS k) abs_newpath))) (\<lambda>mounts.
     case mounts of
       (None, None) \<Rightarrow> failP (Errno EACCES)
     | (Some (_, old_rel, old_fs), Some (_, new_rel, new_fs)) \<Rightarrow>
         if old_fs \<noteq> new_fs then failP (Errno EXDEV)
         else if old_fs = FsDisk then failP (Errno EROFS)
         else if old_fs = FsTmpfs then
           (case (split_parent old_rel, split_parent new_rel) of
              ((old_parent, old_name), (new_parent, new_name)) \<Rightarrow>
                bindP (on_vfs (tmpfs_rename old_parent old_name new_parent new_name)) (\<lambda>_. retP 0))
         else failP (Errno EXDEV)
     | _ \<Rightarrow> failP (Errno EXDEV)))))))"

section \<open>Identity, environment and offsets\<close>

definition getuid_handler :: "('d, 'm, u64) call" where
  "getuid_handler = bindP current_process (\<lambda>cur. retP (ucast (pr_uid cur)))"

definition getgid_handler :: "('d, 'm, u64) call" where
  "getgid_handler = bindP current_process (\<lambda>cur. retP (ucast (pr_gid cur)))"

definition setuid_handler :: "u32 \<Rightarrow> ('d, 'm, u64) call" where
  "setuid_handler uid =
     bindP current_process (\<lambda>cur.
     if pr_uid cur \<noteq> 0 then failP (Errno EPERM)
     else if uid \<noteq> 0 \<and> uid \<noteq> 1000 then failP (Errno EINVAL)
     else bindP (set_current (cur\<lparr>pr_uid := uid\<rparr>)) (\<lambda>_. retP 0))"

definition setgid_handler :: "u32 \<Rightarrow> ('d, 'm, u64) call" where
  "setgid_handler gid =
     bindP current_process (\<lambda>cur.
     if pr_uid cur \<noteq> 0 then failP (Errno EPERM)
     else if gid \<noteq> 0 \<and> gid \<noteq> 1000 then failP (Errno EINVAL)
     else bindP (set_current (cur\<lparr>pr_gid := gid\<rparr>)) (\<lambda>_. retP 0))"

definition getenv_handler :: "u64 \<Rightarrow> u64 \<Rightarrow> u64 \<Rightarrow> ('d, 'm, u64) call" where
  "getenv_handler name_ptr buf_ptr len =
     bindP (on_user (copy_user_cstr name_ptr 64)) (\<lambda>name.
     bindP current_process (\<lambda>cur.
     if name \<noteq> ''PATH'' then failP (Errno ENOENT)
     else if len = 0 then failP (Errno EINVAL)
     else if length (path_env cur) + 1 > unat len then failP (Errno ERANGE)
     else bindP (copy_string_out buf_ptr (bytes_of_str (path_env cur))) (\<lambda>_. retP (of_nat (length (path_env cur))))))"

text \<open>\<open>checked_add\<close> on 64-bit signed integers, and \<open>lseek\<close>.\<close>

definition checked_add_i64 :: "int \<Rightarrow> int \<Rightarrow> int option" where
  "checked_add_i64 a b = (if - (2 ^ 63) \<le> a + b \<and> a + b < 2 ^ 63 then Some (a + b) else None)"

definition seek_from :: "int \<Rightarrow> int \<Rightarrow> (int, error_code) result" where
  "seek_from base offset =
     bindR (ok_or (checked_add_i64 base offset) EINVAL) (\<lambda>r. if r < 0 then Err EINVAL else Ok r)"

definition lseek_handler :: "'d rd_op \<Rightarrow> int \<Rightarrow> int \<Rightarrow> int \<Rightarrow> ('d, 'm, u64) call" where
  "lseek_handler rd fd offset whence =
     bindP current_process (\<lambda>cur.
     bindP (if whence = 0 then (if offset < 0 then failP (Errno EINVAL) else retP offset)
            else if whence = 1 then
              bindP (try_err (get_offset (fd_table cur) fd)) (\<lambda>current_offset. try_err (seek_from current_offset offset))
            else if whence = 2 then
              bindP (on_fds (get_file_size rd fd)) (\<lambda>file_size. try_err (seek_from file_size offset))
            else failP (Errno EINVAL)) (\<lambda>new_offset.
     bindP (on_fds (set_offset fd new_offset)) (\<lambda>final_offset.
     retP (of_int final_offset))))"

section \<open>Standard input and output\<close>

definition sys_write :: "int \<Rightarrow> u64 \<Rightarrow> u64 \<Rightarrow> ('d, 'm, u64) call" where
  "sys_write fd buf len =
     (if fd = 1 \<or> fd = 2 then
        tryP (write_handler fd buf len) (\<lambda>r.
        case r of
          Ok n \<Rightarrow> retP n
        | Err e \<Rightarrow>
            if e \<noteq> Errno EBADF then failP e
            else if buf = 0 \<or> len = 0 then retP 0
            else if len > 4096 then failP (Errno EINVAL)
            else
              bindP (on_user (copy_user_bytes buf (unat len) 4096)) (\<lambda>slice.
              bindP (modP (\<lambda>k. k\<lparr>SERIAL_OUT := SERIAL_OUT k @ slice\<rparr>)) (\<lambda>_.
              retP len)))
      else write_handler fd buf len)"

definition run_tty_action :: "tty_action \<Rightarrow> ('d, 'm, unit) call" where
  "run_tty_action act =
     (case act of
        SendSignal \<Rightarrow> on_sched (\<lambda>s. bindO (signal_handler s) (\<lambda>s'. Ret (s', Ok ())))
      | SendStopSignal \<Rightarrow> on_sched (\<lambda>s. bindO (stop_signal_handler s) (\<lambda>s'. Ret (s', Ok ())))
      | LineReady \<Rightarrow> retP ()
      | TtyNone \<Rightarrow> retP ())"

text \<open>The loop of \<open>sys_read\<close> on the terminal. Every round without a line takes one byte of the
  device, so that as many rounds as there are bytes, and one more, are enough.\<close>

fun tty_wait :: "nat \<Rightarrow> u64 \<Rightarrow> nat \<Rightarrow> ('d, 'm, u64) call" where
  "tty_wait 0 buf len = failP Waiting"
| "tty_wait (Suc fuel) buf len =
     bindP (getP (\<lambda>k. tty_read (GLOBAL_TTY k) len)) (\<lambda>(t, got).
     bindP (modP (\<lambda>k. k\<lparr>GLOBAL_TTY := t\<rparr>)) (\<lambda>_.
     case got of
       Some bs \<Rightarrow> bindP (on_user (copy_to_user_bytes buf bs)) (\<lambda>_. retP (of_nat (length bs)))
     | None \<Rightarrow>
         bindP (getP DEVICE_INPUT) (\<lambda>inp.
         case inp of
           [] \<Rightarrow> failP Waiting
         | byte # rest \<Rightarrow>
             bindP (modP (\<lambda>k. k\<lparr>DEVICE_INPUT := rest\<rparr>)) (\<lambda>_.
             bindP (getP (\<lambda>k. input_byte (GLOBAL_TTY k) byte)) (\<lambda>(t', out, act).
             bindP (modP (\<lambda>k. k\<lparr>GLOBAL_TTY := t', SERIAL_OUT := SERIAL_OUT k @ out\<rparr>)) (\<lambda>_.
             bindP (run_tty_action act) (\<lambda>_.
             tty_wait fuel buf len)))))))"

definition sys_read :: "'d rd_op \<Rightarrow> int \<Rightarrow> u64 \<Rightarrow> u64 \<Rightarrow> ('d, 'm, u64) call" where
  "sys_read rd fd buf len =
     (if len = 0 then retP 0
      else if buf = 0 then failP (Errno EFAULT)
      else if fd = 0 then
        tryP (read_handler rd fd buf len) (\<lambda>r.
        case r of
          Ok n \<Rightarrow> retP n
        | Err e \<Rightarrow>
            if e \<noteq> Errno EBADF then failP e
            else if len > 4096 then failP (Errno EINVAL)
            else bindP (getP (\<lambda>k. length (DEVICE_INPUT k) + 1)) (\<lambda>fuel. tty_wait fuel buf (unat len)))
      else if fd = 1 \<or> fd = 2 then failP (Errno EBADF)
      else read_handler rd fd buf len)"

definition sys_open :: "'d rd_op \<Rightarrow> (string \<Rightarrow> string) \<Rightarrow> u64 \<Rightarrow> u64 \<Rightarrow> ('d, 'm, u64) call" where
  "sys_open rd ulower path_ptr flags =
     bindP (on_user (copy_user_cstr path_ptr 64)) (\<lambda>path. open_handler rd ulower path flags)"

definition sys_yield :: "('d, 'm, u64) call" where
  "sys_yield = bindP yield_handler (\<lambda>_. retP 0)"

section \<open>Dispatch\<close>

definition syscall_table :: "(u64 \<times> syscall_number \<times> string) list" where
  "syscall_table =
     [(0, Read, ''read''), (1, Write, ''write''), (2, Open, ''open''), (3, Close, ''close''), (4, Stat, ''stat''),
      (5, Fstat, ''fstat''), (8, Lseek, ''lseek''), (9, Mmap, ''mmap''), (10, Mprotect, ''mprotect''),
      (11, Munmap, ''munmap''), (12, Brk, ''brk''), (22, PipeCall, ''pipe''), (24, Yield, ''yield''), (32, Dup, ''dup''),
      (33, Dup2, ''dup2''), (37, Kill, ''kill''), (39, Getpid, ''getpid''), (57, Fork, ''fork''),
      (59, Execve, ''execve''), (60, Exit, ''exit''), (61, Wait4, ''wait4''), (79, Getcwd, ''getcwd''),
      (80, Chdir, ''chdir''), (82, Rename, ''rename''), (83, Mkdir, ''mkdir''), (84, Rmdir, ''rmdir''),
      (87, Unlink, ''unlink''), (90, Chmod, ''chmod''), (92, Chown, ''chown''), (102, Getuid, ''getuid''),
      (104, Getgid, ''getgid''), (105, Setuid, ''setuid''), (106, Setgid, ''setgid''), (109, Setpgid, ''setpgid''),
      (217, Getdents64, ''getdents64''), (63, Getenv, ''getenv''), (41, Socket, ''socket''), (44, Sendto, ''sendto''),
      (45, Recvfrom, ''recvfrom'')]"

definition from_u64 :: "u64 \<Rightarrow> syscall_number option" where
  "from_u64 n = map_option fst (map_of syscall_table n)"

definition i32_of :: "u64 \<Rightarrow> int" where
  "i32_of a = sint (ucast a :: u32)"

definition call_of :: "('d, 'm) env \<Rightarrow> syscall_number \<Rightarrow> u64 \<Rightarrow> u64 \<Rightarrow> u64 \<Rightarrow> u64 \<Rightarrow> u64 \<Rightarrow> u64 \<Rightarrow> ('d, 'm, u64) call" where
  "call_of env n a1 a2 a3 a4 a5 a6 =
     (case n of
        Exit \<Rightarrow> sys_exit env (i32_of a1)
      | Read \<Rightarrow> sys_read (env_rd env) (i32_of a1) a2 a3
      | Write \<Rightarrow> sys_write (i32_of a1) a2 a3
      | Open \<Rightarrow> sys_open (env_rd env) (env_ulower env) a1 a2
      | Close \<Rightarrow> close_handler (i32_of a1)
      | Stat \<Rightarrow> stat_handler (env_rd env) (env_ulower env) a1 a2
      | Fstat \<Rightarrow> fstat_handler (env_rd env) (i32_of a1) a2
      | Lseek \<Rightarrow> lseek_handler (env_rd env) (i32_of a1) (sint a2) (i32_of a3)
      | Getpid \<Rightarrow> getpid_handler
      | Yield \<Rightarrow> sys_yield
      | Fork \<Rightarrow> fork_handler env
      | Wait4 \<Rightarrow> waitpid_handler env (sint a1) a2 (ucast a3)
      | PipeCall \<Rightarrow> pipe_handler a1
      | Dup2 \<Rightarrow> dup2_handler (i32_of a1) (i32_of a2)
      | Kill \<Rightarrow> kill_call (i32_of a1) (i32_of a2)
      | Setpgid \<Rightarrow> setpgid_handler (i32_of a1) (i32_of a2)
      | Getdents64 \<Rightarrow> getdents64_handler (env_rd env) (env_ulower env) (i32_of a1) a2 a3
      | Getcwd \<Rightarrow> getcwd_handler a1 a2
      | Chdir \<Rightarrow> chdir_handler a1
      | Rename \<Rightarrow> rename_handler a1 a2
      | Mkdir \<Rightarrow> mkdir_handler a1
      | Rmdir \<Rightarrow> rmdir_handler a1
      | Unlink \<Rightarrow> unlink_handler a1
      | Getenv \<Rightarrow> getenv_handler a1 a2 a3
      | Chmod \<Rightarrow> chmod_handler (env_rd env) (env_ulower env) a1 (ucast a2)
      | Chown \<Rightarrow> chown_handler a1 (ucast a2) (ucast a3)
      | Getuid \<Rightarrow> getuid_handler
      | Getgid \<Rightarrow> getgid_handler
      | Setuid \<Rightarrow> setuid_handler (ucast a1)
      | Setgid \<Rightarrow> setgid_handler (ucast a1)
      | Mprotect \<Rightarrow> failP (Errno ENOSYS)
      | Munmap \<Rightarrow> failP (Errno ENOSYS)
      | Dup \<Rightarrow> failP (Errno ENOSYS)
      | _ \<Rightarrow> env_other env n [a1, a2, a3, a4, a5, a6])"

definition encode_result :: "(u64, error_code) result \<Rightarrow> u64" where
  "encode_result r = (case r of Ok v \<Rightarrow> v | Err e \<Rightarrow> of_int (to_syscall_result e))"

text \<open>\<open>handle_syscall\<close>: an error becomes a negative result; what does not return is passed on.\<close>

definition handle_syscall :: "('d, 'm) env \<Rightarrow> u64 \<Rightarrow> u64 \<Rightarrow> u64 \<Rightarrow> u64 \<Rightarrow> u64 \<Rightarrow> u64 \<Rightarrow> u64 \<Rightarrow> ('d, 'm, u64) call" where
  "handle_syscall env number a1 a2 a3 a4 a5 a6 =
     (case from_u64 number of
        None \<Rightarrow> retP (encode_result (Err ENOSYS))
      | Some n \<Rightarrow>
          tryP (call_of env n a1 a2 a3 a4 a5 a6) (\<lambda>r.
          case r of
            Ok v \<Rightarrow> retP (encode_result (Ok v))
          | Err (Errno e) \<Rightarrow> retP (encode_result (Err e))
          | Err t \<Rightarrow> failP t))"

section \<open>Entry and exit\<close>

definition check_and_handle_preemption :: "('d, 'm, unit) call" where
  "check_and_handle_preemption =
     bindP (getP NEED_RESCHED) (\<lambda>need_resched.
     if need_resched
     then bindP (modP (\<lambda>k. k\<lparr>NEED_RESCHED := False\<rparr>)) (\<lambda>_. yield_handler)
     else retP ())"

definition syscall_handler_rust :: "('d, 'm) env \<Rightarrow> ('d, 'm, u64) call" where
  "syscall_handler_rust env =
     bindP (getP context_ptr) (\<lambda>ctx.
     bindP (handle_syscall env (rax ctx) (rdi ctx) (rsi ctx) (rdx ctx) (r10 ctx) (r8 ctx) (r9 ctx)) (\<lambda>result.
     bindP check_and_handle_preemption (\<lambda>_.
     retP result)))"

text \<open>\<open>syscall_entry\<close>: the registers of the caller go to the context the pointer refers to, with
  the instruction pointer taken from \<open>rcx\<close> and the flags from \<open>r11\<close>; a returning call stores its
  result in \<open>rax\<close> of that context. The registers at \<open>sysretq\<close> are those of the context.\<close>

definition save_registers :: "cpu_context \<Rightarrow> cpu_context \<Rightarrow> cpu_context" where
  "save_registers regs ctx = regs\<lparr>rip := rcx regs, rflags := r11 regs, cs := cs ctx, ss := ss ctx\<rparr>"

definition set_context :: "(cpu_context \<Rightarrow> cpu_context) \<Rightarrow> ('d, 'm) kernel \<Rightarrow> ('d, 'm) kernel" where
  "set_context f k = (case current (SCHEDULER k) of
     Some p \<Rightarrow> k\<lparr>SCHEDULER := (SCHEDULER k)\<lparr>current := Some (p\<lparr>pr_context := f (pr_context p)\<rparr>)\<rparr>\<rparr>
   | None \<Rightarrow> k\<lparr>CURRENT_CONTEXT := f (CURRENT_CONTEXT k)\<rparr>)"

definition syscall_entry :: "('d, 'm) env \<Rightarrow> cpu_context \<Rightarrow> ('d, 'm, unit) call" where
  "syscall_entry env regs =
     bindP (modP (set_context (save_registers regs))) (\<lambda>_.
     bindP (syscall_handler_rust env) (\<lambda>result.
     modP (set_context (\<lambda>ctx. ctx\<lparr>rax := result\<rparr>))))"

definition user_registers :: "('d, 'm) kernel \<Rightarrow> cpu_context" where
  "user_registers k = (let ctx = context_ptr k in ctx\<lparr>rcx := rip ctx, r11 := rflags ctx\<rparr>)"

end
