(* ===== verification/Fd_Accounting.thy ===== *)
theory Fd_Accounting
  imports Vfs
begin

text \<open>
  Descriptors against pipes: a descriptor table holds references to the ends of pipes, and the pool
  counts them. Every operation of \<open>kernel/src/fs.rs\<close> on a table keeps the counts at least as high as
  the number of descriptors, those of the other processes included.
\<close>

section \<open>Programs that keep an invariant\<close>

named_theorems pres_rules

definition pres :: "('s \<Rightarrow> bool) \<Rightarrow> ('s, 'a, 'e) prog \<Rightarrow> bool" where
  "pres I m \<longleftrightarrow> (\<forall>s s' r. I s \<longrightarrow> m s = Ret (s', r) \<longrightarrow> I s')"

lemma presD: "pres I m \<Longrightarrow> I s \<Longrightarrow> m s = Ret (s', r) \<Longrightarrow> I s'"
  by (auto simp: pres_def)

lemma pres_ret [pres_rules]: "pres I (retP x)"
  by (simp add: pres_def retP_def)

lemma pres_fail [pres_rules]: "pres I (failP e)"
  by (simp add: pres_def failP_def)

lemma pres_panic [pres_rules]: "pres I panicP"
  by (simp add: pres_def panicP_def)

lemma pres_get [pres_rules]: "pres I (getP f)"
  by (simp add: pres_def getP_def)

lemma pres_liftR [pres_rules]: "pres I (liftR r)"
  by (simp add: pres_def liftR_def)

lemma pres_liftO [pres_rules]: "pres I (liftO r)"
  by (simp add: pres_def liftO_def split: outcome.splits)

lemma pres_mod [pres_rules]: "(\<And>s. I s \<Longrightarrow> I (f s)) \<Longrightarrow> pres I (modP f)"
  by (auto simp: pres_def modP_def)

lemma pres_bind [pres_rules]:
  assumes "pres I m" "\<And>x. pres I (f x)"
  shows "pres I (bindP m f)"
  unfolding pres_def
proof (intro allI impI)
  fix s s' r assume s: "I s" "bindP m f s = Ret (s', r)"
  then obtain s1 r1 where m: "m s = Ret (s1, r1)"
    by (auto simp: bindP_def split: outcome.splits)
  note s1 = presD [OF assms(1) s(1) m]
  show "I s'"
  proof (cases r1)
    case (Ok x)
    with s(2) m have "f x s1 = Ret (s', r)" by (simp add: bindP_def)
    then show ?thesis by (rule presD [OF assms(2) s1])
  next
    case (Err e)
    with s(2) m s1 show ?thesis by (simp add: bindP_def)
  qed
qed

lemma pres_try [pres_rules]:
  assumes "pres I m" "\<And>x. pres I (f x)"
  shows "pres I (tryP m f)"
  unfolding pres_def
proof (intro allI impI)
  fix s s' r assume s: "I s" "tryP m f s = Ret (s', r)"
  then obtain s1 r1 where m: "m s = Ret (s1, r1)" "f r1 s1 = Ret (s', r)"
    by (auto simp: tryP_def split: outcome.splits)
  show "I s'" by (rule presD [OF assms(2) presD [OF assms(1) s(1) m(1)] m(2)])
qed

lemma pres_if [pres_rules]: "(b \<Longrightarrow> pres I m) \<Longrightarrow> (\<not> b \<Longrightarrow> pres I n) \<Longrightarrow> pres I (if b then m else n)"
  by simp

lemma pres_zoom:
  "(\<And>s t r. I s \<Longrightarrow> m (gt s) = Ret (t, r) \<Longrightarrow> I (st t s)) \<Longrightarrow> pres I (zoomP gt st m)"
  by (auto simp: pres_def zoomP_def split: outcome.splits)

section \<open>Programs that leave the pipes alone\<close>

abbreviation quiet :: "('d vfs, 'a, error_code) prog \<Rightarrow> bool" where
  "quiet m \<equiv> \<forall>P. pres (\<lambda>v. PIPES v = P) m"

lemma quiet_with_tmpfs: "pres (\<lambda>v. PIPES v = P) (with_tmpfs m)"
  by (auto simp: pres_def with_tmpfs_def zoomP_def split: option.splits outcome.splits)

lemma quiet_with_disk: "pres (\<lambda>(v, x). PIPES v = P) (with_disk m)"
  by (auto simp: pres_def with_disk_def split: option.splits outcome.splits)

lemma quiet_with_fat32: "pres (\<lambda>(v, x). PIPES v = P) (with_fat32 m)"
  by (auto simp: pres_def with_fat32_def split: option.splits outcome.splits)

lemma quiet_no_buf: "pres (\<lambda>(v, x). PIPES v = P) m \<Longrightarrow> pres (\<lambda>v. PIPES v = P) (no_buf m)"
  using presD [of "\<lambda>(v, x). PIPES v = P" m "(_, ())"]
  by (auto simp: pres_def [of "\<lambda>v. PIPES v = P"] no_buf_def zoomP_def split: outcome.splits)

lemmas quiet_defs = diskfs_lookup_def diskfs_stat_def fat32_lookup_def tmpfs_lookup_def tmpfs_create_def tmpfs_read_def
  tmpfs_write_def tmpfs_truncate_def tmpfs_stat_def

lemma quiet_calls [pres_rules]:
  "pres (\<lambda>v. PIPES v = P) (diskfs_lookup rd path)"
  "pres (\<lambda>v. PIPES v = P) (diskfs_stat rd i)"
  "pres (\<lambda>v. PIPES v = P) (fat32_lookup rd ulower path)"
  "pres (\<lambda>v. PIPES v = P) (tmpfs_lookup path)"
  "pres (\<lambda>v. PIPES v = P) (tmpfs_create path name d)"
  "pres (\<lambda>v. PIPES v = P) (tmpfs_read i offset b)"
  "pres (\<lambda>v. PIPES v = P) (tmpfs_write i offset b)"
  "pres (\<lambda>v. PIPES v = P) (tmpfs_truncate i)"
  "pres (\<lambda>v. PIPES v = P) (tmpfs_stat i)"
  unfolding quiet_defs Let_def
  by (intro pres_rules quiet_with_tmpfs quiet_no_buf quiet_with_disk quiet_with_fat32)+

lemma quiet_stat_path [pres_rules]: "pres (\<lambda>v. PIPES v = P) (stat_path rd ulower path)"
  unfolding stat_path_def
  by (intro pres_rules) (auto intro!: pres_rules split: option.split fs_type.split)

lemma quiet_create_dynamic_file [pres_rules]: "pres (\<lambda>v. PIPES v = P) (create_dynamic_file path)"
  unfolding create_dynamic_file_def Let_def by (intro pres_rules) simp_all

lemma quiet_open_tmpfs_inode [pres_rules]: "pres (\<lambda>v. PIPES v = P) (open_tmpfs_inode path flags)"
  unfolding open_tmpfs_inode_def
  by (intro pres_rules) (auto intro!: pres_rules split: result.split prod.split)

section \<open>References\<close>

definition is_pipe :: "fd_kind \<Rightarrow> bool" where
  "is_pipe k \<longleftrightarrow> (case k of PipeRead i \<Rightarrow> True | PipeWrite i \<Rightarrow> True | _ \<Rightarrow> False)"

definition refc :: "pipe_pool \<Rightarrow> fd_kind \<Rightarrow> nat" where
  "refc pool k =
     (case k of
        PipeRead i \<Rightarrow> if i < length pool then read_refcount (pool ! i) else 0
      | PipeWrite i \<Rightarrow> if i < length pool then write_refcount (pool ! i) else 0
      | _ \<Rightarrow> 0)"

definition cnt :: "fd_table \<Rightarrow> fd_kind \<Rightarrow> nat" where
  "cnt t k = length (filter (\<lambda>e. e = Some k) t)"

text \<open>Every pipe end has at least as many references as descriptors refer to it, \<open>f\<close> counting the
  descriptors of the other tables.\<close>

definition safe :: "pipe_pool \<Rightarrow> (fd_kind \<Rightarrow> nat) \<Rightarrow> bool" where
  "safe pool f \<longleftrightarrow> (\<forall>k. is_pipe k \<longrightarrow> f k \<le> refc pool k)"

definition fdI :: "(fd_kind \<Rightarrow> nat) \<Rightarrow> 'd vfs \<times> fd_table \<Rightarrow> bool" where
  "fdI f = (\<lambda>(v, t). length t = MAX_FDS \<and> (\<forall>k. f k + MAX_FDS \<le> usize_max) \<and> safe (PIPES v) (\<lambda>k. f k + cnt t k))"

definition ref1 :: "fd_kind \<Rightarrow> fd_kind \<Rightarrow> nat" where
  "ref1 k k' = (if k' = k then 1 else 0)"

lemma cnt_update:
  "i < length t \<Longrightarrow> cnt (t[i := e]) k + (if t ! i = Some k then 1 else 0) = cnt t k + (if e = Some k then 1 else 0)"
proof (induction t arbitrary: i)
  case Nil
  then show ?case by simp
next
  case (Cons a t)
  show ?case using Cons.IH [of "i - 1"] Cons.prems by (cases i) (auto simp: cnt_def split: if_splits)
qed

lemma cnt_update_other: "e \<noteq> Some k \<Longrightarrow> cnt (t[i := e]) k \<le> cnt t k"
  using cnt_update [of i t e k] by (cases "i < length t") (auto simp: list_update_beyond split: if_splits)

lemma cnt_update_le: "cnt (t[i := e]) k \<le> cnt t k + (if e = Some k then 1 else 0)"
  using cnt_update [of i t e k] by (cases "i < length t") (auto simp: list_update_beyond split: if_splits)

lemma safe_mono: "safe pool f \<Longrightarrow> (\<And>k. is_pipe k \<Longrightarrow> g k \<le> f k) \<Longrightarrow> safe pool g"
  unfolding safe_def using order_trans by blast

lemma safeD: "safe pool f \<Longrightarrow> is_pipe k \<Longrightarrow> f k \<le> refc pool k"
  by (simp add: safe_def)

lemma fdI_cong: "fdI f (v, t) \<Longrightarrow> PIPES v' = PIPES v \<Longrightarrow> fdI f (v', t)"
  by (simp add: fdI_def)

lemma keep_on_fst [pres_rules]:
  assumes "\<And>P. pres (\<lambda>v. PIPES v = P) m"
  shows "pres (fdI f) (on_fst m)"
  unfolding on_fst_def
proof (rule pres_zoom, goal_cases)
  case (1 s v' r)
  then show ?case using presD [OF assms refl, of "fst s" v' r] by (cases s) (auto intro: fdI_cong)
qed

lemma keep_set_entry [pres_rules]:
  "\<forall>k. e = Some k \<longrightarrow> \<not> is_pipe k \<Longrightarrow> pres (fdI f) (set_entry fd e)"
  unfolding set_entry_def
  by (rule pres_mod) (auto simp: fdI_def intro!: cnt_update_other elim!: safe_mono)

lemma keep_mod_vfs:
  "(\<And>v. PIPES (g v) = PIPES v) \<Longrightarrow> pres (fdI f) (modP (\<lambda>(v, t). (g v, t)))"
  by (rule pres_mod) (auto simp: fdI_def)

lemma keep_open_entry [pres_rules]: "\<not> is_pipe k \<Longrightarrow> pres (fdI f) (open_entry k)"
  unfolding open_entry_def by (intro pres_rules) simp

lemma keep_open_node: "pres (fdI f) (open_node_with_flags rd ulower i flags uid gid)"
  unfolding open_node_with_flags_def
  by (intro pres_rules)
    (auto intro!: pres_rules keep_mod_vfs simp: is_pipe_def split: file_type.split)

lemma keep_open_readonly [pres_rules]:
  "\<not> is_pipe k \<Longrightarrow> \<not> is_pipe k' \<Longrightarrow> pres (fdI f) (open_readonly flags uid gid md k k')"
  unfolding open_readonly_def by (auto intro!: pres_rules split: file_type.split)

lemma keep_open_path: "pres (fdI f) (open_path_with_flags rd ulower path flags uid gid)"
  unfolding open_path_with_flags_def Let_def
  by (intro pres_rules)
    (auto intro!: pres_rules keep_open_node simp: is_pipe_def split: option.split fs_type.split file_type.splits)

lemma keep_write: "pres (fdI f) (fd_write fd data)"
  unfolding fd_write_def Let_def
  by (intro pres_rules)
    (auto intro!: pres_rules keep_mod_vfs simp: is_pipe_def split: fd_kind.split)

lemma kind_seek_not_pipe: "kind_seek kind n = Ok k \<Longrightarrow> \<not> is_pipe k"
  by (cases kind) (auto simp: is_pipe_def)

lemma pres_liftR_bind: "(\<And>x. r = Ok x \<Longrightarrow> pres I (f x)) \<Longrightarrow> pres I (bindP (liftR r) f)"
  by (cases r) (auto simp: pres_def bindP_def liftR_def)

lemma keep_seek: "pres (fdI f) (set_offset fd n)"
  unfolding set_offset_def
  by (intro pres_rules pres_liftR_bind) (auto dest: kind_seek_not_pipe)

lemma keep_dir_offset: "pres (fdI f) (update_directory_offset fd n)"
  unfolding update_directory_offset_def
  by (intro pres_rules) (auto intro!: pres_rules simp: is_pipe_def split: fd_kind.split)

lemma keep_file_size: "pres (fdI f) (get_file_size rd fd)"
  unfolding get_file_size_def by (intro pres_rules) (auto intro!: pres_rules split: fd_kind.split)

lemma keep_fstat: "pres (fdI f) (fstat_fd rd fd)"
  unfolding fstat_fd_def by (intro pres_rules) (auto intro!: pres_rules split: fd_kind.split)

section \<open>References taken and given back\<close>

definition close_pool :: "fd_kind \<Rightarrow> pipe_pool \<Rightarrow> pipe_pool \<times> (unit, error_code) result" where
  "close_pool kind pool =
     (case kind of
        PipeRead i \<Rightarrow> pipe_close_read pool i
      | PipeWrite i \<Rightarrow> pipe_close_write pool i
      | _ \<Rightarrow> (pool, Ok ()))"

definition open_pool :: "fd_kind \<Rightarrow> pipe_pool \<Rightarrow> pipe_pool \<times> (unit, error_code) result" where
  "open_pool kind pool =
     (case kind of
        PipeRead i \<Rightarrow> pipe_open_read_end pool i
      | PipeWrite i \<Rightarrow> pipe_open_write_end pool i
      | _ \<Rightarrow> (pool, Ok ()))"

lemma fd_close_run:
  "fd_close fd (v, t) =
     (if fd_bad fd then Ret ((v, t), Err EBADF)
      else if fd_std fd then Ret ((v, t), Err EINVAL)
      else case t ! nat fd of
        None \<Rightarrow> Ret ((v, t), Err EBADF)
      | Some kind \<Rightarrow> (case close_pool kind (PIPES v) of (pool, r) \<Rightarrow> Ret ((v\<lparr>PIPES := pool\<rparr>, t[nat fd := None]), r)))"
  by (cases v) (auto simp: fd_close_def prog_defs set_entry_def close_pool_def on_pipes_def
      split: option.splits fd_kind.splits prod.splits)

lemma open_end_run:
  "open_end kind (v, x) = (case open_pool kind (PIPES v) of (pool, r) \<Rightarrow> Ret ((v\<lparr>PIPES := pool\<rparr>, x), r))"
  by (cases v) (auto simp: open_end_def prog_defs open_pool_def on_pipes_def split: fd_kind.splits prod.splits)

lemmas pool_defs = pipe_close_read_def pipe_close_write_def pipe_open_read_end_def pipe_open_write_end_def
  pool_update_def pool_get_def pipe_close_read_ref_def pipe_close_write_ref_def pipe_open_read_def pipe_open_write_def

lemma close_pool_refc:
  assumes "close_pool kind pool = (pool', r)"
  shows "refc pool k \<le> refc pool' k + ref1 kind k"
  using assms
  by (cases kind; cases k)
    (auto simp: close_pool_def pool_defs refc_def ref1_def nth_list_update split: if_splits option.splits)

lemma open_pool_refc:
  assumes "open_pool kind pool = (pool', r)" "is_pipe k"
  shows "case r of Ok _ \<Rightarrow> min usize_max (refc pool k + ref1 kind k) \<le> refc pool' k | Err _ \<Rightarrow> pool' = pool"
  using assms
  by (cases kind; cases k)
    (auto simp: open_pool_def pool_defs refc_def ref1_def nth_list_update is_pipe_def split: if_splits option.splits)

lemma open_pool_safe:
  assumes "open_pool kind pool = (pool', r)" "safe pool g" "\<And>k. is_pipe k \<Longrightarrow> g k + ref1 kind k \<le> usize_max"
  shows "case r of Ok _ \<Rightarrow> safe pool' (\<lambda>k. g k + ref1 kind k) | Err _ \<Rightarrow> pool' = pool"
proof (cases r)
  case (Err e)
  have "is_pipe (PipeRead 0)" by (simp add: is_pipe_def)
  from open_pool_refc [OF assms(1) this] Err show ?thesis by simp
next
  case (Ok x)
  have "g k + ref1 kind k \<le> refc pool' k" if "is_pipe k" for k
    using open_pool_refc [OF assms(1) that] safeD [OF assms(2) that] assms(3) [OF that] Ok by simp
  then show ?thesis using Ok by (simp add: safe_def)
qed

lemma close_pool_safe:
  assumes "close_pool kind pool = (pool', r)" "safe pool (\<lambda>k. g k + ref1 kind k)"
  shows "safe pool' g"
  unfolding safe_def
proof (intro allI impI)
  fix k assume "is_pipe k"
  from safeD [OF assms(2) this] close_pool_refc [OF assms(1), of k] show "g k \<le> refc pool' k" by simp
qed

lemma cnt_clear: "i < length t \<Longrightarrow> t ! i = Some kind \<Longrightarrow> cnt t k = cnt (t[i := None]) k + ref1 kind k"
  using cnt_update [of i t None k] by (auto simp: ref1_def split: if_splits)

lemma keep_close: "pres (fdI f) (fd_close fd)"
  unfolding pres_def
proof (intro allI impI)
  fix s s' r assume s: "fdI f s" "fd_close fd s = Ret (s', r)"
  obtain v t where [simp]: "s = (v, t)" by fastforce
  show "fdI f s'"
  proof (cases "fd_bad fd \<or> fd_std fd \<or> t ! nat fd = None")
    case True
    with s show ?thesis by (auto simp: fd_close_run split: if_splits)
  next
    case False
    then obtain kind where kind: "t ! nat fd = Some kind" by auto
    obtain pool r' where c: "close_pool kind (PIPES v) = (pool, r')" by fastforce
    have i: "nat fd < length t" using False s(1) by (auto simp: fd_bad_def fdI_def)
    have "safe pool (\<lambda>k. f k + cnt (t[nat fd := None]) k)"
      by (rule close_pool_safe [OF c]) (use s(1) cnt_clear [OF i kind] in \<open>simp add: fdI_def add.assoc\<close>)
    with s False kind c show ?thesis by (auto simp: fd_close_run fdI_def)
  qed
qed

lemma cnt_le: "cnt t k \<le> length t"
  by (simp add: cnt_def)

lemma keep_open_end_set: "pres (fdI f) (bindP (open_end kind) (\<lambda>_. set_entry n (Some kind)))"
  unfolding pres_def
proof (intro allI impI)
  fix s s' r assume s: "fdI f s" "bindP (open_end kind) (\<lambda>_. set_entry n (Some kind)) s = Ret (s', r)"
  obtain v t where vt: "s = (v, t)" by fastforce
  obtain pool r1 where o: "open_pool kind (PIPES v) = (pool, r1)" by fastforce
  let ?t = "t[n := Some kind]"
  have len: "length t = MAX_FDS" "\<And>k. f k + MAX_FDS \<le> usize_max" "safe (PIPES v) (\<lambda>k. f k + cnt t k)"
    using s(1) vt by (auto simp: fdI_def)
  show "fdI f s'"
  proof (cases r1)
    case (Err e)
    with s vt o open_pool_refc [OF o, of "PipeRead 0"] show ?thesis
      by (auto simp: bindP_def open_end_run fdI_def is_pipe_def)
  next
    case (Ok x)
    have "f k + cnt ?t k \<le> refc pool k" if k: "is_pipe k" for k
    proof -
      have "f k + cnt ?t k \<le> f k + cnt t k + ref1 kind k"
        using cnt_update_le [of t n "Some kind" k] by (auto simp: ref1_def split: if_splits)
      moreover have "f k + cnt ?t k \<le> usize_max"
        using cnt_le [of ?t k] len(2) [of k] len(1) by simp
      ultimately show ?thesis
        using open_pool_refc [OF o k] safeD [OF len(3) k] Ok by simp
    qed
    with s vt o Ok len show ?thesis
      by (auto simp: bindP_def open_end_run fdI_def safe_def set_entry_def modP_def)
  qed
qed

lemma keep_dup2: "pres (fdI f) (dup2 oldfd newfd)"
  unfolding dup2_def
  by (rule pres_if pres_fail pres_bind pres_get pres_liftR keep_open_end_set keep_close pres_ret)+

text \<open>A copy of a table takes one reference for every descriptor; a failure on the way leaves
  references behind that nobody holds.\<close>

lemma fork_fold:
  assumes "safe (PIPES v) g" "\<And>k. is_pipe k \<Longrightarrow> g k + cnt us k \<le> usize_max"
    "foldP (\<lambda>_ entry. case entry of Some kind \<Rightarrow> open_end kind | None \<Rightarrow> retP ()) () us (v, x) = Ret ((v', x'), r)"
  shows "x' = x \<and> (case r of Ok _ \<Rightarrow> safe (PIPES v') (\<lambda>k. g k + cnt us k) | Err _ \<Rightarrow> safe (PIPES v') g)"
  using assms
proof (induction us arbitrary: v g)
  case Nil
  then show ?case by (auto simp: retP_def cnt_def)
next
  case (Cons e us)
  show ?case
  proof (cases e)
    case None
    then have c: "cnt (e # us) = cnt us" by (auto simp: cnt_def)
    have "is_pipe k \<Longrightarrow> g k + cnt us k \<le> usize_max" for k using Cons.prems(2) [of k] c by simp
    from Cons.IH [OF Cons.prems(1) this] Cons.prems(3) None show ?thesis
      unfolding c by (simp add: bindP_def retP_def)
  next
    case (Some kind)
    then have c: "cnt (e # us) k = ref1 kind k + cnt us k" for k by (auto simp: cnt_def ref1_def)
    obtain pool r1 where o: "open_pool kind (PIPES v) = (pool, r1)" by fastforce
    note p = open_pool_safe [OF o Cons.prems(1)]
    have b: "is_pipe k \<Longrightarrow> g k + ref1 kind k \<le> usize_max" for k using Cons.prems(2) [of k] c [of k] by simp
    show ?thesis
    proof (cases r1)
      case (Err e')
      with Cons.prems(1,3) Some o p [OF b] show ?thesis by (auto simp: bindP_def open_end_run)
    next
      case (Ok y)
      let ?v = "v\<lparr>PIPES := pool\<rparr>" and ?g = "\<lambda>k. g k + ref1 kind k"
      have "safe (PIPES ?v) ?g" using p [OF b] Ok by simp
      moreover have "is_pipe k \<Longrightarrow> ?g k + cnt us k \<le> usize_max" for k
        using Cons.prems(2) [of k] c [of k] by (simp add: add.assoc)
      moreover have "foldP (\<lambda>_ entry. case entry of Some kind \<Rightarrow> open_end kind | None \<Rightarrow> retP ()) () us (?v, x)
          = Ret ((v', x'), r)"
        using Cons.prems(3) Some o Ok by (simp add: bindP_def open_end_run)
      ultimately have "x' = x \<and> (case r of Ok _ \<Rightarrow> safe (PIPES v') (\<lambda>k. ?g k + cnt us k) | Err _ \<Rightarrow> safe (PIPES v') ?g)"
        by (rule Cons.IH)
      then show ?thesis
        by (auto simp: c add.assoc elim!: safe_mono split: result.splits)
    qed
  qed
qed

lemma fork_copy_safe:
  assumes "safe (PIPES v) g" "\<And>k. is_pipe k \<Longrightarrow> g k + cnt t k \<le> usize_max" "fork_copy (v, t) = Ret ((v', t'), r)"
  shows "t' = t \<and> (case r of Ok t2 \<Rightarrow> t2 = t \<and> safe (PIPES v') (\<lambda>k. g k + cnt t k) | Err _ \<Rightarrow> safe (PIPES v') g)"
proof -
  from assms(3) obtain r1 where
    f: "foldP (\<lambda>_ entry. case entry of Some kind \<Rightarrow> open_end kind | None \<Rightarrow> retP ()) () t (v, t) = Ret ((v', t'), r1)"
      "r = (case r1 of Ok _ \<Rightarrow> Ok t | Err e \<Rightarrow> Err e)"
    by (auto simp: fork_copy_def bindP_def getP_def retP_def split: outcome.splits result.splits)
  from fork_fold [OF assms(1,2) f(1)] f(2) show ?thesis by (auto split: result.splits)
qed

text \<open>A new pipe has a reference for each of its two ends.\<close>

lemma pipe_create_safe:
  assumes "pipe_create pool = (pool', r)" "safe pool f"
  shows "case r of Ok (i, j) \<Rightarrow> j = i \<and> safe pool' (\<lambda>k. f k + ref1 (PipeRead i) k + ref1 (PipeWrite i) k) | Err _ \<Rightarrow> pool' = pool"
proof -
  consider i where "i < length pool" "\<not> pipe_is_allocated (pool ! i)"
      "pool' = pool[i := (pool ! i)\<lparr>read_refcount := 1, write_refcount := 1\<rparr>]" "r = Ok (i, i)"
    | "pool' = pool" "r = Err EMFILE"
    using assms(1) pool_allocate_loop_spec [of "[0..<length pool]" pool]
    by (auto simp: pipe_create_def pool_allocate_def split: prod.splits result.splits)
  then show ?thesis
  proof cases
    case 1
    have "f k + ref1 (PipeRead i) k + ref1 (PipeWrite i) k \<le> refc pool' k" if k: "is_pipe k" for k
      using safeD [OF assms(2) k] 1 k
      by (cases k) (auto simp: refc_def ref1_def is_pipe_def pipe_is_allocated_def nth_list_update)
    with 1 show ?thesis by (simp add: safe_def)
  qed simp
qed

lemma open_pipe_end:
  assumes "fdI f (v, t)" "safe (PIPES v) (\<lambda>k'. f k' + cnt t k' + g k' + ref1 k k')" "open_entry k (v, t) = Ret ((v', t'), r)"
  shows "v' = v \<and> length t' = MAX_FDS \<and> safe (PIPES v) (\<lambda>k'. f k' + cnt t' k' + g k')"
proof -
  consider fd where "v' = v" "t' = t[fd := Some k]" | "v' = v" "t' = t"
    using assms(3) by (auto simp: open_entry_def prog_defs set_entry_def split: result.splits)
  then show ?thesis
  proof cases
    case 1
    have "cnt t' k' \<le> cnt t k' + ref1 k k'" for k'
      using cnt_update_le [of t fd "Some k" k'] 1 by (auto simp: ref1_def split: if_splits)
    then have "f k' + cnt t' k' + g k' \<le> f k' + cnt t k' + g k' + ref1 k k'" for k'
      using add_mono [OF _ order_refl] by (simp add: add.commute add.left_commute)
    with 1 assms(1) show ?thesis by (auto simp: fdI_def intro: safe_mono [OF assms(2)])
  next
    case 2
    with assms(1) show ?thesis by (auto simp: fdI_def intro: safe_mono [OF assms(2)])
  qed
qed

section \<open>Reading and writing\<close>

lemma pipe_write_loop_refs:
  "pipe_write_loop p bs = Ret p' \<Longrightarrow> read_refcount p' = read_refcount p \<and> write_refcount p' = write_refcount p"
  by (induction p bs rule: pipe_write_loop.induct) auto

lemma pipe_read_loop_refs:
  "pipe_read_loop p n = Ret (p', bs) \<Longrightarrow> read_refcount p' = read_refcount p \<and> write_refcount p' = write_refcount p"
  by (induction p n arbitrary: p' bs rule: pipe_read_loop.induct) fastforce+

lemma refc_update:
  "read_refcount p = read_refcount (pool ! i) \<Longrightarrow> write_refcount p = write_refcount (pool ! i) \<Longrightarrow> refc (pool[i := p]) = refc pool"
proof (rule ext)
  fix k assume p: "read_refcount p = read_refcount (pool ! i)" "write_refcount p = write_refcount (pool ! i)"
  have "pool[i := p] ! j = p \<and> j = i \<or> pool[i := p] ! j = pool ! j" for j
    by (cases "i < length pool"; cases "j = i") (simp_all add: list_update_beyond)
  with p have "read_refcount (pool[i := p] ! j) = read_refcount (pool ! j)"
    "write_refcount (pool[i := p] ! j) = write_refcount (pool ! j)" for j
    by metis+
  then show "refc (pool[i := p]) k = refc pool k" by (cases k) (simp_all add: refc_def)
qed

lemma pipe_write_refc: "pipe_write pool i data = Ret (pool', r) \<Longrightarrow> refc pool' = refc pool"
  by (auto simp: pipe_write_def pipe_write_data_def pool_get_def Let_def intro!: refc_update
      dest!: pipe_write_loop_refs split: if_splits option.splits)

lemma pipe_read_refc: "pipe_read pool i buf = Ret (pool', buf', r) \<Longrightarrow> refc pool' = refc pool"
  by (auto simp: pipe_read_def pipe_read_data_def pool_get_def Let_def intro!: refc_update
      dest!: pipe_read_loop_refs split: if_splits option.splits)

lemma safe_refc: "refc pool' = refc pool \<Longrightarrow> safe pool f \<Longrightarrow> safe pool' f"
  by (simp add: safe_def)

abbreviation fdI3 :: "(fd_kind \<Rightarrow> nat) \<Rightarrow> 'd vfs \<times> fd_table \<times> bytes \<Rightarrow> bool" where
  "fdI3 f \<equiv> (\<lambda>(v, t, b). fdI f (v, t))"

lemma keep3_set [pres_rules]: "\<not> is_pipe k \<Longrightarrow> pres (fdI3 f) (set_entry3 fd k)"
  unfolding set_entry3_def
  by (rule pres_mod) (auto simp: fdI_def intro!: cnt_update_other elim!: safe_mono)

lemma keep3_buf [pres_rules]: "pres (fdI3 f) (modP (\<lambda>(v, t, b). (v, t, g b)))"
  by (rule pres_mod) auto

lemma keep3_on_buf:
  assumes "\<And>P. pres (\<lambda>(v, b). PIPES v = P) m"
  shows "pres (fdI3 f) (on_buf m)"
  unfolding on_buf_def
proof (rule pres_zoom, goal_cases)
  case (1 s vb r)
  obtain v t b where s: "s = (v, t, b)" by (cases s) auto
  obtain v' b' where vb: "vb = (v', b')" by fastforce
  have "PIPES v' = PIPES v" using presD [OF assms, of "PIPES v" "(v, b)" vb r] 1(2) s vb by simp
  with 1(1) s vb show ?case by (auto intro: fdI_cong)
qed

lemma keep3_on_fst [pres_rules]:
  assumes "\<And>P. pres (\<lambda>v. PIPES v = P) m"
  shows "pres (fdI3 f) (on_fst m)"
  unfolding on_fst_def
proof (rule pres_zoom, goal_cases)
  case (1 s v' r)
  then show ?case using presD [OF assms refl, of "fst s" v' r] by (cases s) (auto intro: fdI_cong)
qed

lemma keep3_read_memory [pres_rules]: "pres (fdI3 f) (read_memory fd opn w data)"
  unfolding read_memory_def Let_def by (intro pres_rules) (simp add: is_pipe_def)

lemma keep3_read: "pres (fdI3 f) (fd_read rd fd)"
  unfolding fd_read_def Let_def diskfs_read_def fat32_read_def
  by (intro pres_rules)
    (auto intro!: pres_rules keep3_on_buf quiet_with_disk quiet_with_fat32 simp: is_pipe_def
      split: fd_kind.split option.split)

end
