(* ===== verification/Kernel_Invariants.thy ===== *)
theory Kernel_Invariants
  imports Syscalls Fd_Accounting "HOL-Library.Multiset"
begin

text \<open>
  Invariants of the whole kernel under every system call. The locale \<open>kernel_invariant\<close> lists what
  a predicate on the kernel state has to satisfy for each primitive the handlers are made of, and
  shows once that every system call then keeps it. The locale \<open>view_invariant\<close> does so for
  predicates on what scheduling does not change of the processes.
\<close>

section \<open>Calls that keep an invariant\<close>

named_theorems keep_rules

definition post :: "('s \<Rightarrow> bool) \<Rightarrow> ('s \<Rightarrow> bool) \<Rightarrow> 's \<Rightarrow> ('a, trap) result \<Rightarrow> bool" where
  "post I T s r = (case r of Ok _ \<Rightarrow> I s | Err (Errno _) \<Rightarrow> I s | Err _ \<Rightarrow> T s)"

text \<open>From a state with \<open>I\<close> and \<open>C\<close>, a call that returns ends with \<open>I\<close> and one that does not with \<open>T\<close>.\<close>

definition keep ::
  "('s \<Rightarrow> bool) \<Rightarrow> ('s \<Rightarrow> bool) \<Rightarrow> ('s \<Rightarrow> bool) \<Rightarrow> ('s, 'a, trap) prog \<Rightarrow> bool" where
  "keep C I T m \<longleftrightarrow> (\<forall>s s' r. I s \<longrightarrow> C s \<longrightarrow> m s = Ret (s', r) \<longrightarrow> post I T s' r)"

lemma keepI: "(\<And>s s' r. I s \<Longrightarrow> C s \<Longrightarrow> m s = Ret (s', r) \<Longrightarrow> post I T s' r) \<Longrightarrow> keep C I T m"
  by (auto simp: keep_def)

lemma keepD: "keep C I T m \<Longrightarrow> I s \<Longrightarrow> C s \<Longrightarrow> m s = Ret (s', r) \<Longrightarrow> post I T s' r"
  by (auto simp: keep_def)

lemma keep_weaken: "keep (\<lambda>_. True) I T m \<Longrightarrow> keep C I T m"
  by (auto simp: keep_def)

lemma post_Ok [simp]: "post I T s (Ok x) = I s"
  by (simp add: post_def)

lemma post_Errno [simp]: "post I T s (Err (Errno e)) = I s"
  by (simp add: post_def)

lemma post_trap: "\<forall>e. t \<noteq> Errno e \<Longrightarrow> post I T s (Err t) = T s"
  by (cases t) (auto simp: post_def)

lemma post_Err: "post I T s (Err t :: ('a, trap) result) = post I T s (Err t :: ('b, trap) result)"
  by (simp add: post_def)

lemma keep_ret [keep_rules]: "keep C I T (retP x)"
  by (simp add: keep_def retP_def)

lemma keep_fail [keep_rules]: "keep C I T (failP (Errno e))"
  by (simp add: keep_def failP_def)

lemma keep_panic [keep_rules]: "keep C I T panicP"
  by (simp add: keep_def panicP_def)

lemma keep_get [keep_rules]: "keep C I T (getP f)"
  by (simp add: keep_def getP_def)

lemma keep_try_err [keep_rules]: "keep C I T (try_err r)"
  by (cases r) (simp_all add: keep_def try_err_def liftR_def)

lemma keep_bind [keep_rules]:
  assumes "keep C I T m" "\<And>x. keep (\<lambda>_. True) I T (f x)"
  shows "keep C I T (bindP m f)"
proof (rule keepI)
  fix s s' r assume s: "I s" "C s" "bindP m f s = Ret (s', r)"
  then obtain s1 r1 where m: "m s = Ret (s1, r1)" by (auto simp: bindP_def split: outcome.splits)
  note p = keepD [OF assms(1) s(1,2) m]
  show "post I T s' r"
  proof (cases r1)
    case (Ok x)
    with s(3) m have "f x s1 = Ret (s', r)" by (simp add: bindP_def)
    with Ok p show ?thesis using keepD [OF assms(2)] by auto
  next
    case (Err t)
    with s(3) m have "s' = s1" "r = Err t" by (simp_all add: bindP_def)
    with p Err show ?thesis by (simp add: post_def split: trap.splits)
  qed
qed

lemma keep_bind_get: "(\<And>x. keep C I T (f x)) \<Longrightarrow> keep C I T (bindP (getP g) f)"
  by (simp add: keep_def bindP_def getP_def)

lemma keep_bind_try_err: "(\<And>x. r = Ok x \<Longrightarrow> keep C I T (f x)) \<Longrightarrow> keep C I T (bindP (try_err r) f)"
  by (cases r) (simp_all add: keep_def bindP_def try_err_def liftR_def)

lemma keep_if [keep_rules]: "(b \<Longrightarrow> keep C I T m) \<Longrightarrow> (\<not> b \<Longrightarrow> keep C I T n) \<Longrightarrow> keep C I T (if b then m else n)"
  by simp

lemma keep_tryP:
  assumes "keep C I T m" "\<And>x. keep (\<lambda>_. True) I T (f (Ok x))" "\<And>e. keep (\<lambda>_. True) I T (f (Err (Errno e)))"
    "\<And>t. \<forall>e. t \<noteq> Errno e \<Longrightarrow> f (Err t) = failP t"
  shows "keep C I T (tryP m f)"
proof (rule keepI)
  fix s s' r assume s: "I s" "C s" "tryP m f s = Ret (s', r)"
  then obtain s1 r1 where m: "m s = Ret (s1, r1)" "f r1 s1 = Ret (s', r)"
    by (auto simp: tryP_def split: outcome.splits)
  note p = keepD [OF assms(1) s(1,2) m(1)]
  consider x where "r1 = Ok x" | e where "r1 = Err (Errno e)" | t where "r1 = Err t" "\<forall>e. t \<noteq> Errno e"
    by (metis result.exhaust)
  then show "post I T s' r"
  proof cases
    case 1
    with p m(2) show ?thesis using keepD [OF assms(2)] by auto
  next
    case 2
    with p m(2) show ?thesis using keepD [OF assms(3)] by auto
  next
    case 3
    with m(2) assms(4) have "s' = s1" "r = Err t" by (auto simp: failP_def)
    with 3 p show ?thesis by (simp add: post_trap)
  qed
qed

definition cur_is :: "proc \<Rightarrow> ('d, 'm) kernel \<Rightarrow> bool" where
  "cur_is p k \<longleftrightarrow> current (SCHEDULER k) = Some p"

lemma keep_current: "(\<And>p. keep (cur_is p) I T (f p)) \<Longrightarrow> keep C I T (bindP current_process f)"
proof (rule keepI)
  fix s s' r assume f: "\<And>p. keep (cur_is p) I T (f p)" and s: "I s" "bindP current_process f s = Ret (s', r)"
  show "post I T s' r"
  proof (cases "current (SCHEDULER s)")
    case None
    with s show ?thesis by (auto simp: current_process_def bindP_def getP_def liftR_def)
  next
    case (Some p)
    with s(2) have "f p s = Ret (s', r)" by (simp add: current_process_def bindP_def getP_def liftR_def)
    from keepD [OF f s(1) _ this] Some show ?thesis by (simp add: cur_is_def)
  qed
qed

lemma keep_current_process [keep_rules]: "keep C I T current_process"
  by (auto simp: keep_def current_process_def bindP_def getP_def liftR_def ok_or_def split: option.splits)

definition upd_current :: "('d, 'm) kernel \<Rightarrow> proc \<Rightarrow> ('d, 'm) kernel" where
  "upd_current k p = k\<lparr>SCHEDULER := (SCHEDULER k)\<lparr>current := Some p\<rparr>\<rparr>"

lemma keep_set_current: "(\<And>k. I k \<Longrightarrow> C k \<Longrightarrow> I (upd_current k p)) \<Longrightarrow> keep C I T (set_current p)"
  by (auto simp: keep_def set_current_def modP_def upd_current_def)

text \<open>Absolute paths without empty, \<open>.\<close> and \<open>..\<close> components.\<close>

definition abs_normal :: "string \<Rightarrow> bool" where
  "abs_normal p \<longleftrightarrow> starts_with_slash p \<and> list_all normal_name (path_components p)"

lemma resolve_path_abs_normal: "resolve_path c p = Ok q \<Longrightarrow> abs_normal q"
proof -
  have "abs_normal q" if "normalize_path p' = Ok q" for p'
  proof -
    have "\<forall>w \<in> set (walk [] p'). normal_name w" by (rule walk_normal) simp
    with that show ?thesis
      by (auto simp: abs_normal_def normalize_path_walk path_components_join list_all_iff starts_with_slash_def split: if_splits)
  qed
  then show "resolve_path c p = Ok q \<Longrightarrow> abs_normal q" by (auto simp: resolve_path_def split: if_splits)
qed

section \<open>More programs that leave the pipes alone\<close>

lemma quiet_unlink_path: "pres (\<lambda>v. PIPES v = P) (unlink_path path)"
  unfolding unlink_path_def tmpfs_unlink_def
  by (intro pres_rules) (auto intro!: pres_rules quiet_with_tmpfs split: option.split fs_type.split prod.split)

lemma quiet_chmod_path: "pres (\<lambda>v. PIPES v = P) (chmod_path path mode)"
  unfolding chmod_path_def Let_def tmpfs_chmod_def
  by (intro pres_rules) (auto intro!: pres_rules quiet_with_tmpfs split: option.split fs_type.split prod.split)

lemma quiet_chown_path: "pres (\<lambda>v. PIPES v = P) (chown_path path uid gid)"
  unfolding chown_path_def Let_def
  by (intro pres_rules) (auto intro!: pres_rules split: option.split fs_type.split prod.split)

lemma quiet_tmpfs_dirs:
  "pres (\<lambda>v. PIPES v = P) (tmpfs_mkdir a b)"
  "pres (\<lambda>v. PIPES v = P) (tmpfs_rmdir a b)"
  "pres (\<lambda>v. PIPES v = P) (tmpfs_rename a b c d)"
  unfolding tmpfs_mkdir_def tmpfs_create_def tmpfs_rmdir_def tmpfs_rename_def
  by (intro pres_rules quiet_with_tmpfs)+

lemma quiet_list_dirs [pres_rules]:
  "pres (\<lambda>v. PIPES v = P) (diskfs_list_dir rd i)"
  "pres (\<lambda>v. PIPES v = P) (tmpfs_list_dir i)"
  "pres (\<lambda>v. PIPES v = P) (fat32_list_dir rd ulower c)"
  unfolding diskfs_list_dir_def tmpfs_list_dir_def fat32_list_dir_def
  by (intro pres_rules quiet_with_tmpfs quiet_no_buf quiet_with_disk quiet_with_fat32)+

lemma quiet_directory_entries: "pres (\<lambda>v. PIPES v = P) (directory_entries rd ulower kind)"
  unfolding directory_entries_def list_directory_def
  by (auto intro!: pres_rules split: fd_kind.split option.split fs_type.split prod.split)

lemma keep_read_temp: "pres (fdI f) (fd_read_temp rd fd n)"
  unfolding pres_def
proof (intro allI impI)
  fix s s' r assume s: "fdI f s" "fd_read_temp rd fd n s = Ret (s', r)"
  obtain v t where vt: "s = (v, t)" by fastforce
  obtain v' t' b r' where "fd_read rd fd (v, t, replicate n 0) = Ret ((v', t', b), r')" "s' = (v', t')"
    using s(2) vt by (auto simp: fd_read_temp_def split: outcome.splits result.splits)
  with presD [OF keep3_read, of f "(v, t, replicate n 0)"] s(1) vt show "fdI f s'" by auto
qed

lemma safe_pipe_read_temp: "pres (\<lambda>v. safe (PIPES v) f) (pipe_read_temp i n)"
  by (auto simp: pres_def pipe_read_temp_def dest!: pipe_read_refc intro: safe_refc split: outcome.splits result.splits)

lemma safe_pipe_write_call: "pres (\<lambda>v. safe (PIPES v) f) (pipe_write_call i bs)"
  by (auto simp: pres_def pipe_write_call_def dest!: pipe_write_refc intro: safe_refc split: outcome.splits)

text \<open>The part of \<open>pipe_handler\<close> that works on the pool and the table.\<close>

definition pipe_open :: "('d vfs \<times> fd_table, int \<times> int, error_code) prog" where
  "pipe_open =
     bindP (on_fst pipe_create_call) (\<lambda>(read_id, write_id).
     bindP (open_pipe_read read_id) (\<lambda>read_fd.
     bindP (open_pipe_write write_id) (\<lambda>write_fd.
     retP (read_fd, write_fd))))"

lemma bindP_Ret: "bindP m f s = Ret (s', r) \<longleftrightarrow>
    (\<exists>s1 x. m s = Ret (s1, Ok x) \<and> f x s1 = Ret (s', r)) \<or> (\<exists>e. m s = Ret (s', Err e) \<and> r = Err e)"
  by (auto simp: bindP_def split: outcome.splits result.splits)

lemma bindP_step: "m s = Ret (s', Ok x) \<Longrightarrow> bindP m f s = f x s'"
  by (simp add: bindP_def)

text \<open>The fuel \<open>sys_read\<close> gives \<open>tty_wait\<close> is enough: more does not change the result.\<close>

lemma run_tty_action_input: "run_tty_action act k = Ret (k', r) \<Longrightarrow> DEVICE_INPUT k' = DEVICE_INPUT k"
  by (cases act) (auto simp: run_tty_action_def on_sched_def map_errP_def zoomP_def retP_def bindP_def split: outcome.splits)

lemma bindP_cong: "(\<And>k' a. m k = Ret (k', Ok a) \<Longrightarrow> f a k' = g a k') \<Longrightarrow> bindP m f k = bindP m g k"
  by (auto simp: bindP_def split: outcome.splits result.splits)

lemma tty_wait_enough:
  "length (DEVICE_INPUT k) < fuel \<Longrightarrow> tty_wait (fuel + n) buf len k = tty_wait fuel buf len k"
proof (induction fuel arbitrary: k)
  case (Suc fuel)
  have "tty_wait (fuel + n) buf len k' = tty_wait fuel buf len k'"
    if "DEVICE_INPUT k = b # rest" "DEVICE_INPUT k' = rest" for k' :: "('a, 'b) kernel" and b rest
    using Suc.IH [of k'] Suc.prems that by simp
  then show ?case
    by (auto simp: bindP_step [OF getP_def] bindP_step [OF modP_def] split: prod.splits option.splits list.splits
        intro!: bindP_cong dest!: run_tty_action_input)
qed simp

lemma open_entry_run: "\<exists>t' r. open_entry k (v, t) = Ret ((v, t'), r)"
  by (auto simp: open_entry_def prog_defs set_entry_def split: result.splits)

lemma keep_pipe_open: "pres (fdI f) pipe_open"
  unfolding pres_def
proof (intro allI impI)
  fix s s' r assume s: "fdI f s" "pipe_open s = Ret (s', r)"
  obtain v t where vt: "s = (v, t)" by fastforce
  obtain pool r0 where c: "pipe_create (PIPES v) = (pool, r0)" by fastforce
  define v1 where "v1 = v\<lparr>PIPES := pool\<rparr>"
  have run: "on_fst pipe_create_call s = Ret ((v1, t), r0)"
    using vt c by (simp add: on_fst_def zoomP_def pipe_create_call_def v1_def)
  note pc = pipe_create_safe [OF c]
  have len: "length t = MAX_FDS" "\<forall>k. f k + MAX_FDS \<le> usize_max" "safe (PIPES v) (\<lambda>k. f k + cnt t k)"
    using s(1) vt by (auto simp: fdI_def)
  show "fdI f s'"
  proof (cases r0)
    case (Err e)
    with s(2) run have "s' = (v1, t)" by (auto simp: pipe_open_def bindP_Ret)
    with pc [OF len(3)] Err len show ?thesis by (simp add: fdI_def v1_def)
  next
    case (Ok ij)
    with pc [OF len(3)] obtain i where i: "r0 = Ok (i, i)"
      and s1: "safe (PIPES v1) (\<lambda>k. f k + cnt t k + ref1 (PipeRead i) k + ref1 (PipeWrite i) k)"
      by (auto simp: v1_def split: prod.splits)
    have "fdI f (v1, t)" using len s1 by (auto simp: fdI_def elim: safe_mono)
    note o1 = open_pipe_end [OF this, where k = "PipeRead i" and g = "ref1 (PipeWrite i)"]
    have s1': "safe (PIPES v1) (\<lambda>k. f k + cnt t k + ref1 (PipeWrite i) k + ref1 (PipeRead i) k)"
      using s1 by (simp add: ac_simps)
    obtain t1 r1 where r1: "open_entry (PipeRead i) (v1, t) = Ret ((v1, t1), r1)"
      using open_entry_run by blast
    note o1' = o1 [OF s1' r1]
    have f1: "fdI f (v1, t1)" using o1' len by (auto simp: fdI_def elim: safe_mono)
    show ?thesis
    proof (cases r1)
      case (Err e)
      with s(2) run i r1 have "s' = (v1, t1)" by (auto simp: pipe_open_def bindP_Ret open_pipe_read_def)
      with f1 show ?thesis by simp
    next
      case (Ok fd)
      obtain t2 r2 where r2: "open_entry (PipeWrite i) (v1, t1) = Ret ((v1, t2), r2)"
        using open_entry_run by blast
      have "s' = (v1, t2)"
        using s(2) run i r1 Ok r2
        by (cases r2) (auto simp: pipe_open_def bindP_Ret open_pipe_read_def open_pipe_write_def retP_def)
      from \<open>s' = (v1, t2)\<close> open_pipe_end [OF f1 _ r2, where g = "\<lambda>_. 0"] o1' len show ?thesis by (auto simp: fdI_def)
    qed
  qed
qed

lemma on_fds_run:
  "cur_is p k \<Longrightarrow> on_fds m k =
     (case m (VFS k, fd_table p) of
        Panic \<Rightarrow> Panic
      | Ret ((v, t), r) \<Rightarrow> Ret (upd_current (k\<lparr>VFS := v\<rparr>) (p\<lparr>fd_table := t\<rparr>), map_err Errno r))"
  by (simp add: on_fds_def current_process_def bindP_def getP_def liftR_def cur_is_def map_errP_def zoomP_def
      upd_current_def split: outcome.splits prod.splits)

lemma upd_current_simps [simp]:
  "cur_is p (upd_current k q) \<longleftrightarrow> p = q"
  "VFS (upd_current k p) = VFS k"
  "SCHEDULER (upd_current k p) = (SCHEDULER k)\<lparr>current := Some p\<rparr>"
  "NEXT_PID (upd_current k p) = NEXT_PID k"
  "upd_current (upd_current k p) q = upd_current k q"
  "(upd_current k p)\<lparr>VFS := v\<rparr> = upd_current (k\<lparr>VFS := v\<rparr>) p"
  by (auto simp: upd_current_def cur_is_def)

lemma upd_current_same: "cur_is p k \<Longrightarrow> upd_current (k\<lparr>VFS := v\<rparr>) p = k\<lparr>VFS := v\<rparr>"
  by (simp add: upd_current_def cur_is_def)

lemma pipe_handler_run:
  assumes "cur_is p k"
  shows "pipe_handler ptr k =
     bindP (on_fds pipe_open) (\<lambda>(read_fd, write_fd).
     bindP (on_user (copy_to_user_bytes ptr
       (le_bytes 4 (word_of_int read_fd :: u32) @ le_bytes 4 (word_of_int write_fd :: u32)))) (\<lambda>_. retP 0)) k"
proof -
  obtain pool r0 where c: "pipe_create (PIPES (VFS k)) = (pool, r0)" by fastforce
  define v1 where "v1 = (VFS k)\<lparr>PIPES := pool\<rparr>"
  have v: "on_vfs pipe_create_call k = Ret (k\<lparr>VFS := v1\<rparr>, map_err Errno r0)"
    using c by (simp add: on_vfs_def map_errP_def zoomP_def pipe_create_call_def v1_def)
  have o: "on_fst pipe_create_call (VFS k, fd_table p) = Ret ((v1, fd_table p), r0)"
    using c by (simp add: on_fst_def zoomP_def pipe_create_call_def v1_def)
  have cur: "cur_is p (k\<lparr>VFS := v1\<rparr>)" using assms by (simp add: cur_is_def)
  show ?thesis
  proof (cases r0)
    case (Err e)
    with v o assms show ?thesis
      by (simp add: pipe_handler_def pipe_open_def bindP_def on_fds_run upd_current_same)
  next
    case (Ok ij)
    obtain i j where ij: "ij = (i, j)" by fastforce
    obtain t1 r1 where r1: "open_entry (PipeRead i) (v1, fd_table p) = Ret ((v1, t1), r1)"
      using open_entry_run by blast
    obtain t2 r2 where r2: "open_entry (PipeWrite j) (v1, t1) = Ret ((v1, t2), r2)"
      using open_entry_run by blast
    from v o Ok ij r1 r2 assms cur show ?thesis
      by (cases r1; cases r2)
        (simp_all add: pipe_handler_def pipe_open_def bindP_def on_fds_run [OF assms] on_fds_run [OF cur]
          on_fds_run [where p = "p\<lparr>fd_table := t1\<rparr>"] open_pipe_read_def open_pipe_write_def retP_def)
  qed
qed

lemma quiet_safe:
  assumes "\<And>P. pres (\<lambda>v. PIPES v = P) m"
  shows "pres (\<lambda>v. safe (PIPES v) f) m"
  unfolding pres_def
proof (intro allI impI)
  fix v v' r assume "safe (PIPES v) f" "m v = Ret (v', r)"
  with presD [OF assms refl] show "safe (PIPES v') f" by simp
qed

section \<open>Every system call\<close>

abbreviation anyC :: "'s \<Rightarrow> bool" where
  "anyC \<equiv> (\<lambda>_. True)"

definition modelled :: "syscall_number \<Rightarrow> bool" where
  "modelled n \<longleftrightarrow> n \<notin> {Execve, Brk, Mmap, Socket, Sendto, Recvfrom}"

locale kernel_invariant =
  fixes env :: "('d, 'm) env"
    and I T :: "('d, 'm) kernel \<Rightarrow> bool"
  assumes I_T: "I k \<Longrightarrow> T k"
    and frame: "I k \<Longrightarrow> SCHEDULER k' = SCHEDULER k \<Longrightarrow> PIPES (VFS k') = PIPES (VFS k) \<Longrightarrow> NEXT_PID k' = NEXT_PID k \<Longrightarrow>
                CURRENT_CONTEXT k' = CURRENT_CONTEXT k \<Longrightarrow> I k'"
    and pool: "\<And>v k. I k \<Longrightarrow> (\<And>f. safe (PIPES (VFS k)) f \<Longrightarrow> safe (PIPES v) f) \<Longrightarrow> I (k\<lparr>VFS := v\<rparr>)"
    and fds: "\<And>v t k p. I k \<Longrightarrow> cur_is p k \<Longrightarrow> (\<And>f. fdI f (VFS k, fd_table p) \<Longrightarrow> fdI f (v, t)) \<Longrightarrow>
                I (upd_current (k\<lparr>VFS := v\<rparr>) (p\<lparr>fd_table := t\<rparr>))"
    and set_cwd: "I k \<Longrightarrow> cur_is p k \<Longrightarrow> abs_normal c \<Longrightarrow> I (upd_current k (p\<lparr>cwd := c\<rparr>))"
    and set_pgid: "I k \<Longrightarrow> cur_is p k \<Longrightarrow> I (upd_current k (p\<lparr>pr_pgid := g\<rparr>))"
    and set_uid: "I k \<Longrightarrow> cur_is p k \<Longrightarrow> pr_uid p = 0 \<Longrightarrow> I (upd_current k (p\<lparr>pr_uid := u\<rparr>))"
    and set_gid: "I k \<Longrightarrow> cur_is p k \<Longrightarrow> pr_uid p = 0 \<Longrightarrow> I (upd_current k (p\<lparr>pr_gid := u\<rparr>))"
    and set_wait: "I k \<Longrightarrow> cur_is p k \<Longrightarrow> I (upd_current k (p\<lparr>pr_wait_state := w\<rparr>))"
    and fork: "keep anyC I T (fork_handler env)"
    and exit: "keep anyC I T (sys_exit env status)"
    and yield: "keep anyC I T yield_handler"
    and kill: "keep anyC I T (kill_call pid sig)"
    and tty: "keep anyC I T (run_tty_action act)"
    and zombie: "keep anyC I T (take_zombie pid parent)"
begin

lemma user [keep_rules]: "keep C I T (on_user m)"
proof (rule keepI)
  fix k k' r assume "I k" "on_user m k = Ret (k', r)"
  then obtain u r' where "k' = k\<lparr>SPACES := u\<rparr>" "r = map_err Errno r'"
    by (auto simp: on_user_def map_errP_def zoomP_def split: outcome.splits)
  then show "post I T k' r" using frame [OF \<open>I k\<close>, of k'] by (cases r') auto
qed

lemma mm [keep_rules]: "keep C I T (on_mm e m)"
proof (rule keepI)
  fix k k' r assume "I k" "on_mm e m k = Ret (k', r)"
  then obtain u r' where "m (MM k) = Ret (u, r')" "k' = k\<lparr>MM := u\<rparr>" "r = map_err (\<lambda>_. Errno e) r'"
    by (auto simp: on_mm_def map_errP_def zoomP_def split: outcome.splits)
  then show "post I T k' r" using frame [OF \<open>I k\<close>, of k'] by (cases r') auto
qed

lemma mod_frame: "(\<And>k. SCHEDULER (g k) = SCHEDULER k \<and> PIPES (VFS (g k)) = PIPES (VFS k) \<and> NEXT_PID (g k) = NEXT_PID k
     \<and> CURRENT_CONTEXT (g k) = CURRENT_CONTEXT k)
   \<Longrightarrow> keep C I T (modP g)"
  using frame by (auto simp: keep_def modP_def)

lemma vfs:
  assumes "\<And>f. pres (\<lambda>v. safe (PIPES v) f) m"
  shows "keep C I T (on_vfs m)"
proof (rule keepI)
  fix k k' r assume k: "I k" "on_vfs m k = Ret (k', r)"
  then obtain v r' where v: "m (VFS k) = Ret (v, r')" "k' = k\<lparr>VFS := v\<rparr>" "r = map_err Errno r'"
    by (auto simp: on_vfs_def map_errP_def zoomP_def split: outcome.splits)
  have "I k'" unfolding v(2) by (rule pool [OF k(1)]) (rule presD [OF assms _ v(1)])
  then show "post I T k' r" using v(3) by (cases r') auto
qed

lemma vfs_quiet: "(\<And>P. pres (\<lambda>v. PIPES v = P) m) \<Longrightarrow> keep C I T (on_vfs m)"
  by (rule vfs) (rule quiet_safe)

lemma on_fds_keep:
  assumes "\<And>f. pres (fdI f) m"
  shows "keep C I T (on_fds m)"
  unfolding on_fds_def
proof (rule keep_current, rule keepI)
  fix p k k' r
  assume k: "I k" "cur_is p k"
    and m: "map_errP Errno (zoomP (\<lambda>k. (VFS k, fd_table p))
       (\<lambda>(v, t) k. k\<lparr>VFS := v, SCHEDULER := (SCHEDULER k)\<lparr>current := Some (p\<lparr>fd_table := t\<rparr>)\<rparr>\<rparr>) m) k = Ret (k', r)"
  then obtain v t r' where v: "m (VFS k, fd_table p) = Ret ((v, t), r')" "r = map_err Errno r'"
    "k' = upd_current (k\<lparr>VFS := v\<rparr>) (p\<lparr>fd_table := t\<rparr>)"
    by (auto simp: map_errP_def zoomP_def upd_current_def split: outcome.splits)
  have "I k'" unfolding v(3) by (rule fds [OF k]) (rule presD [OF assms _ v(1)])
  then show "post I T k' r" using v(2) by (cases r') auto
qed

lemmas fd_keeps = on_fds_keep [OF keep_open_path] on_fds_keep [OF keep_write] on_fds_keep [OF keep_close]
  on_fds_keep [OF keep_dup2] on_fds_keep [OF keep_seek] on_fds_keep [OF keep_dir_offset]
  on_fds_keep [OF keep_file_size] on_fds_keep [OF keep_fstat]

lemmas vfs_keeps = vfs_quiet [OF quiet_stat_path] vfs_quiet [OF quiet_unlink_path] vfs_quiet [OF quiet_chmod_path]
  vfs_quiet [OF quiet_chown_path] vfs_quiet [OF quiet_tmpfs_dirs(1)] vfs_quiet [OF quiet_tmpfs_dirs(2)]
  vfs_quiet [OF quiet_tmpfs_dirs(3)] vfs_quiet [OF quiet_directory_entries]

lemma open_keep: "keep C I T (open_handler rd ulower path flags)"
  unfolding open_handler_def by (intro keep_rules fd_keeps)

lemma read_temp_keep: "keep C I T (on_fds (fd_read_temp rd fd n))"
  by (rule on_fds_keep [OF keep_read_temp])

lemma pipe_keep: "keep C I T (on_vfs (pipe_read_temp i n))" "keep C I T (on_vfs (pipe_write_call i bs))"
  by (rule vfs, rule safe_pipe_read_temp) (rule vfs, rule safe_pipe_write_call)

lemma deliver_keep: "keep C I T (deliver buf bs)"
  unfolding deliver_def by (intro keep_rules)

lemma or_yield_keep:
  assumes "keep C I T m" "\<And>x. keep anyC I T (f x)"
  shows "keep C I T (or_yield m f)"
  unfolding or_yield_def
  by (rule keep_tryP [OF assms(1)]) (use assms(2) in \<open>auto intro!: keep_rules yield\<close>)

lemma read_keep: "keep C I T (read_handler rd fd buf len)"
  unfolding read_handler_def Let_def
  by (intro keep_rules)
    (auto intro!: keep_rules read_temp_keep deliver_keep or_yield_keep pipe_keep split: fd_kind.split)

lemma write_keep: "keep C I T (write_handler fd buf len)"
  unfolding write_handler_def Let_def
  by (intro keep_rules)
    (auto intro!: keep_rules fd_keeps or_yield_keep pipe_keep split: fd_kind.split)

lemma stat_keep: "keep C I T (stat_handler rd ulower a b)" "keep C I T (fstat_handler rd fd b)"
  unfolding stat_handler_def fstat_handler_def
  by (intro keep_rules fd_keeps vfs_keeps)+

lemma pipe_handler_keep: "keep C I T (pipe_handler ptr)"
proof (rule keepI)
  fix k k' r assume k: "I k" "pipe_handler ptr k = Ret (k', r)"
  show "post I T k' r"
  proof (cases "current (SCHEDULER k)")
    case (Some p)
    then have cur: "cur_is p k" by (simp add: cur_is_def)
    have "keep anyC I T (bindP (on_fds pipe_open) (\<lambda>(read_fd, write_fd).
       bindP (on_user (copy_to_user_bytes ptr
         (le_bytes 4 (word_of_int read_fd :: u32) @ le_bytes 4 (word_of_int write_fd :: u32)))) (\<lambda>_. retP 0)))"
      by (intro keep_rules on_fds_keep [OF keep_pipe_open]) (auto intro!: keep_rules)
    from keepD [OF this k(1)] k(2) show ?thesis unfolding pipe_handler_run [OF cur] by simp
  next
    case None
    obtain pool r0 where c: "pipe_create (PIPES (VFS k)) = (pool, r0)" by fastforce
    have v: "on_vfs pipe_create_call k = Ret (k\<lparr>VFS := (VFS k)\<lparr>PIPES := pool\<rparr>\<rparr>, map_err Errno r0)"
      using c by (simp add: on_vfs_def map_errP_def zoomP_def pipe_create_call_def)
    have "safe pool f" if "safe (PIPES (VFS k)) f" for f
      using pipe_create_safe [OF c that] that by (auto elim!: safe_mono split: result.splits)
    then have "I (k\<lparr>VFS := (VFS k)\<lparr>PIPES := pool\<rparr>\<rparr>)" by (intro pool [OF k(1)]) simp
    with k(2) v None show ?thesis
      by (cases r0) (auto simp: pipe_handler_def bindP_def on_fds_def current_process_def getP_def liftR_def split: prod.splits)
  qed
qed

lemma close_keep: "keep C I T (close_handler fd)" "keep C I T (dup2_handler a b)"
  unfolding close_handler_def dup2_handler_def by (intro keep_rules fd_keeps)+

lemma getters_keep:
  "keep C I T getpid_handler" "keep C I T getuid_handler" "keep C I T getgid_handler"
  "keep C I T (copy_string_out buf bs)" "keep C I T (getcwd_handler buf len)" "keep C I T (getenv_handler a b len)"
  unfolding getpid_handler_def getuid_handler_def getgid_handler_def copy_string_out_def getcwd_handler_def getenv_handler_def
  by (intro keep_rules)+

lemma setpgid_keep: "keep C I T (setpgid_handler pid pgid)"
  unfolding setpgid_handler_def Let_def
  by (intro keep_rules keep_current keep_set_current set_pgid)

lemma chdir_keep: "keep C I T (chdir_handler ptr)"
  unfolding chdir_handler_def
proof (rule keep_bind [OF user], rule keep_current, rule keep_bind_try_err)
  fix path rp and p :: proc assume "resolve_path (cwd p) path = Ok rp"
  from resolve_path_abs_normal [OF this]
  show "keep (cur_is p) I T (bindP (getP (\<lambda>k. validate_directory (VFS k) rp)) (\<lambda>r.
     bindP (try_err r) (\<lambda>_. bindP (set_current (p\<lparr>cwd := rp\<rparr>)) (\<lambda>_. retP 0))))"
    by (intro keep_bind_get keep_bind_try_err keep_bind keep_set_current set_cwd keep_ret)
qed

lemma setuid_keep: "keep C I T (setuid_handler u)" "keep C I T (setgid_handler u)"
  unfolding setuid_handler_def setgid_handler_def
  by (rule keep_current; intro keep_rules keep_set_current set_uid set_gid; simp)+

lemma names_keep:
  "keep C I T (unlink_handler a)" "keep C I T (chmod_handler rd ulower a mode)" "keep C I T (chown_handler a uid gid)"
  unfolding unlink_handler_def chmod_handler_def chown_handler_def
  by (intro keep_rules vfs_keeps)+

lemma dirs_keep: "keep C I T (mkdir_handler a)" "keep C I T (rmdir_handler a)" "keep C I T (rename_handler a b)"
  unfolding mkdir_handler_def rmdir_handler_def rename_handler_def
  by (intro keep_rules; auto intro!: keep_rules vfs_keeps split: option.split fs_type.split prod.split)+

lemma getdents_keep: "keep C I T (getdents64_handler rd ulower fd buf len)"
  unfolding getdents64_handler_def
  by (intro keep_rules vfs_keeps) (auto intro!: keep_rules fd_keeps split: prod.split)

lemma lseek_keep: "keep C I T (lseek_handler rd fd offset whence)"
  unfolding lseek_handler_def by (intro keep_rules fd_keeps)

lemma write_status_keep: "keep C I T (write_status a b)"
  unfolding write_status_def by (intro keep_rules)

lemma or_stopped_keep: "keep anyC I T m \<Longrightarrow> keep C I T (or_stopped w a parent m)"
  unfolding or_stopped_def by (intro keep_rules) (auto intro!: keep_rules write_status_keep split: option.split)

lemma reap_keep: "keep C I T (reap_child env a child)"
  unfolding reap_child_def Let_def by (intro keep_rules write_status_keep)

lemma waitpid_keep: "keep C I T (waitpid_handler env pid a options)"
  unfolding waitpid_handler_def Let_def block_on_any_child_def block_on_child_def
  by (intro keep_rules keep_current or_stopped_keep zombie)
    (auto intro!: keep_rules keep_current or_stopped_keep zombie reap_keep yield keep_set_current set_wait
      split: option.split)

lemma sys_write_keep: "keep C I T (sys_write fd buf len)"
  unfolding sys_write_def
  by (intro keep_rules keep_tryP write_keep)
    (auto intro!: keep_rules mod_frame)

lemma tty_wait_keep: "keep C I T (tty_wait fuel buf len)"
proof (induction fuel arbitrary: C)
  case 0
  then show ?case using I_T by (auto simp: keep_def failP_def post_def)
next
  case (Suc fuel)
  have w: "keep D I T (failP Waiting)" for D using I_T by (auto simp: keep_def failP_def post_def)
  show ?case
    by (simp, intro keep_rules)
      (auto intro!: keep_rules mod_frame tty Suc w split: prod.split option.split list.split)
qed

lemma sys_read_keep: "keep C I T (sys_read rd fd buf len)"
  unfolding sys_read_def
  by (intro keep_rules keep_tryP read_keep)
    (auto intro!: keep_rules tty_wait_keep)

lemma call_keep: "modelled n \<Longrightarrow> keep C I T (call_of env n a1 a2 a3 a4 a5 a6)"
  by (cases n)
    (simp_all add: call_of_def modelled_def keep_weaken [OF exit] keep_weaken [OF fork] keep_weaken [OF kill]
      sys_read_keep sys_write_keep
      sys_open_def open_keep user keep_bind close_keep stat_keep lseek_keep getters_keep sys_yield_def
      keep_weaken [OF yield] keep_ret waitpid_keep pipe_handler_keep setpgid_keep getdents_keep chdir_keep dirs_keep names_keep
      setuid_keep keep_fail)

lemma handle_keep:
  assumes "\<And>n. from_u64 number = Some n \<Longrightarrow> modelled n"
  shows "keep C I T (handle_syscall env number a1 a2 a3 a4 a5 a6)"
proof (cases "from_u64 number")
  case None
  then show ?thesis by (simp add: handle_syscall_def keep_ret)
next
  case (Some n)
  have "keep C I T (tryP (call_of env n a1 a2 a3 a4 a5 a6) (\<lambda>r. case r of Ok v \<Rightarrow> retP (encode_result (Ok v))
      | Err (Errno e) \<Rightarrow> retP (encode_result (Err e)) | Err t \<Rightarrow> failP t))"
    by (rule keep_tryP [OF call_keep [OF assms [OF Some]]]) (auto intro!: keep_rules split: trap.split)
  with Some show ?thesis by (simp add: handle_syscall_def)
qed

lemma preempt_keep: "keep C I T check_and_handle_preemption"
  unfolding check_and_handle_preemption_def by (intro keep_rules mod_frame yield) simp

end
section \<open>What scheduling keeps of the processes\<close>

type_synonym pview = "u32 \<times> string \<times> fd_table"

definition view :: "proc \<Rightarrow> pview" where
  "view p = (pr_uid p, cwd p, fd_table p)"

definition views :: "(cpu_context, fd_table) scheduler \<Rightarrow> pview multiset" where
  "views s = mset (map view (all_processes s))"

lemma view_simps [simp]:
  "view (p\<lparr>pr_state := a\<rparr>) = view p" "view (p\<lparr>pr_wait_state := b\<rparr>) = view p" "view (p\<lparr>pr_pgid := c\<rparr>) = view p"
  "view (p\<lparr>pending_signals := d\<rparr>) = view p" "view (p\<lparr>pr_context := e\<rparr>) = view p" "view (p\<lparr>pr_gid := f\<rparr>) = view p"
  "view (zero_rax p) = view p" "view (wake_on_exit g p) = view p" "view (wake p) = view p"
  by (simp_all add: view_def zero_rax_def wake_on_exit_def wake_def)

lemma view_deliver_signals: "deliver_signals p = (q, act) \<Longrightarrow> view q = view p"
  by (auto simp: deliver_signals_def Let_def clear_signal_def resume_def split: if_splits)

lemma map_view_comp [simp]: "view \<circ> wake_on_exit c = view" "map (view \<circ> wake_on_exit c) ps = map view ps"
  by (auto simp: fun_eq_iff)

lemma views_current: "current s = Some p \<Longrightarrow> views s = add_mset (view p) (mset (map view (ready_queue s)))"
  by (simp add: views_def all_processes_def)

lemma views_None: "current s = None \<Longrightarrow> views s = mset (map view (ready_queue s))"
  by (simp add: views_def all_processes_def)

lemma views_wake [simp]: "views (wake_waiters_for_child s c) = views s"
  by (cases "current s") (simp_all add: views_current views_None wake_waiters_for_child_def multiset.map_comp)

lemma views_requeue: "views (requeue_current s) \<subseteq># views s"
proof (cases "current s")
  case None
  then show ?thesis by (simp add: requeue_current_def)
next
  case (Some p)
  obtain q act where d: "deliver_signals p = (q, act)" by fastforce
  have "view q = view p" by (rule view_deliver_signals [OF d])
  with Some d show ?thesis
    by (cases act) (auto simp: requeue_current_def views_current [OF Some] views_None Let_def
        wake_waiters_for_stopped_child_def set_stopped_def)
qed

lemma views_schedule_next: "views (schedule_next s) \<subseteq># views s"
proof (cases s rule: schedule_next_cases)
  case idle
  then show ?thesis using views_requeue [of s] by simp
next
  case (run as p bs)
  have "views (schedule_next s) = views (requeue_current s)"
    using run(1) unfolding run(4) by (simp add: views_current views_None)
  then show ?thesis using views_requeue [of s] by simp
qed

lemma send_signal_view: "send_signal g p = Ret q \<Longrightarrow> view q = view p"
  by (auto simp: send_signal_def split: if_splits)

lemma signal_queue_view: "signal_queue g sig ps = Ret (qs, n) \<Longrightarrow> map view qs = map view ps"
  by (induction ps arbitrary: qs n) (auto dest!: send_signal_view split: if_splits)

lemma views_signal_group: "signal_process_group s g sig = Ret (s', n) \<Longrightarrow> views s' = views s"
  by (cases "current s")
    (auto simp: signal_process_group_def views_def all_processes_def dest!: signal_queue_view send_signal_view
      split: if_splits simp flip: mset_map)

lemma views_kill: "kill_handler s pid sig = Ret (s', r) \<Longrightarrow> views s' = views s"
  by (auto simp: kill_handler_def views_current dest!: views_signal_group send_signal_view
      split: option.splits if_splits)

lemma views_signal_handlers:
  "signal_handler s = Ret s' \<Longrightarrow> views s' = views s"
  "stop_signal_handler s = Ret s' \<Longrightarrow> views s' = views s"
  by (auto simp: signal_handler_def stop_signal_handler_def dest!: views_signal_group split: option.splits)

lemma take_first_view: "take_first P ps = (r, qs) \<Longrightarrow> mset (map view qs) \<subseteq># mset (map view ps)"
proof (induction ps arbitrary: qs r)
  case Nil
  then show ?case by simp
next
  case (Cons p ps)
  then show ?case by (auto split: if_splits prod.splits)
qed

lemma views_take_zombie: "find_zombie_child s parent = (s', z) \<Longrightarrow> views s' \<subseteq># views s"
  by (cases "current s")
    (auto simp: find_zombie_child_def views_current views_None dest!: take_first_view split: if_splits prod.splits)

lemma views_exit: "exit_handler s status = (s', reap) \<Longrightarrow> views s' \<subseteq># views s"
proof -
  assume e: "exit_handler s status = (s', reap)"
  show ?thesis
  proof (cases "current s")
    case None
    with e show ?thesis using views_schedule_next [of s] by (simp add: exit_handler_def)
  next
    case (Some p)
    let ?p = "if parent_pid p \<noteq> None then set_zombie status p else set_exited status p"
    have "views (s\<lparr>current := Some ?p\<rparr>) = views s"
      using Some by (simp add: views_current set_zombie_def set_exited_def)
    then show ?thesis
      using e Some views_schedule_next [of "wake_waiters_for_child (s\<lparr>current := Some ?p\<rparr>) (pr_pid p)"]
      by (auto simp: exit_handler_def Let_def)
  qed
qed

section \<open>Invariants of the views\<close>

definition fdP :: "(fd_kind \<Rightarrow> nat) \<Rightarrow> pipe_pool \<Rightarrow> fd_table \<Rightarrow> bool" where
  "fdP f P t \<longleftrightarrow> length t = MAX_FDS \<and> (\<forall>k. f k + MAX_FDS \<le> usize_max) \<and> safe P (\<lambda>k. f k + cnt t k)"

lemma fdI_fdP: "fdI f (v, t) = fdP f (PIPES v) t"
  by (simp add: fdI_def fdP_def)

definition view_inv :: "(pview multiset \<Rightarrow> pipe_pool \<Rightarrow> u64 \<Rightarrow> bool) \<Rightarrow> ('d, 'm) kernel \<Rightarrow> bool" where
  "view_inv J k \<longleftrightarrow> J (views (SCHEDULER k)) (PIPES (VFS k)) (NEXT_PID k)"

lemma open_pool_fold_table:
  "foldP (\<lambda>_ entry. case entry of Some kind \<Rightarrow> open_end kind | None \<Rightarrow> retP ()) () us (v, x) = Ret ((v', x'), r) \<Longrightarrow> x' = x"
proof (induction us arbitrary: v)
  case Nil
  then show ?case by (simp add: retP_def)
next
  case (Cons e us)
  then show ?case
    by (cases e) (auto simp: bindP_Ret retP_def open_end_run split: prod.splits)
qed

lemma fork_copy_table: "fork_copy (v, t) = Ret ((v', t'), r) \<Longrightarrow> t' = t \<and> (\<forall>t2. r = Ok t2 \<longrightarrow> t2 = t)"
  by (auto simp: fork_copy_def bindP_Ret getP_def retP_def dest: open_pool_fold_table)

text \<open>What \<open>fork_from\<close> leaves: only the pool of pipes and the memory may have changed, and the child
  has the views of its parent.\<close>

definition forked :: "proc \<Rightarrow> ('d, 'm) kernel \<Rightarrow> ('d, 'm) kernel \<Rightarrow> (proc, trap) result \<Rightarrow> bool" where
  "forked p k k' r \<longleftrightarrow> SCHEDULER k' = SCHEDULER k \<and> NEXT_PID k' = NEXT_PID k
     \<and> ((\<exists>e. r = Err (Errno e))
          \<and> (PIPES (VFS k') = PIPES (VFS k) \<or> (\<exists>e. fork_copy (VFS k, fd_table p) = Ret ((VFS k', fd_table p), Err e)))
       \<or> (\<exists>child t. r = Ok child \<and> view child = view p \<and> fork_copy (VFS k, fd_table p) = Ret ((VFS k', fd_table p), Ok t)))"

lemma forked_Err: "forked p k k' (Err e) \<Longrightarrow> PIPES (VFS k') = PIPES (VFS k)
    \<or> (\<exists>e'. fork_copy (VFS k, fd_table p) = Ret ((VFS k', fd_table p), Err e'))"
  by (auto simp: forked_def)

lemma forked_Ok: "forked p k k' (Ok child) \<Longrightarrow> view child = view p
    \<and> (\<exists>t. fork_copy (VFS k, fd_table p) = Ret ((VFS k', fd_table p), Ok t))"
  by (auto simp: forked_def)

lemma fork_from_forked:
  assumes "cur_is p k" "fork_from env p c k = Ret (k', r)"
  shows "forked p k k' r"
proof -
  obtain mm1 r1 where m1: "env_clone env (page_table_phys p) (MM k) = Ret (mm1, r1)"
    using assms(2) by (auto simp: fork_from_def bindP_Ret on_mm_def map_errP_def zoomP_def split: outcome.splits)
  show ?thesis
  proof (cases r1)
    case (Err e)
    with m1 assms(2) show ?thesis
      by (auto simp: fork_from_def bindP_def on_mm_def map_errP_def zoomP_def forked_def)
  next
    case (Ok cpt)
    define k2 where "k2 = k\<lparr>MM := mm1, SPACES := (SPACES k)(cpt := SPACES k (page_table_phys p))\<rparr>"
    have k2: "cur_is p k2" "VFS k2 = VFS k" "SCHEDULER k2 = SCHEDULER k" "NEXT_PID k2 = NEXT_PID k" "MM k2 = mm1"
      using assms(1) by (simp_all add: k2_def cur_is_def)
    have run: "fork_from env p c k =
      bindP (on_mm ENOMEM (env_kstack env cpt KERNEL_STACK_TOP)) (\<lambda>_.
      bindP (map_errP (\<lambda>_. Errno ENOMEM) (on_fds fork_copy)) (\<lambda>child_fd_table.
      retP (p\<lparr>pr_pid := c, pr_pgid := c, parent_pid := Some (pr_pid p), pr_state := Ready,
        pr_wait_state := NotWaiting, kernel_stack_ptr := KERNEL_STACK_TOP, page_table_phys := cpt,
        fd_table := child_fd_table, pending_signals := 0\<rparr>))) k2"
    proof -
      have a: "on_mm ENOMEM (env_clone env (page_table_phys p)) k = Ret (k\<lparr>MM := mm1\<rparr>, Ok cpt)"
        using m1 Ok by (simp add: on_mm_def map_errP_def zoomP_def)
      have b: "modP (\<lambda>k. k\<lparr>SPACES := (SPACES k)(cpt := SPACES k (page_table_phys p))\<rparr>) (k\<lparr>MM := mm1\<rparr>) = Ret (k2, Ok ())"
        by (simp add: modP_def k2_def)
      show ?thesis unfolding fork_from_def bindP_step [of "on_mm ENOMEM (env_clone env (page_table_phys p))" k, OF a]
          bindP_step [of "modP (\<lambda>k. k\<lparr>SPACES := (SPACES k)(cpt := SPACES k (page_table_phys p))\<rparr>)" "k\<lparr>MM := mm1\<rparr>", OF b]
        by (rule refl)
    qed
    obtain mm2 r2 where m2: "env_kstack env cpt KERNEL_STACK_TOP mm1 = Ret (mm2, r2)"
      using assms(2) k2(5) unfolding run
      by (auto simp: bindP_Ret on_mm_def map_errP_def zoomP_def split: outcome.splits)
    define k3 where "k3 = k2\<lparr>MM := mm2\<rparr>"
    have k3: "cur_is p k3" "VFS k3 = VFS k" "SCHEDULER k3 = SCHEDULER k" "NEXT_PID k3 = NEXT_PID k"
      using k2 by (simp_all add: k3_def cur_is_def)
    show ?thesis
    proof (cases r2)
      case (Err e)
      with assms(2) m2 k2 show ?thesis
        unfolding run by (auto simp: bindP_def on_mm_def map_errP_def zoomP_def forked_def)
    next
      case ok2: (Ok x)
      have run3: "fork_from env p c k =
        bindP (map_errP (\<lambda>_. Errno ENOMEM) (on_fds fork_copy)) (\<lambda>child_fd_table.
        retP (p\<lparr>pr_pid := c, pr_pgid := c, parent_pid := Some (pr_pid p), pr_state := Ready,
          pr_wait_state := NotWaiting, kernel_stack_ptr := KERNEL_STACK_TOP, page_table_phys := cpt,
          fd_table := child_fd_table, pending_signals := 0\<rparr>)) k3"
      proof -
        have a: "on_mm ENOMEM (env_kstack env cpt KERNEL_STACK_TOP) k2 = Ret (k3, Ok x)"
          using m2 ok2 k2(5) by (simp add: on_mm_def map_errP_def zoomP_def k3_def)
        show ?thesis unfolding run
          bindP_step [of "on_mm ENOMEM (env_kstack env cpt KERNEL_STACK_TOP)" k2, OF a] by (rule refl)
      qed
      obtain v t rf where fc: "fork_copy (VFS k, fd_table p) = Ret ((v, t), rf)"
        using assms(2) k3(2) unfolding run3
        by (auto simp: bindP_Ret map_errP_def on_fds_run [OF k3(1)] split: outcome.splits)
      have t: "t = fd_table p" "\<And>t2. rf = Ok t2 \<Longrightarrow> t2 = fd_table p" using fork_copy_table [OF fc] by auto
      have u: "upd_current (k3\<lparr>VFS := v\<rparr>) (p\<lparr>fd_table := t\<rparr>) = k3\<lparr>VFS := v\<rparr>"
        using t(1) upd_current_same [OF k3(1), of v] by simp
      from assms(2) fc k3 t u show ?thesis
        unfolding run3 forked_def
        by (cases rf) (auto simp: bindP_def map_errP_def on_fds_run [OF k3(1)] retP_def view_def)
    qed
  qed
qed

locale view_invariant =
  fixes env :: "('d, 'm) env"
    and J :: "pview multiset \<Rightarrow> pipe_pool \<Rightarrow> u64 \<Rightarrow> bool"
  assumes fewer: "J V P n \<Longrightarrow> V' \<subseteq># V \<Longrightarrow> J V' P n"
    and same_pool: "J V P n \<Longrightarrow> (\<And>f. safe P f \<Longrightarrow> safe P' f) \<Longrightarrow> J V P' n"
    and fd_step: "J (add_mset (u, c, t) V) P n \<Longrightarrow> (\<And>f. fdP f P t \<Longrightarrow> fdP f P' t') \<Longrightarrow> J (add_mset (u, c, t') V) P' n"
    and cwd_step: "J (add_mset (u, c, t) V) P n \<Longrightarrow> abs_normal c' \<Longrightarrow> J (add_mset (u, c', t) V) P n"
    and uid_step: "J (add_mset (0, c, t) V) P n \<Longrightarrow> J (add_mset (u, c, t) V) P n"
    and fork_step: "J (add_mset (u, c, t) V) P n \<Longrightarrow> n \<noteq> - 1 \<Longrightarrow>
      (\<And>g. safe P g \<Longrightarrow> (\<And>k. is_pipe k \<Longrightarrow> g k + cnt t k \<le> usize_max) \<Longrightarrow> safe P' (\<lambda>k. g k + cnt t k)) \<Longrightarrow>
      J (add_mset (u, c, t) (add_mset (u, c, t) V)) P' (n + 1)"
    and fork_failed: "J (add_mset (u, c, t) V) P n \<Longrightarrow> n \<noteq> - 1 \<Longrightarrow>
      (\<And>g. safe P g \<Longrightarrow> (\<And>k. is_pipe k \<Longrightarrow> g k + cnt t k \<le> usize_max) \<Longrightarrow> safe P' g) \<Longrightarrow>
      J (add_mset (u, c, t) V) P' (n + 1)"
begin

lemma inv_fewer: "view_inv J k \<Longrightarrow> views (SCHEDULER k') \<subseteq># views (SCHEDULER k) \<Longrightarrow> PIPES (VFS k') = PIPES (VFS k) \<Longrightarrow>
    NEXT_PID k' = NEXT_PID k \<Longrightarrow> view_inv J k'"
  unfolding view_inv_def using fewer by simp

lemma inv_cur:
  assumes "view_inv J k" "cur_is p k"
  shows "J (add_mset (pr_uid p, cwd p, fd_table p) (mset (map view (ready_queue (SCHEDULER k))))) (PIPES (VFS k)) (NEXT_PID k)"
  using assms by (simp add: view_inv_def cur_is_def views_current view_def [of p])

lemma inv_upd:
  "J (add_mset (view q) (mset (map view (ready_queue (SCHEDULER k))))) (PIPES (VFS k)) (NEXT_PID k) \<Longrightarrow> view_inv J (upd_current k q)"
  by (simp add: view_inv_def views_current)

lemma post_inv: "view_inv J k \<Longrightarrow> post (view_inv J) (view_inv J) k r"
  by (simp add: post_def split: result.splits trap.splits)

lemma on_sched_keep:
  assumes "\<And>s s' r. m s = Ret (s', r) \<Longrightarrow> views s' \<subseteq># views s"
  shows "keep C (view_inv J) (view_inv J) (on_sched m)"
proof (rule keepI)
  fix k k' r assume k: "view_inv J k" "on_sched m k = Ret (k', r)"
  then obtain s r' where "m (SCHEDULER k) = Ret (s, r')" "k' = k\<lparr>SCHEDULER := s, CURRENT_CONTEXT := context_ptr k\<rparr>"
    by (auto simp: on_sched_def map_errP_def zoomP_def split: outcome.splits)
  with assms have "view_inv J k'" by (intro inv_fewer [OF k(1)]) auto
  then show "post (view_inv J) (view_inv J) k' r" by (rule post_inv)
qed

lemma yield_inv: "keep C (view_inv J) (view_inv J) yield_handler"
proof (rule keepI)
  fix k k' r assume k: "view_inv J k" "yield_handler k = Ret (k', r)"
  let ?s = "(SCHEDULER k)\<lparr>current := map_option zero_rax (current (SCHEDULER k))\<rparr>"
  have z: "views ?s = views (SCHEDULER k)"
    by (cases "current (SCHEDULER k)") (simp_all add: views_current views_None)
  have "views (SCHEDULER k') \<subseteq># views (SCHEDULER k) \<and> PIPES (VFS k') = PIPES (VFS k) \<and> NEXT_PID k' = NEXT_PID k"
    using k(2) views_schedule_next [of ?s] z
    by (auto simp: yield_handler_def prog_defs increment_context_switch_counter_def switch_to_user_def
        split: option.splits if_splits)
  then show "post (view_inv J) (view_inv J) k' r" using inv_fewer [OF k(1)] post_inv by blast
qed

lemma fork_inv: "keep C (view_inv J) (view_inv J) (fork_handler env)"
proof (rule keepI)
  fix k k' r assume k: "view_inv J k" "fork_handler env k = Ret (k', r)"
  show "post (view_inv J) (view_inv J) k' r"
  proof (cases "current (SCHEDULER k)")
    case None
    with k(2) have "k' = k" by (auto simp: fork_handler_def current_process_def bindP_def getP_def liftR_def)
    with k(1) show ?thesis by (simp add: post_inv)
  next
    case (Some p)
    define n where "n = NEXT_PID k"
    define k1 where "k1 = k\<lparr>NEXT_PID := n + 1\<rparr>"
    have cur: "cur_is p k" "cur_is p k1" using Some by (simp_all add: cur_is_def k1_def)
    note j = inv_cur [OF k(1) cur(1)]
    have n: "n \<noteq> - 1"
      using k(2) Some by (auto simp: fork_handler_def current_process_def bindP_def getP_def liftR_def panicP_def n_def)
    let ?rest = "\<lambda>child. bindP (set_current (p\<lparr>pr_context := (pr_context p)\<lparr>rax := n\<rparr>\<rparr>)) (\<lambda>_.
       bindP (on_sched (\<lambda>s. bindO (add_process s (zero_rax child)) (\<lambda>s'. Ret (s', Ok ())))) (\<lambda>_. retP n))"
    have run: "fork_handler env k = bindP (fork_from env p (Pid n)) ?rest k1"
      using n Some by (simp add: fork_handler_def current_process_def bindP_def getP_def liftR_def modP_def n_def k1_def)
    obtain k2 r2 where f: "fork_from env p (Pid n) k1 = Ret (k2, r2)"
      using k(2) unfolding run by (auto simp: bindP_Ret)
    have fk: "forked p k1 k2 r2" by (rule fork_from_forked [OF cur(2) f])
    define Q where "Q = mset (map view (ready_queue (SCHEDULER k)))"
    have j: "J (add_mset (pr_uid p, cwd p, fd_table p) Q) (PIPES (VFS k)) n"
      using inv_cur [OF k(1) cur(1)] by (simp add: Q_def n_def)
    have s2: "SCHEDULER k2 = SCHEDULER k" "NEXT_PID k2 = n + 1" using fk by (simp_all add: forked_def k1_def)
    have v2: "views (SCHEDULER k2) = add_mset (pr_uid p, cwd p, fd_table p) Q"
      using s2 Some by (simp add: views_current view_def [of p] Q_def)
    show ?thesis
    proof (cases r2)
      case (Err e)
      then have k': "k' = k2" using k(2) f unfolding run by (auto simp: bindP_Ret)
      have "J (add_mset (pr_uid p, cwd p, fd_table p) Q) (PIPES (VFS k2)) (n + 1)"
      proof (rule fork_failed [OF j n])
        fix g assume g: "safe (PIPES (VFS k)) g" "\<And>k. is_pipe k \<Longrightarrow> g k + cnt (fd_table p) k \<le> usize_max"
        show "safe (PIPES (VFS k2)) g"
          using forked_Err [OF fk [unfolded Err]] fork_copy_safe [OF g] g(1) by (auto simp: k1_def)
      qed
      then have "view_inv J k2" by (simp add: view_inv_def v2 s2(2))
      then show ?thesis unfolding k' by (rule post_inv)
    next
      case (Ok child)
      have c: "view child = (pr_uid p, cwd p, fd_table p)"
        using forked_Ok [OF fk [unfolded Ok]] by (simp add: view_def)
      have "J (add_mset (pr_uid p, cwd p, fd_table p) (add_mset (pr_uid p, cwd p, fd_table p) Q)) (PIPES (VFS k2)) (n + 1)"
      proof (rule fork_step [OF j n])
        fix g assume g: "safe (PIPES (VFS k)) g" "\<And>k. is_pipe k \<Longrightarrow> g k + cnt (fd_table p) k \<le> usize_max"
        show "safe (PIPES (VFS k2)) (\<lambda>k. g k + cnt (fd_table p) k)"
          using forked_Ok [OF fk [unfolded Ok]] fork_copy_safe [OF g] by (auto simp: k1_def)
      qed
      moreover have "views (SCHEDULER k') = add_mset (pr_uid p, cwd p, fd_table p) (add_mset (pr_uid p, cwd p, fd_table p) Q)
          \<and> PIPES (VFS k') = PIPES (VFS k2) \<and> NEXT_PID k' = n + 1"
        using k(2) f Ok c s2 unfolding run
        by (auto simp: bindP_def set_current_def modP_def on_sched_def map_errP_def zoomP_def add_process_def retP_def
            views_current view_def [of p] Q_def split: if_splits)
      ultimately have "view_inv J k'" by (simp add: view_inv_def)
      then show ?thesis by (rule post_inv)
    qed
  qed
qed

lemma reap_frame: "reap_pending env k = Ret (k', r) \<Longrightarrow>
    SCHEDULER k' = SCHEDULER k \<and> VFS k' = VFS k \<and> NEXT_PID k' = NEXT_PID k"
  by (auto simp: reap_pending_def bindP_Ret getP_def modP_def tryP_def on_mm_def map_errP_def zoomP_def retP_def panicP_def
      split: if_splits outcome.splits result.splits)

lemma exit_inv: "keep C (view_inv J) (view_inv J) (sys_exit env status)"
proof (rule keepI)
  fix k k' r assume k: "view_inv J k" "sys_exit env status k = Ret (k', r)"
  obtain s reap where e: "exit_handler (SCHEDULER k) status = (s, reap)" by fastforce
  have "SCHEDULER k' = s \<and> VFS k' = VFS k \<and> NEXT_PID k' = NEXT_PID k"
    using k(2) e
    by (auto simp: sys_exit_def bindP_Ret getP_def modP_def switch_to_user_def failP_def dest!: reap_frame
        split: option.splits if_splits prod.splits)
  with views_exit [OF e] have "view_inv J k'" by (intro inv_fewer [OF k(1)]) auto
  then show "post (view_inv J) (view_inv J) k' r" by (rule post_inv)
qed

lemma zombie_inv: "keep C (view_inv J) (view_inv J) (take_zombie pid parent)"
  unfolding take_zombie_def find_any_zombie_child_def
  by (intro keep_rules on_sched_keep) (auto dest!: views_take_zombie split: prod.splits)

lemma tty_inv: "keep C (view_inv J) (view_inv J) (run_tty_action act)"
  unfolding run_tty_action_def
  by (cases act) (auto intro!: keep_rules on_sched_keep dest!: views_signal_handlers)

lemma kill_inv: "keep C (view_inv J) (view_inv J) (kill_call pid sig)"
  unfolding kill_call_def by (rule on_sched_keep) (auto dest!: views_kill)

end

sublocale view_invariant \<subseteq> kernel_invariant env "view_inv J" "view_inv J"
proof
  show "view_inv J k'" if "view_inv J k" "SCHEDULER k' = SCHEDULER k" "PIPES (VFS k') = PIPES (VFS k)" "NEXT_PID k' = NEXT_PID k"
    for k k' :: "('a, 'b) kernel"
    using that by (simp add: view_inv_def)
  show "view_inv J (k\<lparr>VFS := v\<rparr>)" if "view_inv J k" "\<And>f. safe (PIPES (VFS k)) f \<Longrightarrow> safe (PIPES v) f"
    for k :: "('a, 'b) kernel" and v
    using same_pool [of _ "PIPES (VFS k)" _ "PIPES v"] that by (simp add: view_inv_def)
  show "view_inv J (upd_current (k\<lparr>VFS := v\<rparr>) (p\<lparr>fd_table := t\<rparr>))"
    if "view_inv J k" "cur_is p k" "\<And>f. fdI f (VFS k, fd_table p) \<Longrightarrow> fdI f (v, t)"
    for k :: "('a, 'b) kernel" and p v t
    using fd_step [OF inv_cur [OF that(1,2)], of "PIPES v" t] that(3) by (intro inv_upd) (simp add: fdI_fdP view_def)
  show "view_inv J (upd_current k (p\<lparr>cwd := c\<rparr>))" if "view_inv J k" "cur_is p k" "abs_normal c"
    for k :: "('a, 'b) kernel" and p c
    using cwd_step [OF inv_cur [OF that(1,2)] that(3)] by (intro inv_upd) (simp add: view_def)
  show "view_inv J (upd_current k (p\<lparr>pr_pgid := g\<rparr>))" if "view_inv J k" "cur_is p k"
    for k :: "('a, 'b) kernel" and p g
    using inv_cur [OF that(1,2)] by (intro inv_upd) (simp add: view_def)
  show "view_inv J (upd_current k (p\<lparr>pr_uid := u\<rparr>))" if "view_inv J k" "cur_is p k" "pr_uid p = 0"
    for k :: "('a, 'b) kernel" and p u
    using uid_step inv_cur [OF that(1,2)] that(3) by (intro inv_upd) (simp add: view_def)
  show "view_inv J (upd_current k (p\<lparr>pr_gid := u\<rparr>))" if "view_inv J k" "cur_is p k"
    for k :: "('a, 'b) kernel" and p u
    using inv_cur [OF that(1,2)] by (intro inv_upd) (simp add: view_def)
  show "view_inv J (upd_current k (p\<lparr>pr_wait_state := w\<rparr>))" if "view_inv J k" "cur_is p k"
    for k :: "('a, 'b) kernel" and p w
    using inv_cur [OF that(1,2)] by (intro inv_upd) (simp add: view_def)
qed (auto intro: fork_inv exit_inv yield_inv kill_inv tty_inv zombie_inv)

end
