(* ===== verification/Kernel_Safety.thy ===== *)
theory Kernel_Safety
  imports Kernel_Invariants
begin

text \<open>
  The kernel as a transition system: system calls of the running process, timer ticks and input
  of the device, in any order. The properties hold in every state it reaches.
\<close>

section \<open>Steps\<close>

inductive kernel_step :: "('d, 'm) env \<Rightarrow> ('d, 'm) kernel \<Rightarrow> ('d, 'm) kernel \<Rightarrow> bool" for env where
  call: "(\<And>n. from_u64 (rax regs) = Some n \<Longrightarrow> modelled n) \<Longrightarrow> syscall_entry env regs k = Ret (k', r) \<Longrightarrow>
    kernel_step env k k'"
| tick: "timer_tick_handler k = Ret (k', r) \<Longrightarrow> kernel_step env k k'"
| device: "kernel_step env k (k\<lparr>DEVICE_INPUT := DEVICE_INPUT k @ bs\<rparr>)"
| read_on: "tty_wait (length (DEVICE_INPUT k) + 1) buf len k = Ret (k', r) \<Longrightarrow> kernel_step env k k'"

inductive kernel_reach :: "('d, 'm) env \<Rightarrow> ('d, 'm) kernel \<Rightarrow> ('d, 'm) kernel \<Rightarrow> bool" for env where
  start: "kernel_reach env k k"
| step: "kernel_reach env k k' \<Longrightarrow> kernel_step env k' k'' \<Longrightarrow> kernel_reach env k k''"

inductive_cases kernel_stepE: "kernel_step env k k'"

lemma views_set_context [simp]: "views (SCHEDULER (set_context f k)) = views (SCHEDULER k)"
  by (cases "current (SCHEDULER k)") (simp_all add: set_context_def views_current)

lemma set_context_simps [simp]:
  "VFS (set_context f k) = VFS k" "NEXT_PID (set_context f k) = NEXT_PID k" "context_ptr (set_context f k) = f (context_ptr k)"
  "NEED_RESCHED (set_context f k) = NEED_RESCHED k" "CONTEXT_SWITCH_COUNTER (set_context f k) = CONTEXT_SWITCH_COUNTER k"
  by (simp_all add: set_context_def context_ptr_def split: option.splits)

lemma save_registers_args [simp]:
  "rax (save_registers regs c) = rax regs" "rdi (save_registers regs c) = rdi regs" "rsi (save_registers regs c) = rsi regs"
  "rdx (save_registers regs c) = rdx regs" "r10 (save_registers regs c) = r10 regs" "r8 (save_registers regs c) = r8 regs"
  "r9 (save_registers regs c) = r9 regs"
  by (simp_all add: save_registers_def)

context view_invariant
begin

lemma set_context_inv: "view_inv J (set_context f k) = view_inv J k"
  unfolding view_inv_def views_set_context by simp

lemma handler_inv:
  assumes "\<And>n. from_u64 (rax (context_ptr k)) = Some n \<Longrightarrow> modelled n"
    "view_inv J k" "syscall_handler_rust env k = Ret (k', r)"
  shows "view_inv J k'"
proof -
  let ?c = "context_ptr k"
  have "keep anyC (view_inv J) (view_inv J)
     (bindP (handle_syscall env (rax ?c) (rdi ?c) (rsi ?c) (rdx ?c) (r10 ?c) (r8 ?c) (r9 ?c))
       (\<lambda>result. bindP check_and_handle_preemption (\<lambda>_. retP result)))"
    by (intro keep_rules handle_keep preempt_keep assms(1))
  from keepD [OF this assms(2)] assms(3) have "post (view_inv J) (view_inv J) k' r"
    by (simp add: syscall_handler_rust_def bindP_step [OF getP_def])
  then show ?thesis by (simp add: post_def split: result.splits trap.splits)
qed

lemma entry_inv:
  assumes "\<And>n. from_u64 (rax regs) = Some n \<Longrightarrow> modelled n" "view_inv J k" "syscall_entry env regs k = Ret (k', r)"
  shows "view_inv J k'"
proof -
  let ?k = "set_context (save_registers regs) k"
  have i: "view_inv J ?k" using assms(2) by (simp add: set_context_inv)
  have m: "modelled n" if "from_u64 (rax (context_ptr ?k)) = Some n" for n
    using that assms(1) by simp
  obtain k1 r1 where "syscall_handler_rust env ?k = Ret (k1, r1)" "k' = k1 \<or> (\<exists>f. k' = set_context f k1)"
    using assms(3) by (auto simp: syscall_entry_def bindP_Ret modP_def)
  with handler_inv [OF m i] show ?thesis by (auto simp: set_context_inv)
qed

lemma step_inv: "kernel_step env k k' \<Longrightarrow> view_inv J k \<Longrightarrow> view_inv J k'"
proof (induction rule: kernel_step.induct)
  case (call regs k k' r)
  show ?case by (rule entry_inv [OF call(1) call(3) call(2)])
next
  case (tick k k' r)
  then show ?case by (auto simp: timer_tick_handler_def bindP_def getP_def modP_def panicP_def view_inv_def split: if_splits)
next
  case (device k bs)
  then show ?case by (simp add: view_inv_def)
next
  case (read_on k buf len k' r)
  from keepD [OF tty_wait_keep [where C = anyC] read_on(2) _ read_on(1)] show ?case
    by (simp add: post_def split: result.splits trap.splits)
qed

lemma reach_inv: "kernel_reach env k k' \<Longrightarrow> view_inv J k \<Longrightarrow> view_inv J k'"
proof (induction rule: kernel_reach.induct)
  case (step k k' k'')
  show ?case by (rule step_inv [OF step(2) step.IH [OF step.prems]])
qed

end

section \<open>Privilege\<close>



section \<open>Working directories\<close>

definition cwds_normal :: "pview multiset \<Rightarrow> pipe_pool \<Rightarrow> u64 \<Rightarrow> bool" where
  "cwds_normal V P n \<longleftrightarrow> (\<forall>x \<in># V. abs_normal (fst (snd x)))"

interpretation dirs: view_invariant env cwds_normal for env
  by unfold_locales (auto simp: cwds_normal_def dest: mset_subset_eqD)

section \<open>Descriptors of pipes\<close>

definition fd_total :: "pview multiset \<Rightarrow> fd_kind \<Rightarrow> nat" where
  "fd_total V k = (\<Sum>x \<in># V. cnt (snd (snd x)) k)"

definition accounted :: "pview multiset \<Rightarrow> pipe_pool \<Rightarrow> u64 \<Rightarrow> bool" where
  "accounted V P n \<longleftrightarrow> 2 ^ 59 \<le> unat n
     \<or> size V \<le> unat n \<and> (\<forall>x \<in># V. length (snd (snd x)) = MAX_FDS) \<and> safe P (fd_total V)"

lemma fd_total_add [simp]: "fd_total (add_mset x V) = (\<lambda>k. cnt (snd (snd x)) k + fd_total V k)"
  by (simp add: fd_total_def fun_eq_iff)

lemma fd_total_mono: "V' \<subseteq># V \<Longrightarrow> fd_total V' k \<le> fd_total V k"
  by (auto simp: fd_total_def mset_subset_eq_exists_conv)

lemma fd_total_bound: "\<forall>x \<in># V. length (snd (snd x)) = MAX_FDS \<Longrightarrow> fd_total V k \<le> MAX_FDS * size V"
proof (induction V)
  case empty
  then show ?case by (simp add: fd_total_def)
next
  case (add x V)
  then show ?case using cnt_le [of "snd (snd x)" k] by auto
qed

lemma accounted_fork:
  assumes "accounted (add_mset x V) P n" "n \<noteq> - 1" "unat (n + 1) < 2 ^ 59"
  shows "unat (n + 1) = unat n + 1" "size (add_mset x V) \<le> unat n" "safe P (fd_total (add_mset x V))"
    "\<forall>y \<in># add_mset x V. length (snd (snd y)) = MAX_FDS"
    "fd_total (add_mset x V) k + cnt (snd (snd x)) k \<le> usize_max"
proof -
  have "1 + n \<noteq> 0" using assms(2) by (metis add.commute add_eq_0_iff)
  then show n: "unat (n + 1) = unat n + 1" by (simp add: unatSuc add.commute)
  then show *: "size (add_mset x V) \<le> unat n" "safe P (fd_total (add_mset x V))"
    "\<forall>y \<in># add_mset x V. length (snd (snd y)) = MAX_FDS"
    using assms by (auto simp: accounted_def)
  have "fd_total (add_mset x V) k \<le> MAX_FDS * unat n"
    using fd_total_bound [OF *(3), of k] mult_le_mono2 [OF *(1), of MAX_FDS] by simp
  moreover have "cnt (snd (snd x)) k \<le> MAX_FDS" using cnt_le [of "snd (snd x)" k] *(3) by simp
  moreover have "MAX_FDS * unat n + MAX_FDS \<le> usize_max" using n assms(3) by (simp add: MAX_FDS_def)
  ultimately show "fd_total (add_mset x V) k + cnt (snd (snd x)) k \<le> usize_max" by linarith
qed

interpretation refs: view_invariant env accounted for env
proof
  show "accounted V' P n" if "accounted V P n" "V' \<subseteq># V" for V P n V'
    using that fd_total_mono [OF that(2)] size_mset_mono [OF that(2)]
    by (auto simp: accounted_def elim!: safe_mono dest: mset_subset_eqD)
  show "accounted V P' n" if "accounted V P n" "\<And>f. safe P f \<Longrightarrow> safe P' f" for V P n P'
    using that by (auto simp: accounted_def)
  show "accounted (add_mset (u, c, t') V) P' n"
    if a: "accounted (add_mset (u, c, t) V) P n" "\<And>f. fdP f P t \<Longrightarrow> fdP f P' t'" for u c t V P n P' t'
  proof (cases "2 ^ 59 \<le> unat n")
    case True
    then show ?thesis by (simp add: accounted_def)
  next
    case False
    have b: "fd_total V k + MAX_FDS \<le> usize_max" for k
      using fd_total_bound [of V k] a(1) False by (auto simp: accounted_def MAX_FDS_def)
    have "fdP (fd_total V) P t"
      unfolding fdP_def using a(1) False b by (auto simp: accounted_def add.commute)
    from a(2) [OF this] a(1) False show ?thesis
      by (auto simp: fdP_def accounted_def add.commute)
  qed
  show "accounted (add_mset (u, c', t) V) P n" if "accounted (add_mset (u, c, t) V) P n" for u c c' t V P n
    using that by (simp add: accounted_def fd_total_def)
  show "accounted (add_mset (u, c, t) V) P n" if "accounted (add_mset (0, c, t) V) P n" for u c t V P n
    using that by (simp add: accounted_def fd_total_def)
  show "accounted (add_mset (u, c, t) (add_mset (u, c, t) V)) P' (n + 1)"
    if a: "accounted (add_mset (u, c, t) V) P n" "n \<noteq> - 1"
      "\<And>g. safe P g \<Longrightarrow> (\<And>k. is_pipe k \<Longrightarrow> g k + cnt t k \<le> usize_max) \<Longrightarrow> safe P' (\<lambda>k. g k + cnt t k)"
    for u c t V P n P'
  proof (cases "2 ^ 59 \<le> unat (n + 1)")
    case True
    then show ?thesis by (simp add: accounted_def)
  next
    case False
    then have l: "unat (n + 1) < 2 ^ 59" by simp
    note f = accounted_fork [OF a(1,2) l]
    have "safe P' (\<lambda>k. fd_total (add_mset (u, c, t) V) k + cnt t k)"
      by (rule a(3) [OF f(3)]) (use f(5) in simp)
    then show ?thesis using f(1,2,4) by (simp add: accounted_def add.commute)
  qed
  show "accounted (add_mset (u, c, t) V) P' (n + 1)"
    if a: "accounted (add_mset (u, c, t) V) P n" "n \<noteq> - 1"
      "\<And>g. safe P g \<Longrightarrow> (\<And>k. is_pipe k \<Longrightarrow> g k + cnt t k \<le> usize_max) \<Longrightarrow> safe P' g"
    for u c t V P n P'
  proof (cases "2 ^ 59 \<le> unat (n + 1)")
    case True
    then show ?thesis by (simp add: accounted_def)
  next
    case False
    then have l: "unat (n + 1) < 2 ^ 59" by simp
    note f = accounted_fork [OF a(1,2) l]
    have "safe P' (fd_total (add_mset (u, c, t) V))" by (rule a(3) [OF f(3)]) (use f(5) in simp)
    then show ?thesis using f(1,2,4) by (simp add: accounted_def)
  qed
qed

section \<open>The registers of the caller\<close>

text \<open>The context the pointer refers to has the registers of the caller up to the result, and the
  current process, if there is one, is the caller.\<close>

definition same_caller :: "pid option \<Rightarrow> cpu_context \<Rightarrow> (cpu_context, fd_table) scheduler \<Rightarrow> bool" where
  "same_caller pid ctx s \<longleftrightarrow>
     (\<forall>p. current s = Some p \<longrightarrow> Some (pr_pid p) = pid \<and> (pr_context p)\<lparr>rax := 0\<rparr> = ctx\<lparr>rax := 0\<rparr>)"

definition resumes :: "pid option \<Rightarrow> cpu_context \<Rightarrow> ('d, 'm) kernel \<Rightarrow> bool" where
  "resumes pid ctx k \<longleftrightarrow> same_caller pid ctx (SCHEDULER k) \<and> (context_ptr k)\<lparr>rax := 0\<rparr> = ctx\<lparr>rax := 0\<rparr>"

lemma post_resumes: "resumes pid ctx k \<Longrightarrow> post (resumes pid ctx) anyC k r"
  by (simp add: post_def split: result.splits trap.splits)

lemma resumes_sched:
  "resumes pid ctx k \<Longrightarrow> same_caller pid ctx s \<Longrightarrow> resumes pid ctx (k\<lparr>SCHEDULER := s, CURRENT_CONTEXT := context_ptr k\<rparr>)"
  by (auto simp: resumes_def same_caller_def context_ptr_def split: option.splits)

lemma sched_resumes:
  assumes "\<And>s s' r. m s = Ret (s', r) \<Longrightarrow> same_caller pid ctx s \<Longrightarrow> same_caller pid ctx s'"
  shows "keep C (resumes pid ctx) anyC (on_sched m)"
proof (rule keepI, rule post_resumes)
  fix k k' r assume k: "resumes pid ctx k" "on_sched m k = Ret (k', r)"
  then obtain s r' where s: "m (SCHEDULER k) = Ret (s, r')" "k' = k\<lparr>SCHEDULER := s, CURRENT_CONTEXT := context_ptr k\<rparr>"
    by (auto simp: on_sched_def map_errP_def zoomP_def split: outcome.splits)
  then show "resumes pid ctx k'" using resumes_sched [OF k(1)] assms [OF s(1)] k(1) by (simp add: resumes_def)
qed

lemma send_signal_same: "send_signal g p = Ret q \<Longrightarrow> pr_pid q = pr_pid p \<and> pr_context q = pr_context p"
  by (auto simp: send_signal_def split: if_splits)

lemma signal_group_same: "signal_process_group s g sig = Ret (s', n) \<Longrightarrow> same_caller pid ctx s \<Longrightarrow> same_caller pid ctx s'"
  by (cases "current s")
    (auto simp: signal_process_group_def same_caller_def dest!: send_signal_same split: if_splits)

lemma kill_same: "kill_handler s pd sig = Ret (s', r) \<Longrightarrow> same_caller pid ctx s \<Longrightarrow> same_caller pid ctx s'"
  by (auto simp: kill_handler_def dest!: signal_group_same send_signal_same split: option.splits if_splits)
    (auto simp: same_caller_def)

lemma yield_resumes: "keep C (resumes pid ctx) anyC yield_handler"
  by (rule keepI)
    (auto simp: yield_handler_def prog_defs increment_context_switch_counter_def switch_to_user_def post_def resumes_def
      same_caller_def context_ptr_def zero_rax_def split: option.splits if_splits)

lemma fork_resumes: "keep C (resumes pid ctx) anyC (fork_handler env)"
proof (rule keepI)
  fix k k' r assume k: "resumes pid ctx k" "fork_handler env k = Ret (k', r)"
  have "resumes pid ctx k'"
  proof (cases "current (SCHEDULER k)")
    case None
    with k show ?thesis by (auto simp: fork_handler_def current_process_def bindP_def getP_def liftR_def)
  next
    case (Some p)
    then obtain n where n: "NEXT_PID k = n" and c: "cur_is p (k\<lparr>NEXT_PID := n + 1\<rparr>)" by (simp add: cur_is_def)
    obtain k2 r2 where f: "fork_from env p (Pid n) (k\<lparr>NEXT_PID := n + 1\<rparr>) = Ret (k2, r2)"
      using k(2) Some n
      by (auto simp: fork_handler_def current_process_def bindP_def getP_def liftR_def modP_def panicP_def split: if_splits outcome.splits)
    have "SCHEDULER k2 = SCHEDULER k" using fork_from_forked [OF c f] by (simp add: forked_def)
    with k Some n f show ?thesis
      by (cases r2)
        (auto simp: fork_handler_def current_process_def bindP_def getP_def liftR_def modP_def panicP_def set_current_def
          on_sched_def map_errP_def zoomP_def add_process_def retP_def resumes_def same_caller_def context_ptr_def split: if_splits)
  qed
  then show "post (resumes pid ctx) anyC k' r" by (rule post_resumes)
qed

lemma exit_resumes: "keep C (resumes pid ctx) anyC (sys_exit env status)"
  by (rule keepI)
    (auto simp: sys_exit_def bindP_Ret getP_def modP_def switch_to_user_def failP_def post_def reap_pending_def
      tryP_def on_mm_def map_errP_def zoomP_def retP_def panicP_def split: option.splits if_splits prod.splits outcome.splits result.splits)

lemma zombie_same: "find_zombie_child s parent = (s', z) \<Longrightarrow> same_caller pid ctx s \<Longrightarrow> same_caller pid ctx s'"
  by (auto simp: find_zombie_child_def same_caller_def Let_def split: prod.splits if_splits option.splits)

lemma signal_handlers_same:
  "signal_handler s = Ret s' \<Longrightarrow> same_caller pid ctx s \<Longrightarrow> same_caller pid ctx s'"
  "stop_signal_handler s = Ret s' \<Longrightarrow> same_caller pid ctx s \<Longrightarrow> same_caller pid ctx s'"
  by (auto simp: signal_handler_def stop_signal_handler_def dest!: signal_group_same split: option.splits)

interpretation regs: kernel_invariant env "resumes pid ctx" anyC for env pid ctx
proof
  show "keep anyC (resumes pid ctx) anyC (fork_handler env)" by (rule fork_resumes)
  show "keep anyC (resumes pid ctx) anyC (sys_exit env status)" for status by (rule exit_resumes)
  show "keep anyC (resumes pid ctx) anyC yield_handler" by (rule yield_resumes)
  show "keep anyC (resumes pid ctx) anyC (kill_call pd sig)" for pd sig
    unfolding kill_call_def by (rule sched_resumes) (auto dest!: kill_same)
  show "keep anyC (resumes pid ctx) anyC (run_tty_action act)" for act
    unfolding run_tty_action_def by (cases act) (auto intro!: keep_rules sched_resumes dest!: signal_handlers_same)
  show "keep anyC (resumes pid ctx) anyC (take_zombie pd parent)" for pd parent
    unfolding take_zombie_def find_any_zombie_child_def
    by (intro keep_rules sched_resumes) (auto dest!: zombie_same split: prod.splits)
qed (auto simp: resumes_def same_caller_def context_ptr_def cur_is_def upd_current_def split: option.splits)

lemma entry_resumes:
  assumes "\<And>n. from_u64 (rax regs) = Some n \<Longrightarrow> modelled n"
    "syscall_handler_rust env (set_context (save_registers regs) k) = Ret (k1, Ok v)"
  shows "resumes (map_option pr_pid (current (SCHEDULER k))) (save_registers regs (context_ptr k)) k1"
    "\<exists>k2. handle_syscall env (rax regs) (rdi regs) (rsi regs) (rdx regs) (r10 regs) (r8 regs) (r9 regs)
       (set_context (save_registers regs) k) = Ret (k2, Ok v)"
proof -
  let ?k = "set_context (save_registers regs) k" and ?c = "save_registers regs (context_ptr k)"
  let ?pid = "map_option pr_pid (current (SCHEDULER k))"
  let ?call = "handle_syscall env (rax regs) (rdi regs) (rsi regs) (rdx regs) (r10 regs) (r8 regs) (r9 regs)"
  let ?m = "bindP ?call (\<lambda>result. bindP check_and_handle_preemption (\<lambda>_. retP result))"
  have m: "?m ?k = Ret (k1, Ok v)"
    using assms(2) by (simp add: syscall_handler_rust_def bindP_step [OF getP_def])
  have kp: "keep anyC (resumes ?pid ?c) anyC ?m"
    by (intro keep_rules regs.handle_keep regs.preempt_keep) (rule assms(1))
  have rs: "resumes ?pid ?c ?k"
    by (auto simp: resumes_def same_caller_def set_context_def context_ptr_def split: option.splits)
  from keepD [OF kp rs _ m] show "resumes ?pid ?c k1" by (simp add: post_def)
  show "\<exists>k2. ?call ?k = Ret (k2, Ok v)" using m by (auto simp: bindP_Ret retP_def)
qed

lemma yield_requeues:
  assumes "current (SCHEDULER k) = Some p" "pr_state p = Running" "pr_wait_state p = NotWaiting" "pending_signals p = 0"
    "CONTEXT_SWITCH_COUNTER k \<noteq> - 1"
  obtains k' q where "yield_handler k = Ret (k', Err Switched)" "q \<in> set (all_processes (SCHEDULER k'))"
    "pr_pid q = pr_pid p" "pr_context q = (pr_context p)\<lparr>rax := 0\<rparr>"
proof -
  let ?s = "(SCHEDULER k)\<lparr>current := Some (zero_rax p)\<rparr>" and ?q = "zero_rax p\<lparr>pr_state := Ready\<rparr>"
  have r: "requeue_current ?s = ?s\<lparr>current := None, ready_queue := ready_queue (SCHEDULER k) @ [?q]\<rparr>"
    using assms by (simp add: requeue_current_def is_exited_def deliver_signals_def has_signal_def zero_rax_def)
  have nq: "\<not> idle ?q" using assms by (simp add: idle_def is_blocked_def is_stopped_def zero_rax_def)
  show thesis
  proof (cases ?s rule: schedule_next_cases)
    case idle
    with r nq show thesis by simp
  next
    case (run as x bs)
    have "?q \<in> set (as @ x # bs)" using run(1) r by (metis in_set_conv_decomp scheduler.select_convs(1) scheduler.surjective scheduler.update_convs(1))
    moreover define q where "q = (if ?q = x then ?q\<lparr>pr_state := Running\<rparr> else ?q)"
    ultimately have q: "q \<in> set (all_processes (schedule_next ?s))" "pr_pid q = pr_pid p" "pr_context q = (pr_context p)\<lparr>rax := 0\<rparr>"
      unfolding run(4) by (auto simp: all_processes_def zero_rax_def)
    let ?k = "k\<lparr>SCHEDULER := schedule_next ?s, CURRENT_CONTEXT := (pr_context p)\<lparr>rax := 0\<rparr>, CONTEXT_SWITCH_COUNTER := CONTEXT_SWITCH_COUNTER k + 1, CR3 := page_table_phys x\<rparr>"
    have "yield_handler k = Ret (?k, Err Switched)"
      using assms run(4) by (simp add: context_ptr_def zero_rax_def yield_handler_def prog_defs increment_context_switch_counter_def switch_to_user_def)
    from that [OF this _ q(2,3)] q(1) show thesis by simp
  qed
qed

lemma views_forall: "(\<forall>x \<in># views s. P x) \<longleftrightarrow> (\<forall>p \<in> set (all_processes s). P (view p))"
  by (auto simp: views_def)

lemma fd_total_views: "fd_total (views s) e = sum_list (map (\<lambda>p. cnt (fd_table p) e) (all_processes s))"
  unfolding fd_total_def views_def
  by (induction "all_processes s") (simp_all add: view_def multiset.map_comp comp_def flip: sum_mset_sum_list)

lemma save_registers_result:
  "save_registers regs c\<lparr>rax := v, rcx := rip (save_registers regs c), r11 := rflags (save_registers regs c)\<rparr>
     = save_registers regs c\<lparr>rax := v\<rparr>"
  by (cases regs) (simp add: save_registers_def)

section \<open>A sample kernel\<close>

text \<open>Two processes of user 1000, a pipe between nobody yet, no disk and 4 KiB of memory at 4096.\<close>

definition sample_process :: "u64 \<Rightarrow> process_state \<Rightarrow> fd_table \<Rightarrow> proc" where
  "sample_process pid st fds =
     \<lparr>pr_pid = Pid pid, pr_pgid = Pid pid, parent_pid = None, pr_state = st, pr_wait_state = NotWaiting,
      pr_uid = 1000, pr_gid = 1000, entry_point = 0, user_stack_ptr = 0, kernel_stack_ptr = 0, page_table_phys = pid * 4096,
      pr_context = context_zero, fd_table = fds, pending_signals = 0, cwd = ''/home'', path_env = ''/bin'',
      environ = Map.empty, heap = \<lparr>heap_start = 0, heap_end = 0, heap_limit = 0\<rparr>, mappings = [], mmap_base = 0, vm_regions = []\<rparr>"

definition sample_vfs :: "pipe_pool \<Rightarrow> unit vfs" where
  "sample_vfs pool = \<lparr>MOUNT_TABLE = None, TMPFS = None, WRITABLE_FILES = None, DYNAMIC_FILES = None, FILE_MODES = None,
     FILE_OWNERSHIP = None, PIPES = pool\<rparr>"

definition sample_pipe :: "nat \<Rightarrow> nat \<Rightarrow> pipe" where
  "sample_pipe r w = \<lparr>p_buffer = [0, 0], read_pos = 0, write_pos = 0, p_count = 0, read_refcount = r, write_refcount = w\<rparr>"

definition sample_kernel :: "fd_table \<Rightarrow> pipe_pool \<Rightarrow> (unit, unit) kernel" where
  "sample_kernel fds pool =
     \<lparr>SCHEDULER = \<lparr>ready_queue = [sample_process 2 Ready fd_table_new], current = Some (sample_process 1 Running fds), foreground_pgid = None\<rparr>, CURRENT_CONTEXT = context_zero,
      VFS = sample_vfs pool, MM = (),
      SPACES = (\<lambda>_. \<lparr>um_byte = (\<lambda>_. 65), um_readable = (\<lambda>a. 4096 \<le> a \<and> a < 8192), um_writable = (\<lambda>a. 4096 \<le> a \<and> a < 8192)\<rparr>),
      CR3 = 4096, PENDING_REAP_PT = 0, PENDING_REAP_PID = 0, NEED_RESCHED = False, TICK_COUNTER = 0,
      CONTEXT_SWITCH_COUNTER = 0, NEXT_PID = 3, GLOBAL_TTY = tty_new, DEVICE_INPUT = [], SERIAL_OUT = []\<rparr>"

definition sample_env :: "(unit, unit) env" where
  "sample_env = \<lparr>env_rd = (\<lambda>d n. (d, Err BlkNotReady)), env_ulower = id,
     env_clone = (\<lambda>_. retP 12288), env_kstack = (\<lambda>_ _. retP ()), env_free = (\<lambda>_. retP ()), env_other = (\<lambda>_ _. retP 0)\<rparr>"

definition returns :: "('a \<times> 'b) outcome \<Rightarrow> bool" where
  "returns r \<longleftrightarrow> (case r of Ret _ \<Rightarrow> True | Panic \<Rightarrow> False)"

definition returns_unit :: "('a \<times> (unit, 'e) result) outcome \<Rightarrow> bool" where
  "returns_unit r \<longleftrightarrow> (case r of Ret (_, Ok _) \<Rightarrow> True | _ \<Rightarrow> False)"

definition state_after :: "('a \<times> 'b) outcome \<Rightarrow> 'a \<Rightarrow> 'a" where
  "state_after r k = (case r of Ret (k', _) \<Rightarrow> k' | Panic \<Rightarrow> k)"

lemma reach_call:
  assumes "returns (syscall_entry env regs k)" "\<And>n. from_u64 (rax regs) = Some n \<Longrightarrow> modelled n"
  shows "kernel_reach env k (state_after (syscall_entry env regs k) k)"
proof -
  obtain k' r where r: "syscall_entry env regs k = Ret (k', r)"
    using assms(1) by (auto simp: returns_def split: outcome.splits)
  have "kernel_step env k k'" by (rule kernel_step.call [OF assms(2) r])
  then show ?thesis using r by (auto simp: state_after_def intro: kernel_reach.intros)
qed

lemma returns_unit_eq:
  assumes "returns_unit r"
  shows "r = Ret (state_after r k, Ok ())"
proof (cases r)
  case (Ret x)
  with assms show ?thesis by (cases "snd x") (auto simp: returns_unit_def state_after_def split: prod.splits)
qed (use assms in \<open>simp add: returns_unit_def\<close>)

lemmas sample_defs = sample_kernel_def sample_process_def sample_vfs_def sample_pipe_def all_processes_def

abbreviation setuid_root :: "(unit, unit) kernel" where
  "setuid_root \<equiv> state_after (syscall_entry sample_env (context_zero\<lparr>rax := 105, rdi := 0\<rparr>) (sample_kernel fd_table_new []))
     (sample_kernel fd_table_new [])"

lemma setuid_root_reach: "kernel_reach sample_env (sample_kernel fd_table_new []) setuid_root"
  by (rule reach_call) (code_simp, simp add: context_zero_def from_u64_def syscall_table_def modelled_def)

abbreviation sample_piped :: "(unit, unit) kernel" where
  "sample_piped \<equiv> sample_kernel (fd_table_new[3 := Some (PipeRead 0), 4 := Some (PipeRead 0)]) [sample_pipe 2 1]"

abbreviation close_call :: cpu_context where
  "close_call \<equiv> context_zero\<lparr>rax := 3, rdi := 3\<rparr>"

abbreviation close_state :: "(unit, unit) kernel" where
  "close_state \<equiv> state_after (syscall_entry sample_env close_call sample_piped) sample_piped"

lemma close_modelled: "from_u64 (rax close_call) = Some n \<Longrightarrow> modelled n"
  by (simp add: context_zero_def from_u64_def syscall_table_def modelled_def)

lemma close_returns: "returns_unit (syscall_entry sample_env close_call sample_piped)"
  by code_simp

lemma close_reach: "kernel_reach sample_env sample_piped close_state"
  by (rule reach_call [OF _ close_modelled]) code_simp

section \<open>Properties\<close>



text \<open>C34: every working directory stays an absolute path without empty, dot or dot-dot components,
  through timer ticks, terminal input and all system calls other than execve, brk, mmap, socket,
  sendto and recvfrom.\<close>

theorem working_directories_normal:
  assumes "kernel_reach env k k'" "\<forall>p \<in> set (all_processes (SCHEDULER k)). abs_normal (cwd p)"
    "p \<in> set (all_processes (SCHEDULER k'))"
  shows "abs_normal (cwd p)"
proof -
  have "view_inv cwds_normal k" using assms(2) by (simp add: view_inv_def cwds_normal_def views_forall view_def)
  from dirs.reach_inv [OF assms(1) this] assms(3) show ?thesis
    by (simp add: view_inv_def cwds_normal_def views_forall view_def)
qed

theorem working_directories_normal_witness:
  "list_all (\<lambda>p. abs_normal (cwd p)) (all_processes (SCHEDULER setuid_root))"
proof -
  have "abs_normal ''/home''" by code_simp
  then show ?thesis using working_directories_normal [OF setuid_root_reach] by (simp add: list_all_iff sample_defs)
qed

text \<open>C2: the reference counts of the pipes cover every descriptor. Through timer ticks, terminal
  input and all system calls other than execve, brk, mmap, socket, sendto and recvfrom, and as long
  as fewer than 2 to the 59 pids have been given out, every table keeps its 16 entries and, over all
  processes together, no end of a pipe has more descriptors than references; so a descriptor of a
  pipe never refers to a pipe whose slot has been freed, whatever processes fork, duplicate, close
  or exit. (The bound keeps the reference counts, which are machine words, from overflowing.)\<close>

theorem pipe_references_cover_descriptors:
  assumes "kernel_reach env k k'" "unat (NEXT_PID k') < 2 ^ 59"
    "length (all_processes (SCHEDULER k)) \<le> unat (NEXT_PID k)"
    "\<forall>p \<in> set (all_processes (SCHEDULER k)). length (fd_table p) = MAX_FDS"
    "\<forall>e. is_pipe e \<longrightarrow> sum_list (map (\<lambda>p. cnt (fd_table p) e) (all_processes (SCHEDULER k))) \<le> refc (PIPES (VFS k)) e"
  shows "(\<forall>p \<in> set (all_processes (SCHEDULER k')). length (fd_table p) = MAX_FDS)
    \<and> (\<forall>e. is_pipe e \<longrightarrow> sum_list (map (\<lambda>p. cnt (fd_table p) e) (all_processes (SCHEDULER k'))) \<le> refc (PIPES (VFS k')) e)"
proof -
  have *: "view_inv accounted k"
    using assms(3-5) by (simp add: view_inv_def accounted_def views_forall view_def safe_def fd_total_views) (simp add: views_def)
  have "view_inv accounted k'" by (rule refs.reach_inv [OF assms(1) *])
  with assms(2) show ?thesis by (simp add: view_inv_def accounted_def views_forall view_def safe_def fd_total_views)
qed

theorem pipe_references_cover_descriptors_witness:
  "sum_list (map (\<lambda>p. cnt (fd_table p) (PipeRead 0)) (all_processes (SCHEDULER close_state))) \<le> refc (PIPES (VFS close_state)) (PipeRead 0)
     \<and> sum_list (map (\<lambda>p. cnt (fd_table p) (PipeRead 0)) (all_processes (SCHEDULER close_state))) = 1"
proof -
  have n: "NEXT_PID close_state = 3" by code_simp
  have l: "length (fd_table p) = MAX_FDS" if "p \<in> set (all_processes (SCHEDULER sample_piped))" for p
    using that by (auto simp: sample_defs fd_table_new_def)
  have c: "sum_list (map (\<lambda>p. cnt (fd_table p) e) (all_processes (SCHEDULER sample_piped))) \<le> refc (PIPES (VFS sample_piped)) e"
    if "is_pipe e" for e
    using that by (cases e) (auto simp: sample_defs fd_table_new_def MAX_FDS_def cnt_def refc_def numeral_eq_Suc)
  have s: "sum_list (map (\<lambda>p. cnt (fd_table p) (PipeRead 0)) (all_processes (SCHEDULER close_state))) = 1" by code_simp
  have b: "unat (NEXT_PID close_state) < 2 ^ 59" unfolding n by simp
  have a: "length (all_processes (SCHEDULER sample_piped)) \<le> unat (NEXT_PID sample_piped)" by (simp add: sample_defs)
  have "is_pipe (PipeRead 0)" by (simp add: is_pipe_def)
  then show ?thesis using pipe_references_cover_descriptors [OF close_reach b a] l c s by blast
qed

text \<open>C7: a system call that returns comes back with every register as it was, the result in rax
  apart, that result is the one of the call, and the current process, if there still is one, is
  the one that made the call. This holds of all calls other than execve, which replaces the
  registers, and brk, mmap, socket, sendto and recvfrom. It includes the return with no current
  process: when the caller was taken off the processor and nothing can run, the context pointer
  still refers to the caller's context.\<close>

theorem syscall_keeps_registers:
  assumes "\<forall>n. from_u64 (rax regs) = Some n \<longrightarrow> modelled n" "syscall_entry env regs k = Ret (k', Ok ())"
  shows "\<exists>k1 v. handle_syscall env (rax regs) (rdi regs) (rsi regs) (rdx regs) (r10 regs) (r8 regs) (r9 regs)
         (set_context (save_registers regs) k) = Ret (k1, Ok v)
    \<and> user_registers k' = save_registers regs (context_ptr k)\<lparr>rax := v\<rparr>
    \<and> (\<forall>q. current (SCHEDULER k') = Some q \<longrightarrow> (\<exists>p. current (SCHEDULER k) = Some p \<and> pr_pid q = pr_pid p))"
proof -
  obtain k1 v where h: "syscall_handler_rust env (set_context (save_registers regs) k) = Ret (k1, Ok v)"
    "k' = set_context (\<lambda>ctx. ctx\<lparr>rax := v\<rparr>) k1"
    using assms(2) by (auto simp: syscall_entry_def bindP_Ret modP_def)
  have m: "from_u64 (rax regs) = Some n \<Longrightarrow> modelled n" for n using assms(1) by blast
  note r = entry_resumes [OF m h(1)]
  let ?c = "save_registers regs (context_ptr k)"
  have "(context_ptr k1)\<lparr>rax := 0\<rparr> = ?c\<lparr>rax := 0\<rparr>" using r(1) by (simp add: resumes_def)
  from arg_cong [OF this, of "\<lambda>c. c\<lparr>rax := v\<rparr>"] have e: "(context_ptr k1)\<lparr>rax := v\<rparr> = ?c\<lparr>rax := v\<rparr>" by simp
  have u: "user_registers k' = ?c\<lparr>rax := v\<rparr>"
    unfolding user_registers_def Let_def h(2) set_context_simps e by (simp add: save_registers_result)
  have "\<exists>p. current (SCHEDULER k) = Some p \<and> pr_pid q = pr_pid p" if "current (SCHEDULER k') = Some q" for q
    using that r(1)
    by (cases "current (SCHEDULER k)") (auto simp: h(2) set_context_def resumes_def same_caller_def split: option.splits)
  with u r(2) show ?thesis by blast
qed

theorem syscall_keeps_registers_witness:
  "\<exists>k1 v. handle_syscall sample_env 3 3 0 0 0 0 0 (set_context (save_registers close_call) sample_piped) = Ret (k1, Ok v)
    \<and> user_registers close_state = save_registers close_call context_zero\<lparr>rax := v\<rparr>"
proof -
  have c: "context_ptr sample_piped = context_zero" by (simp add: sample_kernel_def sample_process_def context_ptr_def)
  have a: "rax close_call = 3" "rdi close_call = 3" "rsi close_call = 0" "rdx close_call = 0" "r10 close_call = 0"
    "r8 close_call = 0" "r9 close_call = 0" by (simp_all add: context_zero_def)
  show ?thesis
    using syscall_keeps_registers [OF _ returns_unit_eq [OF close_returns, of sample_piped]] close_modelled
    unfolding c a by blast
qed

text \<open>C35: preemption at the end of a call discards its result. When the timer has asked for
  rescheduling and the caller is running, not waiting and has no signal pending at the end of the
  call, the call that computed v leaves the caller with 0 in rax, in the queue or running:
  \<open>check_and_handle_preemption\<close> goes through \<open>yield_handler\<close>, which stores the result of a yield.\<close>

theorem preempted_call_loses_result:
  assumes "current (SCHEDULER k) = Some c"
    "handle_syscall env (rax regs) (rdi regs) (rsi regs) (rdx regs) (r10 regs) (r8 regs) (r9 regs)
       (set_context (save_registers regs) k) = Ret (k1, Ok v)"
    "NEED_RESCHED k1" "CONTEXT_SWITCH_COUNTER k1 \<noteq> - 1"
    "current (SCHEDULER k1) = Some p" "pr_state p = Running" "pr_wait_state p = NotWaiting" "pending_signals p = 0"
  shows "\<exists>k' q. syscall_entry env regs k = Ret (k', Err Switched) \<and> q \<in> set (all_processes (SCHEDULER k'))
    \<and> pr_pid q = pr_pid p \<and> pr_context q = (pr_context p)\<lparr>rax := 0\<rparr>"
proof -
  let ?k1 = "k1\<lparr>NEED_RESCHED := False\<rparr>"
  obtain k' q where y: "yield_handler ?k1 = Ret (k', Err Switched)"
    and q: "q \<in> set (all_processes (SCHEDULER k'))" "pr_pid q = pr_pid p" "pr_context q = (pr_context p)\<lparr>rax := 0\<rparr>"
    using yield_requeues [of ?k1 p] assms(4-8) by auto
  have "current (SCHEDULER (set_context (save_registers regs) k)) = Some (c\<lparr>pr_context := save_registers regs (pr_context c)\<rparr>)"
    using assms(1) by (simp add: set_context_def)
  then have "syscall_handler_rust env (set_context (save_registers regs) k) = Ret (k', Err Switched)"
    using assms(2,3) y
    by (simp add: syscall_handler_rust_def bindP_def getP_def modP_def check_and_handle_preemption_def)
  then have "syscall_entry env regs k = Ret (k', Err Switched)"
    by (simp add: syscall_entry_def bindP_def modP_def)
  with q show ?thesis by blast
qed

theorem preempted_call_loses_result_witness:
  "\<exists>k' q. syscall_entry sample_env (context_zero\<lparr>rax := 102\<rparr>) (sample_piped\<lparr>NEED_RESCHED := True\<rparr>) = Ret (k', Err Switched)
    \<and> q \<in> set (all_processes (SCHEDULER k')) \<and> pr_pid q = Pid 1 \<and> rax (pr_context q) = 0"
proof -
  let ?k = "sample_piped\<lparr>NEED_RESCHED := True\<rparr>" and ?r = "context_zero\<lparr>rax := 102\<rparr>"
  let ?p = "sample_process 1 Running (fd_table_new[3 := Some (PipeRead 0), 4 := Some (PipeRead 0)])"
  have c: "current (SCHEDULER ?k) = Some ?p" by (simp add: sample_kernel_def)
  have h: "handle_syscall sample_env 102 0 0 0 0 0 0 (set_context (save_registers ?r) ?k) = Ret (set_context (save_registers ?r) ?k, Ok 1000)"
    by (simp add: handle_syscall_def from_u64_def syscall_table_def call_of_def getuid_handler_def tryP_def bindP_def retP_def
        current_process_def getP_def liftR_def set_context_def sample_kernel_def sample_process_def encode_result_def)
  let ?q = "?p\<lparr>pr_context := save_registers ?r context_zero\<rparr>" and ?k1 = "set_context (save_registers ?r) ?k"
  have h': "handle_syscall sample_env (rax ?r) (rdi ?r) (rsi ?r) (rdx ?r) (r10 ?r) (r8 ?r) (r9 ?r) ?k1 = Ret (?k1, Ok 1000)"
    using h by (simp add: context_zero_def)
  have k1: "NEED_RESCHED ?k1" "CONTEXT_SWITCH_COUNTER ?k1 \<noteq> - 1" "current (SCHEDULER ?k1) = Some ?q"
    by (simp_all add: set_context_def sample_kernel_def sample_process_def)
  have q: "pr_state ?q = Running" "pr_wait_state ?q = NotWaiting" "pending_signals ?q = 0" "pr_pid ?q = Pid 1"
    by (simp_all add: sample_process_def)
  from preempted_call_loses_result [OF c h' k1 q(1-3)] obtain k' q'
    where w: "syscall_entry sample_env ?r ?k = Ret (k', Err Switched)" "q' \<in> set (all_processes (SCHEDULER k'))"
      "pr_pid q' = pr_pid ?q" "pr_context q' = (pr_context ?q)\<lparr>rax := 0\<rparr>" by blast
  then have "rax (pr_context q') = 0" by simp
  with w(1-3) show ?thesis unfolding q(4) by blast
qed

text \<open>C36: a read of an empty pipe that still has writers looks like the end of the file to the reader:
  it is put back in the queue with 0 in rax and nothing in its buffer, and the read is not
  made again.\<close>

theorem empty_pipe_read_as_eof:
  assumes "current (SCHEDULER k) = Some p" "pr_state p = Running" "pr_wait_state p = NotWaiting" "pending_signals p = 0"
    "fd_get (fd_table p) fd = Ok (PipeRead i)" "pool_get (PIPES (VFS k)) i = Some pipe" "p_count pipe = 0"
    "write_refcount pipe > 0" "CONTEXT_SWITCH_COUNTER k \<noteq> - 1"
  shows "\<exists>k' q. read_handler rd fd buf len k = Ret (k', Err Switched) \<and> q \<in> set (all_processes (SCHEDULER k'))
    \<and> pr_pid q = pr_pid p \<and> pr_context q = (pr_context p)\<lparr>rax := 0\<rparr>"
proof -
  obtain k' q where y: "yield_handler k = Ret (k', Err Switched)"
    and q: "q \<in> set (all_processes (SCHEDULER k'))" "pr_pid q = pr_pid p" "pr_context q = (pr_context p)\<lparr>rax := 0\<rparr>"
    using yield_requeues [OF assms(1-4,9)] by blast
  have "pipe_read (PIPES (VFS k)) i (replicate (min (unat len) TEMP_BUF) 0)
      = Ret (PIPES (VFS k), replicate (min (unat len) TEMP_BUF) 0, Err EAGAIN)"
    using assms(6-8) by (auto simp: pipe_read_def pipe_read_data_def pipe_is_empty_def pool_get_def split: if_splits)
  then have "on_vfs (pipe_read_temp i (min (unat len) TEMP_BUF)) k = Ret (k, Err (Errno EAGAIN))"
    by (simp add: on_vfs_def map_errP_def zoomP_def pipe_read_temp_def)
  then have "or_yield (on_vfs (pipe_read_temp i (min (unat len) TEMP_BUF))) (deliver buf) k = Ret (k', Err Switched)"
    using y by (simp add: or_yield_def tryP_def bindP_def)
  then have "read_handler rd fd buf len k = Ret (k', Err Switched)"
    using assms(1,5)
    by (simp add: read_handler_def current_process_def bindP_step [OF getP_def] bindP_def liftR_def try_err_def Let_def)
  with q show ?thesis by blast
qed

theorem empty_pipe_read_as_eof_witness:
  "\<exists>k' q. read_handler (env_rd sample_env) 3 4096 16 sample_piped = Ret (k', Err Switched) \<and> q \<in> set (all_processes (SCHEDULER k'))
    \<and> pr_pid q = Pid 1 \<and> rax (pr_context q) = 0"
proof -
  let ?p = "sample_process 1 Running (fd_table_new[3 := Some (PipeRead 0), 4 := Some (PipeRead 0)])"
  have p: "current (SCHEDULER sample_piped) = Some ?p" "pr_state ?p = Running" "pr_wait_state ?p = NotWaiting"
    "pending_signals ?p = 0" "pr_pid ?p = Pid 1"
    by (simp_all add: sample_kernel_def sample_process_def)
  have f: "fd_get (fd_table ?p) 3 = Ok (PipeRead 0)" by code_simp
  have k: "pool_get (PIPES (VFS sample_piped)) 0 = Some (sample_pipe 2 1)" "p_count (sample_pipe 2 1) = 0"
    "write_refcount (sample_pipe 2 1) > 0" "CONTEXT_SWITCH_COUNTER sample_piped \<noteq> - 1"
    by (simp_all add: sample_defs pool_get_def pipe_is_allocated_def)
  from empty_pipe_read_as_eof [OF p(1-4) f k] obtain k' q
    where w: "read_handler (env_rd sample_env) 3 4096 16 sample_piped = Ret (k', Err Switched)"
      "q \<in> set (all_processes (SCHEDULER k'))" "pr_pid q = pr_pid ?p" "pr_context q = (pr_context ?p)\<lparr>rax := 0\<rparr>" by blast
  then have "rax (pr_context q) = 0" by simp
  with w(1-3) show ?thesis unfolding p(5) by blast
qed

text \<open>C37: what a process writes to descriptors 1 and 2 goes to the serial line whatever its descriptor
  table holds there, since the table refuses descriptors below 3: a pipe or a file that \<open>dup2\<close> has
  put on the standard output is never written.\<close>

theorem standard_output_is_serial:
  assumes "current (SCHEDULER k) = Some p" "fd = 1 \<or> fd = 2" "buf \<noteq> 0" "len \<noteq> 0" "len \<le> 4096"
  shows "sys_write fd buf len k =
    bindP (on_user (copy_user_bytes buf (unat len) 4096)) (\<lambda>slice.
    bindP (modP (\<lambda>k. k\<lparr>SERIAL_OUT := SERIAL_OUT k @ slice\<rparr>)) (\<lambda>_. retP len)) k"
proof -
  have "fd_get (fd_table p) fd = Err EBADF" using assms(2) by (auto simp: fd_get_def fd_std_def FIRST_NONSTD_FD_def)
  then have "write_handler fd buf len k = Ret (k, Err (Errno EBADF))"
    using assms(1) by (simp add: write_handler_def current_process_def bindP_def getP_def liftR_def try_err_def)
  then show ?thesis using assms by (auto simp: sys_write_def tryP_def)
qed

theorem standard_output_is_serial_witness:
  "sys_write 1 4096 3 (sample_kernel (fd_table_new[1 := Some (PipeWrite 0)]) [sample_pipe 1 1]) =
     bindP (on_user (copy_user_bytes 4096 3 4096)) (\<lambda>slice.
     bindP (modP (\<lambda>k. k\<lparr>SERIAL_OUT := SERIAL_OUT k @ slice\<rparr>)) (\<lambda>_. retP 3))
       (sample_kernel (fd_table_new[1 := Some (PipeWrite 0)]) [sample_pipe 1 1])"
  using standard_output_is_serial [of "sample_kernel (fd_table_new[1 := Some (PipeWrite 0)]) [sample_pipe 1 1]"
      "sample_process 1 Running (fd_table_new[1 := Some (PipeWrite 0)])" 1 4096 3]
  by (simp add: sample_kernel_def)

end
