(* ===== verification/Spec2Isabelle.thy ===== *)
theory Spec2Isabelle
  imports Byte_Codec Kernel_Memory Kernel_Safety
begin

text \<open>
  PandaOS, a small x86-64 kernel in Rust: a model of its components and their correctness.

  \<^bold>\<open>Parts of the program and theories.\<close> The hardware abstraction crate (\<open>hal/src\<close>) has the frame
  allocator, ring buffer, process identifiers and the block device interface. The kernel crate
  (\<open>kernel/src\<close>) has the start of memory management, processes, the scheduler, pipes, the terminal,
  four file systems behind a mount table, the file descriptor layer on top of them, and the system
  calls, which use all of these.
  \<^item> \<open>Panda_Prelude\<close>, \<open>Byte_Codec\<close>, \<open>Kernel_Monad\<close>, \<open>Rust_String\<close>, \<open>BTree_Map\<close>, \<open>Kernel_Errors\<close>: words,
    \<open>Result\<close>, panics, slices, little- and big-endian integers, the program type of stateful fallible
    code with its total specifications, UTF-8 strings, ordered maps, error codes.
  \<^item> \<open>Bitmap\<close>, \<open>Frame_Allocator\<close> (\<open>hal/src/bitmap.rs\<close>, \<open>hal/src/memory.rs\<close>), \<open>Ring_Buffer\<close>
    (\<open>hal/src/ringbuffer.rs\<close>), \<open>Pid\<close> (\<open>hal/src/pid.rs\<close>), \<open>Block_Device\<close> (\<open>hal/src/block.rs\<close>).
  \<^item> \<open>Kernel_Memory\<close>: the memory map and the start of the frame allocator (\<open>kernel/src/memory.rs\<close>), the
    frames of the kernel heap (\<open>heap.rs\<close>), the page-table tracker, the counters of \<open>vm_counters.rs\<close>.
  \<^item> \<open>Pipe\<close>, \<open>Process\<close>, \<open>Scheduler\<close> (\<open>pipe.rs\<close>, \<open>process.rs\<close>, \<open>scheduler.rs\<close> and the exit and signal
    handlers of \<open>main.rs\<close>), \<open>Tty\<close> (\<open>tty.rs\<close>).
  \<^item> \<open>Vfs_Base\<close>, \<open>Tmpfs\<close>, \<open>Diskfs\<close>, \<open>Fat32\<close>, \<open>Mount\<close>, \<open>Vfs\<close> (\<open>fs.rs\<close>, \<open>tmpfs.rs\<close>, \<open>diskfs.rs\<close>, \<open>fat32.rs\<close>,
    \<open>mount.rs\<close>).
  \<^item> \<open>Usermode\<close>: the register context (\<open>context.rs\<close>) and the copies from and to user memory
    (\<open>usermode.rs\<close>). \<open>Syscalls\<close>: the state of the whole kernel, the system call handlers of \<open>main.rs\<close>,
    \<open>fork_from\<close> of \<open>process.rs\<close>, the dispatch of \<open>syscall.rs\<close>, and the entry and exit of a system call
    of \<open>usermode.rs\<close>.
  \<^item> \<open>Fd_Accounting\<close>: descriptors against the reference counts of the pipes. \<open>Kernel_Invariants\<close>: what
    every system call keeps of the kernel state, proved once in locales. \<open>Kernel_Safety\<close>: sequences of
    system calls, timer ticks and terminal input, and the properties of the kernel as a whole.

  \<^bold>\<open>State.\<close> A Rust struct is a record with the same fields, an enum a datatype. A method on
  \<open>&mut self\<close> takes the record and returns it updated, also on an error. The statics of the file
  system layer are the record \<open>vfs\<close>, those of the kernel the record \<open>kernel\<close>; each is behind a lock
  that a call holds while it uses it, or is used with interrupts disabled, so a call is one step.
  Arithmetic overflow, failed assertions and indices out of range panic, as in the dev profile the
  kernel is built with; a definition that can panic returns an \<open>outcome\<close>. A system call that does
  not come back to its caller ends in a \<open>trap\<close>.

  \<^bold>\<open>What the lemmas show.\<close>
  \<^item> Hardware abstraction: allocation returns the first free frame in search order, no operation
    breaks the invariant of the allocator, the bitmap and the ring buffer refine a set and a
    bounded queue, sectors that were written are read back.
  \<^item> Memory at boot: which frames are reserved and where the heap is.
  \<^item> Processes: a runnable process runs after finitely many switches, no process is lost, the
    states of the queues are consistent. Pipes are byte queues and the terminal is a line editor,
    for every interleaving of operations.
  \<^item> File systems: the structure of the temporary file system is kept by every operation, with the
    exact results of create, unlink, rename, write and read; the disk file systems return exactly
    the bytes, entries and inodes that the image on the disk stores. Paths are normalized and
    permissions agree with the mode bits.
  \<^item> The kernel: pipe reference counts cover all descriptors, privilege is not regained, working
    directories are normal and registers are kept, for all calls except those below.

  \<^bold>\<open>Parameters.\<close> The block device is a parameter, with the contract of the trait as the locale
  \<open>block_device\<close>, interpreted by the memory-backed device of the tests; theorems about the disk file
  systems assume it. Lower case outside ASCII is the parameter \<open>ulower\<close>. Three operations of
  \<open>paging.rs\<close> are fields of \<open>env\<close>, over a state of their own: \<open>env_clone\<close> copies an address space,
  \<open>env_kstack\<close> maps a kernel stack and \<open>env_free\<close> frees an address space. The field \<open>env_other\<close> stands
  for the calls execve, brk, mmap, socket, sendto and recvfrom; the predicate \<open>modelled\<close> holds of all
  other calls, and the theorems on sequences of calls are about those. Allocation of heap memory
  never fails.

  \<^bold>\<open>Bounds.\<close> Loops of the source are recursion over what they iterate. The cluster chain of FAT32
  carries the bound of the source, 65536. One loop takes fuel: \<open>tty_wait\<close>, the loop of \<open>sys_read\<close> that
  waits for a line, gets the number of bytes the device has, plus one. That is enough, since
  every round takes a byte off the device and with none left the loop stops as \<open>Waiting\<close>; more fuel
  gives the same result (\<open>tty_wait_enough\<close>). The bound
  of 2 to the 59 on process identifiers keeps reference counts, which are machine words, from
  overflowing.

  \<^bold>\<open>Not modelled.\<close> Page tables, page faults and copy-on-write (\<open>paging.rs\<close>), the ELF loader and the
  initial user stack (\<open>elf.rs\<close>, \<open>exec_stack.rs\<close>) and with them execve, brk, mmap and the creation of
  the first process; the network stack and the socket calls (\<open>net\<close>); the home file system
  (\<open>homefs.rs\<close>), which no other part calls; the keyboard (\<open>input\<close>), whose bytes are the input of the
  terminal; the allocator inside the kernel heap, an external crate; and code that only drives
  hardware or prints (ATA, serial line and screen, interrupt and descriptor tables, timer,
  context-switch assembly, boot phases, self checks, smoke tests).
\<close>

end
